(* ===== verification/Prelude.thy ===== *)
theory Prelude
  imports Main "HOL-Library.State_Monad" "HOL-Library.Word" "HOL-Library.Signed_Division"
begin

text \<open>
  The vocabulary every component shares.

  \<^item> Go's machine integers: an \<open>int\<close> of the program is a HOL \<open>int\<close>, and every
    addition, subtraction, multiplication and division of the code goes through \<open>i64\<close>, the
    wrap-around of a 64-bit signed integer.
  \<^item> Time: an instant is the number of nanoseconds since the zero \<open>time.Time\<close>, so the zero
    instant is 0 and \<open>IsZero\<close> is a test for 0. \<open>time.Time.Sub\<close> saturates at the
    limits of a \<open>time.Duration\<close>.
  \<^item> Effects: code that talks to the operating system is a computation of the state monad of
    the library; \<open>wp\<close> reads such a computation as a predicate transformer, and the collection
    \<open>wp_simps\<close> unfolds it command by command.
\<close>

named_theorems wp_simps \<open>equations that push wp through the monad's commands\<close>
named_theorems effect_intros \<open>what a computation can do to its state, command by command\<close>

section \<open>Integers of 64 bits\<close>

definition i64 :: "int \<Rightarrow> int" where
  "i64 x = (x + 2 ^ 63) mod 2 ^ 64 - 2 ^ 63"

definition int64 :: "int \<Rightarrow> bool" where
  "int64 x \<longleftrightarrow> - (2 ^ 63) \<le> x \<and> x < 2 ^ 63"

lemma int64_i64 [simp, intro]: "int64 (i64 x)"
proof -
  have "0 \<le> (x + 2 ^ 63) mod 2 ^ 64" "(x + 2 ^ 63) mod 2 ^ 64 < (2::int) ^ 64"
    by simp_all
  then show ?thesis
    unfolding int64_def i64_def by simp
qed

lemma i64_id: "int64 x \<Longrightarrow> i64 x = x"
  unfolding int64_def i64_def by simp

lemma i64_small: "- 9000000000000000000 \<le> x \<Longrightarrow> x \<le> 9000000000000000000 \<Longrightarrow> i64 x = x"
  by (rule i64_id) (simp add: int64_def)

lemma i64_word: "i64 x = sint (word_of_int x :: 64 word)"
proof -
  have "sint (word_of_int x :: 64 word) = signed_take_bit 63 x"
    by (simp add: sint_uint unsigned_of_int signed_take_bit_take_bit)
  also have "\<dots> = (x + 2 ^ 63) mod 2 ^ 64 - 2 ^ 63"
    by (simp add: signed_take_bit_eq_take_bit_shift take_bit_eq_mod)
  finally show ?thesis by (simp add: i64_def)
qed

lemma sdiv_pos: "0 \<le> a \<Longrightarrow> 0 < b \<Longrightarrow> a sdiv b = a div (b::int)"
  by (cases "a = 0") (auto simp: signed_divide_int_def)

section \<open>Time and durations\<close>

type_synonym duration = int
type_synonym instant = int

definition nanosecond :: duration where "nanosecond = 1"
definition millisecond :: duration where "millisecond = 1000000"
definition second :: duration where "second = 1000000000"

lemmas duration_units = nanosecond_def millisecond_def second_def

text \<open>\<open>t.Sub(u)\<close>: the difference, saturated at the smallest and the largest duration.\<close>

definition time_Sub :: "instant \<Rightarrow> instant \<Rightarrow> duration" where
  "time_Sub t u = max (- (2 ^ 63)) (min (2 ^ 63 - 1) (t - u))"

definition IsZero :: "instant \<Rightarrow> bool" where
  "IsZero t \<longleftrightarrow> t = 0"

lemma time_Sub_ge: "0 \<le> d \<Longrightarrow> d \<le> time_Sub t u \<Longrightarrow> u + d \<le> t"
  unfolding time_Sub_def by (auto simp: max_def min_def split: if_splits)

lemma time_Sub_less: "d \<le> 2 ^ 63 - 1 \<Longrightarrow> time_Sub t u < d \<Longrightarrow> t < u + d"
  unfolding time_Sub_def by (auto simp: max_def min_def split: if_splits)

section \<open>Computations\<close>

definition wp :: "('s, 'a) state \<Rightarrow> ('a \<Rightarrow> 's \<Rightarrow> bool) \<Rightarrow> 's \<Rightarrow> bool" where
  "wp m Q s = (case run_state m s of (a, s') \<Rightarrow> Q a s')"

lemma wp_return [wp_simps]: "wp (State_Monad.return a) Q s = Q a s"
  by (simp add: wp_def)

lemma wp_bind [wp_simps]: "wp (State_Monad.bind m f) Q s = wp m (\<lambda>a. wp (f a) Q) s"
  by (simp add: wp_def split: prod.splits)

lemma wp_if [wp_simps]: "wp (if b then m else n) Q s = (if b then wp m Q s else wp n Q s)"
  by simp

lemma wp_let [wp_simps]: "wp (let x = a in m x) Q s = wp (m a) Q s"
  by simp

lemma wp_prod [wp_simps]: "wp (case p of (x, y) \<Rightarrow> m x y) Q s = wp (m (fst p) (snd p)) Q s"
  by (simp add: case_prod_beta)

lemma wp_run: "run_state m s = (a, s') \<Longrightarrow> wp m Q s = Q a s'"
  by (simp add: wp_def)

lemma wp_mono: "wp m Q s \<Longrightarrow> (\<And>a s'. Q a s' \<Longrightarrow> R a s') \<Longrightarrow> wp m R s"
  by (auto simp: wp_def split: prod.splits)

lemma wp_True: "wp m (\<lambda>_ _. True) s"
  by (simp add: wp_def split: prod.splits)

lemma wp_fst_snd: "wp m Q s = Q (fst (run_state m s)) (snd (run_state m s))"
  by (simp add: wp_def case_prod_beta)

lemma wp_any: "(\<And>a s'. Q a s') \<Longrightarrow> wp m Q s"
  by (simp add: wp_fst_snd)

lemma wpD: "wp m Q s \<Longrightarrow> Q (fst (run_state m s)) (snd (run_state m s))"
  by (simp add: wp_fst_snd)

lemma wp_conj: "wp m (\<lambda>a s. Q a s \<and> R a s) s = (wp m Q s \<and> wp m R s)"
  by (auto simp: wp_def split: prod.splits)

text \<open>A \<open>for\<close> loop over a slice that threads an accumulator.\<close>

fun foldM :: "('a \<Rightarrow> 'b \<Rightarrow> ('s, 'b) state) \<Rightarrow> 'a list \<Rightarrow> 'b \<Rightarrow> ('s, 'b) state" where
  "foldM f [] b = State_Monad.return b"
| "foldM f (x # xs) b = State_Monad.bind (f x b) (foldM f xs)"

lemma wp_foldM:
  assumes step: "\<And>x b s. x \<in> set xs \<Longrightarrow> I b s \<Longrightarrow> wp (f x b) I s"
    and start: "I b s"
  shows "wp (foldM f xs b) I s"
  using assms
proof (induction xs arbitrary: b s)
  case Nil
  then show ?case by (simp add: wp_simps)
next
  case (Cons x xs)
  from Cons.prems have "wp (f x b) I s" by simp
  then have "wp (f x b) (\<lambda>b s. wp (foldM f xs b) I s) s"
    by (rule wp_mono) (rule Cons.IH, use Cons.prems in auto)
  then show ?case by (simp add: wp_simps)
qed

text \<open>Early exit over a slice: \<open>allM p xs\<close> is the loop that stops at the first failure.\<close>

fun allM :: "('a \<Rightarrow> ('s, bool) state) \<Rightarrow> 'a list \<Rightarrow> ('s, bool) state" where
  "allM p [] = State_Monad.return True"
| "allM p (x # xs) = State_Monad.bind (p x) (\<lambda>b. if b then allM p xs else State_Monad.return False)"

section \<open>Effects\<close>

text \<open>
  \<open>keeps R m\<close>: running \<open>m\<close> takes every state to one related to it by \<open>R\<close>. For a relation that is
  reflexive and transitive the property passes through everything the monad offers, so it is
  proved command by command: the locale \<open>effect\<close> does so once for all such relations.
\<close>

definition keeps :: "('s \<Rightarrow> 's \<Rightarrow> bool) \<Rightarrow> ('s, 'a) state \<Rightarrow> bool" where
  "keeps R m \<longleftrightarrow> (\<forall>s. R s (snd (run_state m s)))"

lemma keepsI: "(\<And>s. R s (snd (run_state m s))) \<Longrightarrow> keeps R m"
  by (simp add: keeps_def)

lemma keepsD: "keeps R m \<Longrightarrow> R s (snd (run_state m s))"
  by (simp add: keeps_def)

lemma keeps_wp: "keeps R m \<Longrightarrow> wp m (\<lambda>a s'. R s s') s"
  by (simp add: keeps_def wp_fst_snd)

locale effect =
  fixes R :: "'s \<Rightarrow> 's \<Rightarrow> bool"
  assumes same: "R s s"
    and chain: "R s t \<Longrightarrow> R t u \<Longrightarrow> R s u"
begin

lemma keeps_return: "keeps R (State_Monad.return a)"
  by (simp add: keeps_def same)

lemma keeps_bind: "keeps R m \<Longrightarrow> (\<And>a. keeps R (f a)) \<Longrightarrow> keeps R (State_Monad.bind m f)"
  by (simp add: keeps_def case_prod_beta) (metis chain)

lemma keeps_if: "keeps R m \<Longrightarrow> keeps R n \<Longrightarrow> keeps R (if b then m else n)"
  by simp

lemma keeps_let: "(\<And>x. keeps R (f x)) \<Longrightarrow> keeps R (Let a f)"
  by simp

lemma keeps_prod: "(\<And>x y. keeps R (f x y)) \<Longrightarrow> keeps R (case p of (x, y) \<Rightarrow> f x y)"
  by (cases p) simp

lemma keeps_option: "keeps R m \<Longrightarrow> (\<And>x. keeps R (f x)) \<Longrightarrow> keeps R (case p of None \<Rightarrow> m | Some x \<Rightarrow> f x)"
  by (cases p) simp_all

lemma keeps_sum:
  "(\<And>x. keeps R (f x)) \<Longrightarrow> (\<And>y. keeps R (g y)) \<Longrightarrow> keeps R (case p of Inl x \<Rightarrow> f x | Inr y \<Rightarrow> g y)"
  by (cases p) simp_all

lemma keeps_allM: "(\<And>x. keeps R (p x)) \<Longrightarrow> keeps R (allM p xs)"
  by (induction xs) (simp_all add: keeps_return keeps_bind)

lemma keeps_foldM: "(\<And>x b. keeps R (f x b)) \<Longrightarrow> keeps R (foldM f xs b)"
  by (induction xs arbitrary: b) (simp_all add: keeps_return keeps_bind)

lemma keeps_traverse: "(\<And>x. keeps R (f x)) \<Longrightarrow> keeps R (State_Monad.traverse_list f xs)"
  by (induction xs) (simp_all add: keeps_return keeps_bind)

lemmas keeps_all = keeps_return keeps_bind keeps_if keeps_let keeps_prod keeps_option keeps_sum
  keeps_allM keeps_foldM keeps_traverse

end

section \<open>Options and maps\<close>

definition map_get :: "'v \<Rightarrow> ('k \<rightharpoonup> 'v) \<Rightarrow> 'k \<Rightarrow> 'v" where
  \<comment> \<open>Go's \<open>m[k]\<close>: the zero value of the element type when the key is absent\<close>
  "map_get z m k = (case m k of None \<Rightarrow> z | Some v \<Rightarrow> v)"

lemma map_get_upd [simp]: "map_get z (m(k \<mapsto> v)) j = (if j = k then v else map_get z m j)"
  by (simp add: map_get_def)

lemma map_get_del [simp]: "map_get z (m(k := None)) j = (if j = k then z else map_get z m j)"
  by (simp add: map_get_def)

lemma map_get_empty [simp]: "map_get z Map.empty k = z"
  by (simp add: map_get_def)

end
