(* ===== verification/GoStrings.thy ===== *)
theory GoStrings
  imports Prelude
begin

text \<open>
  Go strings are byte sequences; a HOL \<open>string\<close> is a list of 8-bit characters, so the
  two agree byte for byte. This theory holds what the code uses of the packages \<open>strings\<close>,
  \<open>strconv\<close>, \<open>fmt\<close> and \<open>time\<close> (for \<open>Duration.String\<close>), and the non-ASCII literals of the
  source as their UTF-8 bytes. In texts quoted with \<open>%q\<close> a byte that starts no character is escaped,
  and a multi-byte character stands for itself, as it does in Go when it is printable.
\<close>

section \<open>Prefixes, joining, splitting\<close>

definition HasPrefix :: "string \<Rightarrow> string \<Rightarrow> bool" where
  "HasPrefix s p \<longleftrightarrow> take (length p) s = p"

definition TrimPrefix :: "string \<Rightarrow> string \<Rightarrow> string" where
  "TrimPrefix s p = (if HasPrefix s p then drop (length p) s else s)"

fun Join :: "string list \<Rightarrow> string \<Rightarrow> string" where
  "Join [] sep = []"
| "Join [x] sep = x"
| "Join (x # y # xs) sep = x @ sep @ Join (y # xs) sep"

text \<open>\<open>strings.Split\<close> by a one-byte separator: always at least one piece.\<close>

fun Split :: "string \<Rightarrow> char \<Rightarrow> string list" where
  "Split [] c = [[]]"
| "Split (x # xs) c =
     (if x = c then [] # Split xs c
      else (case Split xs c of [] \<Rightarrow> [[x]] | p # ps \<Rightarrow> (x # p) # ps))"

text \<open>\<open>strings.Contains\<close>.\<close>

fun Contains :: "string \<Rightarrow> string \<Rightarrow> bool" where
  "Contains [] p = (p = [])"
| "Contains (x # xs) p = (HasPrefix (x # xs) p \<or> Contains xs p)"

text \<open>\<open>strings.ReplaceAll\<close> of a one-byte pattern.\<close>

definition ReplaceAll :: "string \<Rightarrow> char \<Rightarrow> string \<Rightarrow> string" where
  "ReplaceAll s c r = concat (map (\<lambda>x. if x = c then r else [x]) s)"

lemma HasPrefix_append [simp]: "HasPrefix (p @ s) p"
  by (simp add: HasPrefix_def)

lemma TrimPrefix_append [simp]: "TrimPrefix (p @ s) p = s"
  by (simp add: TrimPrefix_def)

lemma HasPrefixE: "HasPrefix s p \<Longrightarrow> \<exists>t. s = p @ t"
  by (metis HasPrefix_def append_take_drop_id)

lemma Split_nonempty [simp]: "Split s c \<noteq> []"
  by (cases s) (auto split: list.splits)

lemma Split_no_sep: "c \<notin> set s \<Longrightarrow> Split s c = [s]"
  by (induction s) auto

lemma Split_append:
  "c \<notin> set s \<Longrightarrow> Split (s @ c # t) c = s # Split t c"
  by (induction s) auto

lemma Split_pieces: "p \<in> set (Split s c) \<Longrightarrow> c \<notin> set p"
proof (induction s arbitrary: p)
  case Nil
  then show ?case by simp
next
  case (Cons x xs)
  obtain q qs where split: "Split xs c = q # qs"
    by (cases "Split xs c") auto
  with Cons.prems Cons.IH show ?case
    by (auto split: if_splits)
qed

lemma Join_Split: "Join (Split s c) [c] = s"
proof (induction s)
  case Nil
  then show ?case by simp
next
  case (Cons x xs)
  obtain q qs where "Split xs c = q # qs"
    by (cases "Split xs c") auto
  with Cons.IH show ?case
    by (cases qs) auto
qed

section \<open>White space\<close>

text \<open>
  The byte length of the white-space rune at the head of a string, 0 if there is none:
  the ASCII blanks and the UTF-8 encodings of U+0085, U+00A0, U+1680, U+2000 to U+200A,
  U+2028, U+2029, U+202F, U+205F and U+3000.
\<close>

fun space_len :: "string \<Rightarrow> nat" where
  "space_len [] = 0"
| "space_len (a # s) =
     (let x = of_char a :: nat in
      if x \<in> {9, 10, 11, 12, 13, 32} then 1
      else if x = 0xC2 then
        (case s of b # _ \<Rightarrow> if of_char b \<in> {0x85, 0xA0 :: nat} then 2 else 0 | [] \<Rightarrow> 0)
      else if x \<in> {0xE1, 0xE2, 0xE3} then
        (case s of b # c # _ \<Rightarrow>
           (let y = of_char b :: nat; z = of_char c :: nat in
            if x = 0xE1 \<and> y = 0x9A \<and> z = 0x80 \<or>
               x = 0xE2 \<and> y = 0x80 \<and> (0x80 \<le> z \<and> z \<le> 0x8A \<or> z \<in> {0xA8, 0xA9, 0xAF}) \<or>
               x = 0xE2 \<and> y = 0x81 \<and> z = 0x9F \<or>
               x = 0xE3 \<and> y = 0x80 \<and> z = 0x80 then 3 else 0)
         | _ \<Rightarrow> 0)
      else 0)"

text \<open>The same at the end of a string, given reversed.\<close>

definition space_len_rev :: "string \<Rightarrow> nat" where
  "space_len_rev r =
     (if space_len (take 1 r) = 1 then 1
      else if space_len (rev (take 2 r)) = 2 then 2
      else if space_len (rev (take 3 r)) = 3 then 3 else 0)"

text \<open>Each round removes at least one byte, so the length of the text is enough fuel.\<close>

fun trim_by :: "(string \<Rightarrow> nat) \<Rightarrow> nat \<Rightarrow> string \<Rightarrow> string" where
  "trim_by f 0 s = s"
| "trim_by f (Suc n) s = (if f s = 0 then s else trim_by f n (drop (f s) s))"

definition TrimSpace :: "string \<Rightarrow> string" where
  "TrimSpace s =
     (let l = trim_by space_len (length s) s
      in rev (trim_by space_len_rev (length l) (rev l)))"

lemma trim_by_stop: "f s = 0 \<Longrightarrow> trim_by f n s = s"
  by (cases n) auto

lemma trim_by_done:
  assumes "f [] = 0" and "length s \<le> n"
  shows "f (trim_by f n s) = 0"
  using assms
proof (induction n arbitrary: s)
  case 0
  then show ?case by simp
next
  case (Suc n)
  then show ?case
    by (cases "f s = 0") auto
qed

text \<open>Plain text is left alone: its first and last bytes are no blanks.\<close>

definition plain :: "char \<Rightarrow> bool" where
  "plain c \<longleftrightarrow> (33 \<le> (of_char c :: nat) \<and> (of_char c :: nat) < 127)"

lemma plain_space_len: "plain c \<Longrightarrow> space_len (c # s) = 0"
  by (auto simp: plain_def Let_def)

lemma space_len_2: "space_len [b, c] = 2 \<Longrightarrow> 128 \<le> (of_char c :: nat)"
  by (auto simp: Let_def split: if_splits)

lemma space_len_3: "space_len [a, b, c] = 3 \<Longrightarrow> 128 \<le> (of_char c :: nat)"
  by (simp add: Let_def split: if_splits) auto

lemma space_len_bound: "space_len s \<le> length s"
  by (cases s rule: space_len.cases) (simp_all add: Let_def split: list.splits)

lemma plain_space_len_rev: "plain c \<Longrightarrow> space_len_rev (c # s) = 0"
proof -
  assume p: "plain c"
  have small: "\<not> 128 \<le> (of_char c :: nat)"
    using p by (simp add: plain_def)
  have one: "space_len (take 1 (c # s)) = 0"
    using p by (simp add: plain_space_len del: space_len.simps)
  have two: "space_len (rev (take 2 (c # s))) \<noteq> 2"
  proof (cases s)
    case Nil
    then show ?thesis
      using space_len_bound [of "[c]"] by (simp del: space_len.simps)
  next
    case (Cons b t)
    then show ?thesis
      using space_len_2 [of b c] small by (auto simp del: space_len.simps)
  qed
  have three: "space_len (rev (take 3 (c # s))) \<noteq> 3"
  proof (cases "length s < 2")
    case True
    then have "length (rev (take 3 (c # s))) < 3" by simp
    then show ?thesis
      using space_len_bound [of "rev (take 3 (c # s))"] by linarith
  next
    case False
    then obtain b a t where "s = b # a # t"
      by (cases s; cases "tl s") auto
    then show ?thesis
      using space_len_3 [of a b c] small by (auto simp: numeral_3_eq_3 simp del: space_len.simps)
  qed
  from one two three show ?thesis by (simp add: space_len_rev_def)
qed

lemma TrimSpace_plain:
  assumes "s = [] \<or> plain (hd s) \<and> plain (last s)"
  shows "TrimSpace s = s"
proof (cases "s = []")
  case True
  then show ?thesis by (simp add: TrimSpace_def)
next
  case False
  with assms have h: "plain (hd s)" and l: "plain (last s)" by auto
  have "space_len s = 0"
    using False h by (cases s) (auto simp: plain_space_len simp del: space_len.simps)
  moreover have "space_len_rev (rev s) = 0"
    using False l by (cases s rule: rev_cases) (auto simp: plain_space_len_rev)
  ultimately show ?thesis
    by (simp add: TrimSpace_def trim_by_stop)
qed

text \<open>A line break after plain text goes away: what \<open>sysctl -n\<close> prints.\<close>

lemma TrimSpace_newline:
  assumes "s \<noteq> []" "plain (hd s)" "plain (last s)"
  shows "TrimSpace (s @ ''\<newline>'') = s"
proof -
  have head: "space_len (s @ ''\<newline>'') = 0"
    using assms by (cases s) (auto simp: plain_space_len simp del: space_len.simps)
  have "space_len_rev (CHR ''\<newline>'' # rev s) = 1"
    by (simp add: space_len_rev_def)
  moreover have "space_len_rev (rev s) = 0"
    using assms by (cases s rule: rev_cases) (auto simp: plain_space_len_rev)
  ultimately show ?thesis
    using head by (simp add: TrimSpace_def trim_by_stop)
qed

section \<open>Decimal numbers\<close>

definition digit_char :: "int \<Rightarrow> char" where
  "digit_char d = char_of (48 + d)"

definition is_digit :: "char \<Rightarrow> bool" where
  "is_digit c \<longleftrightarrow> 48 \<le> (of_char c :: int) \<and> (of_char c :: int) \<le> 57"

definition digit_val :: "char \<Rightarrow> int" where
  "digit_val c = of_char c - 48"

text \<open>The decimal digits of a number that is not negative.\<close>

function udigits :: "int \<Rightarrow> string" where
  "udigits n = (if n < 10 then [digit_char n] else udigits (n div 10) @ [digit_char (n mod 10)])"
  by pat_completeness auto
termination
  by (relation "measure nat") auto

declare udigits.simps [simp del]

definition Itoa :: "int \<Rightarrow> string" where
  "Itoa n = (if n < 0 then CHR ''-'' # udigits (- n) else udigits n)"

fun digits_val :: "int \<Rightarrow> string \<Rightarrow> int" where
  "digits_val acc [] = acc"
| "digits_val acc (c # cs) = digits_val (10 * acc + digit_val c) cs"

text \<open>
  \<open>strconv.Atoi\<close>: the value and whether it read without an error. On a syntax error the value
  is 0, on a number that does not fit it is the nearest limit. Digits are scanned from the left,
  and the scan stops with \<open>2 ^ 64\<close> as soon as the number outgrows 64 bits.
\<close>

fun uint_scan :: "int \<Rightarrow> string \<Rightarrow> int option" where
  "uint_scan acc [] = Some acc"
| "uint_scan acc (c # cs) =
     (if \<not> is_digit c then None
      else (let v = 10 * acc + digit_val c in if 2 ^ 64 \<le> v then Some (2 ^ 64) else uint_scan v cs))"

definition Atoi_clip :: "string \<Rightarrow> int \<times> bool" where
  "Atoi_clip s =
     (case s of
        [] \<Rightarrow> (0, False)
      | c # cs \<Rightarrow>
          (let neg = (c = CHR ''-'');
               ds = (if c = CHR ''-'' \<or> c = CHR ''+'' then cs else s)
           in if ds = [] then (0, False)
              else (case uint_scan 0 ds of
                      None \<Rightarrow> (0, False)
                    | Some n \<Rightarrow>
                        if neg then (if 2 ^ 63 < n then (- (2 ^ 63), False) else (- n, True))
                        else (if 2 ^ 63 \<le> n then (2 ^ 63 - 1, False) else (n, True)))))"

definition Atoi :: "string \<Rightarrow> int option" where
  "Atoi s = (case Atoi_clip s of (n, ok) \<Rightarrow> if ok then Some n else None)"

lemma of_char_char_of_int: "0 \<le> n \<Longrightarrow> n < 256 \<Longrightarrow> (of_char (char_of n) :: int) = n"
  by (simp add: of_char_of)

lemma is_digit_digit_char [simp]: "0 \<le> d \<Longrightarrow> d < 10 \<Longrightarrow> is_digit (digit_char d)"
  by (simp add: is_digit_def digit_char_def of_char_char_of_int)

lemma digit_val_digit_char [simp]: "0 \<le> d \<Longrightarrow> d < 10 \<Longrightarrow> digit_val (digit_char d) = d"
  by (simp add: digit_val_def digit_char_def of_char_char_of_int)

lemma of_char_int_nat: "(of_char c :: int) = int (of_char c)"
  by (simp add: of_nat_of_char)

lemma digit_plain: "is_digit c \<Longrightarrow> plain c"
  unfolding is_digit_def plain_def of_char_int_nat by linarith

lemma digits_val_append: "digits_val a (s @ t) = digits_val (digits_val a s) t"
  by (induction s arbitrary: a) auto

lemma udigits_all: "0 \<le> n \<Longrightarrow> list_all is_digit (udigits n)"
proof (induction n rule: udigits.induct)
  case (1 n)
  then show ?case
    by (cases "n < 10") (simp_all add: udigits.simps [of n])
qed

lemma udigits_nonempty [simp]: "udigits n \<noteq> []"
  by (subst udigits.simps) simp

lemma digits_val_udigits: "0 \<le> n \<Longrightarrow> digits_val 0 (udigits n) = n"
proof (induction n rule: udigits.induct)
  case (1 n)
  then show ?case
    by (cases "n < 10") (simp_all add: udigits.simps [of n] digits_val_append)
qed

lemma digit_val_range: "is_digit c \<Longrightarrow> 0 \<le> digit_val c \<and> digit_val c \<le> 9"
  by (simp add: is_digit_def digit_val_def)

lemma digits_val_ge: "list_all is_digit ds \<Longrightarrow> 0 \<le> a \<Longrightarrow> a \<le> digits_val a ds"
proof (induction ds arbitrary: a)
  case Nil
  then show ?case by simp
next
  case (Cons d ds)
  then have "0 \<le> digit_val d" by (simp add: digit_val_range)
  moreover from this Cons have "10 * a + digit_val d \<le> digits_val (10 * a + digit_val d) ds"
    by simp
  ultimately show ?case using Cons.prems by simp
qed

lemma uint_scan_fits:
  "list_all is_digit ds \<Longrightarrow> 0 \<le> a \<Longrightarrow> digits_val a ds < 2 ^ 64 \<Longrightarrow> uint_scan a ds = Some (digits_val a ds)"
proof (induction ds arbitrary: a)
  case Nil
  then show ?case by simp
next
  case (Cons d ds)
  let ?v = "10 * a + digit_val d"
  from Cons.prems have v: "0 \<le> ?v" by (simp add: digit_val_range)
  with Cons.prems digits_val_ge [of ds ?v] have "?v < 2 ^ 64" by simp
  with Cons v show ?case by (simp add: Let_def)
qed

lemma udigits_hd_digit: "0 \<le> n \<Longrightarrow> is_digit (hd (udigits n))"
  using udigits_all [of n] by (cases "udigits n") auto

lemma digit_not_sign: "is_digit c \<Longrightarrow> c \<noteq> CHR ''-'' \<and> c \<noteq> CHR ''+''"
  by (auto simp: is_digit_def)

lemma uint_scan_udigits: "0 \<le> n \<Longrightarrow> n < 2 ^ 64 \<Longrightarrow> uint_scan 0 (udigits n) = Some n"
  using uint_scan_fits [of "udigits n" 0] by (simp add: udigits_all digits_val_udigits)

text \<open>What the code prints with \<open>%d\<close> or \<open>Itoa\<close> it reads back unchanged.\<close>

lemma Atoi_Itoa_clip: "int64 n \<Longrightarrow> Atoi_clip (Itoa n) = (n, True)"
proof (cases "n < 0")
  case True
  then show "int64 n \<Longrightarrow> ?thesis"
    using uint_scan_udigits [of "- n"]
    by (simp add: Itoa_def Atoi_clip_def Let_def int64_def)
next
  case False
  then obtain c cs where cs: "udigits n = c # cs"
    by (cases "udigits n") auto
  with False udigits_hd_digit [of n] have "is_digit c" by simp
  then have "c \<noteq> CHR ''-''" "c \<noteq> CHR ''+''" by (simp_all add: digit_not_sign)
  with False cs show "int64 n \<Longrightarrow> ?thesis"
    using uint_scan_udigits [of n]
    by (simp add: Itoa_def Atoi_clip_def Let_def int64_def)
qed

lemma Atoi_Itoa: "int64 n \<Longrightarrow> Atoi (Itoa n) = Some n"
  by (simp add: Atoi_def Atoi_Itoa_clip)

lemma Itoa_nonempty [simp]: "Itoa n \<noteq> []"
  by (simp add: Itoa_def)

lemma Itoa_plain: "c \<in> set (Itoa n) \<Longrightarrow> plain c"
  using udigits_all [of n] udigits_all [of "- n"]
  by (auto simp: Itoa_def list_all_iff digit_plain split: if_splits) (simp_all add: plain_def)

lemma Itoa_hd_plain: "plain (hd (Itoa n))"
  by (rule Itoa_plain) (rule hd_in_set, simp)

lemma Itoa_last_plain: "plain (last (Itoa n))"
  by (rule Itoa_plain) (rule last_in_set, simp)

lemma Itoa_inject: "int64 m \<Longrightarrow> int64 n \<Longrightarrow> Itoa m = Itoa n \<Longrightarrow> m = n"
  by (metis Atoi_Itoa option.inject)

section \<open>UTF-8\<close>

definition byte :: "char \<Rightarrow> int" where "byte c = of_char c"

definition cont :: "char \<Rightarrow> bool" where
  "cont c \<longleftrightarrow> 0x80 \<le> byte c \<and> byte c \<le> 0xBF"

text \<open>The length of the well-formed UTF-8 character at the head of a text, 0 if there is none.\<close>

definition utf8_len :: "string \<Rightarrow> nat" where
  "utf8_len s =
     (case s of
        [] \<Rightarrow> 0
      | a # t \<Rightarrow>
          if byte a < 0x80 then 1
          else if 0xC2 \<le> byte a \<and> byte a \<le> 0xDF then
            (case t of b # _ \<Rightarrow> if cont b then 2 else 0 | [] \<Rightarrow> 0)
          else if 0xE0 \<le> byte a \<and> byte a \<le> 0xEF then
            (case t of b # c # _ \<Rightarrow>
               if cont b \<and> cont c \<and> (byte a = 0xE0 \<longrightarrow> 0xA0 \<le> byte b) \<and> (byte a = 0xED \<longrightarrow> byte b \<le> 0x9F)
               then 3 else 0
             | _ \<Rightarrow> 0)
          else if 0xF0 \<le> byte a \<and> byte a \<le> 0xF4 then
            (case t of b # c # d # _ \<Rightarrow>
               if cont b \<and> cont c \<and> cont d \<and> (byte a = 0xF0 \<longrightarrow> 0x90 \<le> byte b) \<and> (byte a = 0xF4 \<longrightarrow> byte b \<le> 0x8F)
               then 4 else 0
             | _ \<Rightarrow> 0)
          else 0)"

section \<open>Quoting and durations\<close>

definition hex_digit :: "nat \<Rightarrow> char" where
  "hex_digit d = ''0123456789abcdef'' ! d"

text \<open>A byte as a backslash, an x and its two hexadecimal digits.\<close>

definition quote_byte :: "char \<Rightarrow> string" where
  "quote_byte c =
     (let x = of_char c :: nat in CHR 0x5C # ''x'' @ [hex_digit (x div 16), hex_digit (x mod 16)])"

definition quote_char :: "char \<Rightarrow> string" where
  "quote_char c =
     (let x = of_char c :: nat in
      if c = CHR 0x22 then [CHR 0x5C, CHR 0x22]
      else if c = CHR 0x5C then [CHR 0x5C, CHR 0x5C]
      else if x = 7 then CHR 0x5C # ''a''
      else if x = 8 then CHR 0x5C # ''b''
      else if x = 9 then CHR 0x5C # ''t''
      else if x = 10 then CHR 0x5C # ''n''
      else if x = 11 then CHR 0x5C # ''v''
      else if x = 12 then CHR 0x5C # ''f''
      else if x = 13 then CHR 0x5C # ''r''
      else if x < 32 \<or> x = 127 then quote_byte c
      else [c])"

text \<open>The number is how many bytes of a multi-byte character are still to be copied.\<close>

fun quote_runes :: "nat \<Rightarrow> string \<Rightarrow> string" where
  "quote_runes k [] = []"
| "quote_runes (Suc k) (c # cs) = c # quote_runes k cs"
| "quote_runes 0 (c # cs) =
     (let n = utf8_len (c # cs)
      in if n = 0 then quote_byte c @ quote_runes 0 cs
         else if n = 1 then quote_char c @ quote_runes 0 cs
         else c # quote_runes (n - 1) cs)"

definition Quote :: "string \<Rightarrow> string" where
  "Quote s = [CHR 0x22] @ quote_runes 0 s @ [CHR 0x22]"

text \<open>The fraction of \<open>v / 10 ^ p\<close> with its trailing zeros dropped.\<close>

definition frac_digits :: "int \<Rightarrow> nat \<Rightarrow> string" where
  "frac_digits v p =
     (let ds = udigits (v mod 10 ^ p);
          padded = replicate (p - length ds) (CHR ''0'') @ ds;
          kept = rev (dropWhile (\<lambda>c. c = CHR ''0'') (rev padded))
      in if kept = [] then [] else CHR ''.'' # kept)"

definition Duration_String :: "duration \<Rightarrow> string" where
  "Duration_String d =
     (let u = \<bar>d\<bar>;
          body =
            (if u = 0 then ''0s''
             else if u < 1000 then udigits u @ ''ns''
             else if u < 1000000 then udigits (u div 1000) @ frac_digits u 3 @ [CHR 0xC2, CHR 0xB5] @ ''s''
             else if u < 1000000000 then udigits (u div 1000000) @ frac_digits u 6 @ ''ms''
             else (let s = u div 1000000000; m = s div 60; h = m div 60
                   in (if h > 0 then udigits h @ ''h'' else []) @
                      (if m > 0 then udigits (m mod 60) @ ''m'' else []) @
                      udigits (s mod 60) @ frac_digits u 9 @ ''s''))
      in if d < 0 then CHR ''-'' # body else body)"

section \<open>The source's non-ASCII literals\<close>

definition em_dash :: string where "em_dash = [CHR 0xE2, CHR 0x80, CHR 0x94]"
definition arrow_right :: string where "arrow_right = [CHR 0xE2, CHR 0x86, CHR 0x92]"
definition check_mark :: string where "check_mark = [CHR 0xE2, CHR 0x9C, CHR 0x93]"
definition cross_mark :: string where "cross_mark = [CHR 0xE2, CHR 0x9C, CHR 0x97]"
definition warning_sign :: string where "warning_sign = [CHR 0xE2, CHR 0x9A, CHR 0xA0]"
definition box_line :: string where "box_line = [CHR 0xE2, CHR 0x94, CHR 0x80]"

end
