(* ===== verification/OS.thy ===== *)
theory OS
  imports GoStrings
begin

text \<open>
  The boundary to the operating system and to the libraries the program calls
  (\<open>internal/util/exec.go\<close> and the values that cross the boundary).

  The machine the agent runs on is a parameter: a state \<open>'w\<close> the model knows nothing about and
  a record \<open>'w os\<close> with one function per kind of call. Nothing is assumed of these functions:
  the same call may answer differently each time, and any call may fail. A property that needs
  documented behaviour of FreeBSD states it as a hypothesis about the record.

  An \<open>'w io\<close> is that machine and the list of everything the agent has done to it so far, in
  order: every command it ran, every message it sent, every file it wrote.
\<close>

section \<open>Errors\<close>

text \<open>
  Go's error chains. \<open>DialError\<close> is the tag of \<open>internal/peer/probe.go\<close>; \<open>WrapErr p e q\<close> is
  an error that wraps \<open>e\<close> and prints as \<open>p\<close>, the text of \<open>e\<close>, \<open>q\<close> (\<open>fmt.Errorf\<close> with
  \<open>%w\<close>, \<open>*url.Error\<close>, \<open>*net.OpError\<close>); \<open>OpaqueErr\<close> is any other error, known by its text.
\<close>

datatype goerr =
    ECONNREFUSED
  | OpaqueErr string
  | DialError goerr
  | WrapErr string goerr string

fun Error :: "goerr \<Rightarrow> string" where
  "Error ECONNREFUSED = ''connection refused''"
| "Error (OpaqueErr s) = s"
| "Error (DialError e) = Error e"
| "Error (WrapErr p e q) = p @ Error e @ q"

text \<open>\<open>errors.Is(err, syscall.ECONNREFUSED)\<close>, and \<open>errors.As(err, &de)\<close> giving \<open>de.err\<close>.\<close>

fun Is_ECONNREFUSED :: "goerr \<Rightarrow> bool" where
  "Is_ECONNREFUSED ECONNREFUSED = True"
| "Is_ECONNREFUSED (OpaqueErr s) = False"
| "Is_ECONNREFUSED (DialError e) = Is_ECONNREFUSED e"
| "Is_ECONNREFUSED (WrapErr p e q) = Is_ECONNREFUSED e"

fun As_dialError :: "goerr \<Rightarrow> goerr option" where
  "As_dialError ECONNREFUSED = None"
| "As_dialError (OpaqueErr s) = None"
| "As_dialError (DialError e) = Some e"
| "As_dialError (WrapErr p e q) = As_dialError e"

section \<open>The machine\<close>

record cmd_result =
  cr_stdout :: string
  cr_stderr :: string
  cr_err :: "goerr option"
  cr_ctx :: "goerr option"

record http_req =
  rq_url :: string
  rq_token :: string
  rq_skip_verify :: bool
  rq_dial_timeout :: duration
  rq_header_timeout :: duration

record http_resp =
  rs_status :: int
  rs_body :: string

datatype http_outcome = HttpDialFailed goerr | HttpFailed goerr | HttpAnswered http_resp

record dns_reply =
  dr_rcode :: int

text \<open>
  One function per call: the clock, a child process, a TCP or UDP dial, the operations on a UDP
  socket, the DNS client and the message packer of \<open>github.com/miekg/dns\<close>, the HTTP client,
  files, the host name, \<open>smtp.SendMail\<close>, an HTTP POST, random bytes and the order in which a loop
  visits a map. The last group are pure: parsing a request's URL, the time
  formatter (it needs the zone of the machine), and tables of the DNS library.
\<close>

record 'w os =
  os_now :: "'w \<Rightarrow> instant \<times> 'w"
  os_run :: "string \<Rightarrow> string list \<Rightarrow> duration \<Rightarrow> 'w \<Rightarrow> cmd_result \<times> 'w"
  os_dial :: "string \<Rightarrow> string \<Rightarrow> duration \<Rightarrow> 'w \<Rightarrow> goerr option \<times> 'w"
  os_set_deadline :: "instant \<Rightarrow> 'w \<Rightarrow> goerr option \<times> 'w"
  os_udp_write :: "string \<Rightarrow> 'w \<Rightarrow> goerr option \<times> 'w"
  os_udp_read :: "nat \<Rightarrow> 'w \<Rightarrow> (goerr + nat) \<times> 'w"
  os_dns_exchange :: "string \<Rightarrow> int \<Rightarrow> string \<Rightarrow> duration \<Rightarrow> 'w \<Rightarrow> (dns_reply option \<times> duration \<times> goerr option) \<times> 'w"
  os_http_do :: "http_req \<Rightarrow> 'w \<Rightarrow> http_outcome \<times> 'w"
  os_read_file :: "string \<Rightarrow> 'w \<Rightarrow> (goerr + string) \<times> 'w"
  os_write_file :: "string \<Rightarrow> string \<Rightarrow> 'w \<Rightarrow> goerr option \<times> 'w"
  os_rename :: "string \<Rightarrow> string \<Rightarrow> 'w \<Rightarrow> goerr option \<times> 'w"
  os_hostname :: "'w \<Rightarrow> (string \<times> goerr option) \<times> 'w"
  os_smtp :: "string \<Rightarrow> string \<times> string \<times> string \<Rightarrow> string \<Rightarrow> string list \<Rightarrow> string \<Rightarrow> 'w \<Rightarrow> goerr option \<times> 'w"
  os_post :: "string \<Rightarrow> string \<Rightarrow> duration \<Rightarrow> 'w \<Rightarrow> (goerr + int) \<times> 'w"
  os_random :: "nat \<Rightarrow> 'w \<Rightarrow> string \<times> 'w"
  os_range :: "(string \<times> string) list \<Rightarrow> 'w \<Rightarrow> (string \<times> string) list \<times> 'w"
  os_new_request :: "string \<Rightarrow> goerr option"
  os_format_time :: "string \<Rightarrow> instant \<Rightarrow> string"
  os_dns_fqdn :: "string \<Rightarrow> string"
  os_dns_pack :: "string \<Rightarrow> int \<Rightarrow> string option"
  os_dns_string_to_type :: "string \<Rightarrow> int option"
  os_dns_rcode_to_string :: "int \<Rightarrow> string"

datatype event =
    EvExec string "string list"
  | EvSend string string string
  | EvWriteFile string string
  | EvRename string string

record 'w io =
  io_world :: 'w
  io_trace :: "event list"

definition emit :: "event \<Rightarrow> ('w io, unit) state" where
  "emit e = State (\<lambda>s. ((), s\<lparr>io_trace := io_trace s @ [e]\<rparr>))"

definition call :: "('w \<Rightarrow> 'a \<times> 'w) \<Rightarrow> ('w io, 'a) state" where
  "call f = State (\<lambda>s. (fst (f (io_world s)), s\<lparr>io_world := snd (f (io_world s))\<rparr>))"

lemma wp_emit [wp_simps]: "wp (emit e) Q s = Q () (s\<lparr>io_trace := io_trace s @ [e]\<rparr>)"
  by (simp add: wp_def emit_def)

lemma wp_call [wp_simps]:
  "wp (call f) Q s = Q (fst (f (io_world s))) (s\<lparr>io_world := snd (f (io_world s))\<rparr>)"
  by (simp add: wp_def call_def)

lemma run_emit [simp]: "run_state (emit e) s = ((), s\<lparr>io_trace := io_trace s @ [e]\<rparr>)"
  by (simp add: emit_def)

lemma run_call [simp]:
  "run_state (call f) s = (fst (f (io_world s)), s\<lparr>io_world := snd (f (io_world s))\<rparr>)"
  by (simp add: call_def)

section \<open>Running commands\<close>

record ExecResult =
  Stdout :: string
  Stderr :: string
  Err :: "goerr option"

definition ExecTimeout :: "'w os \<Rightarrow> duration \<Rightarrow> string \<Rightarrow> string list \<Rightarrow> ('w io, ExecResult) state" where
  "ExecTimeout os timeout name args = do {
     emit (EvExec name args);
     r \<leftarrow> call (os_run os name args timeout);
     let err = (case cr_ctx r of
                  None \<Rightarrow> cr_err r
                | Some ce \<Rightarrow> Some (WrapErr (''command '' @ Quote name @ '' timed out after '' @
                                          Duration_String timeout @ '': '') ce []));
     State_Monad.return \<lparr>Stdout = cr_stdout r, Stderr = cr_stderr r, Err = err\<rparr>
   }"

definition Exec :: "'w os \<Rightarrow> string \<Rightarrow> string list \<Rightarrow> ('w io, ExecResult) state" where
  "Exec os name args = ExecTimeout os (10 * second) name args"

definition isIPv6 :: "string \<Rightarrow> bool" where
  "isIPv6 ip \<longleftrightarrow> CHR '':'' \<in> set ip"

section \<open>What changes the machine\<close>

text \<open>
  The commands that only look (\<open>ifconfig <if>\<close>, \<open>sysctl -n\<close>, \<open>pgrep\<close>, \<open>ping\<close>, \<open>grep\<close>) against
  those that act: \<open>ifconfig <if> up\<close> and \<open>down\<close>, and \<open>sysctl <name>=<value>\<close>. A message sent and a
  file written are actions too, but no commands.
\<close>

fun is_command :: "event \<Rightarrow> bool" where
  "is_command (EvExec name args) \<longleftrightarrow>
     name = ''ifconfig'' \<and> length args = 2 \<or> name = ''sysctl'' \<and> length args = 1"
| "is_command (EvSend n s b) \<longleftrightarrow> False"
| "is_command (EvWriteFile p d) \<longleftrightarrow> False"
| "is_command (EvRename p q) \<longleftrightarrow> False"

fun is_action :: "event \<Rightarrow> bool" where
  "is_action (EvExec name args) \<longleftrightarrow> is_command (EvExec name args)"
| "is_action (EvSend n s b) \<longleftrightarrow> True"
| "is_action (EvWriteFile p d) \<longleftrightarrow> True"
| "is_action (EvRename p q) \<longleftrightarrow> True"

lemma command_is_action: "is_command e \<Longrightarrow> is_action e"
  by (cases e) simp_all

definition actions :: "'w io \<Rightarrow> event list" where
  "actions s = filter is_action (io_trace s)"

lemma actions_world [simp]: "actions (s\<lparr>io_world := w\<rparr>) = actions s"
  by (simp add: actions_def)

lemma actions_trace [simp]:
  "actions (s\<lparr>io_trace := io_trace s @ [e]\<rparr>) = actions s @ (if is_action e then [e] else [])"
  by (simp add: actions_def)

text \<open>
  What a computation over the machine can do is proved once for every relation that the calls of
  the machine keep. \<open>reading\<close> leaves the commands out and asks that announcing a command that only
  looks keeps the relation, \<open>reporting\<close> adds messages and files, and \<open>acting\<close> the commands. Each
  component extends the three contexts with the facts about its own operations.
\<close>

locale reading = effect R for R :: "'w io \<Rightarrow> 'w io \<Rightarrow> bool" +
  fixes os :: "'w os"
  assumes call_now: "keeps R (call (os_now os))"
    and call_run: "\<not> is_command (EvExec prog args) \<Longrightarrow> keeps R (call (os_run os prog args tmo))"
    and call_dial: "keeps R (call (os_dial os net addr tmo))"
    and call_set_deadline: "keeps R (call (os_set_deadline os inst))"
    and call_udp_write: "keeps R (call (os_udp_write os data))"
    and call_udp_read: "keeps R (call (os_udp_read os count))"
    and call_dns_exchange: "keeps R (call (os_dns_exchange os name qtype addr tmo))"
    and call_http_do: "keeps R (call (os_http_do os rq))"
    and call_read_file: "keeps R (call (os_read_file os path))"
    and call_write_file: "keeps R (call (os_write_file os path data))"
    and call_rename: "keeps R (call (os_rename os path new_path))"
    and call_hostname: "keeps R (call (os_hostname os))"
    and call_smtp: "keeps R (call (os_smtp os addr auth sender to_list msg))"
    and call_post: "keeps R (call (os_post os url data tmo))"
    and call_random: "keeps R (call (os_random os count))"
    and call_range: "keeps R (call (os_range os kvs))"
    and emit_look: "\<not> is_action e \<Longrightarrow> keeps R (emit e)"
begin

lemmas machine_calls [effect_intros] = call_now call_run call_dial call_set_deadline
  call_udp_write call_udp_read call_dns_exchange call_http_do call_read_file call_write_file
  call_rename call_hostname call_smtp call_post call_random call_range

lemmas control_flow [effect_intros] = keeps_all

lemma keeps_ExecTimeout [effect_intros]:
  "\<not> is_command (EvExec name args) \<Longrightarrow> keeps R (ExecTimeout os t name args)"
  unfolding ExecTimeout_def by (intro effect_intros emit_look; simp)

lemma keeps_Exec [effect_intros]: "\<not> is_command (EvExec name args) \<Longrightarrow> keeps R (Exec os name args)"
  unfolding Exec_def by (intro effect_intros)

end

locale reporting = reading R os for R :: "'w io \<Rightarrow> 'w io \<Rightarrow> bool" and os :: "'w os" +
  assumes emit_send: "keeps R (emit (EvSend n s b))"
    and emit_write: "keeps R (emit (EvWriteFile p d))"
    and emit_rename: "keeps R (emit (EvRename p q))"
begin

lemmas report_events [effect_intros] = emit_send emit_write emit_rename

end

locale acting = reporting R os for R :: "'w io \<Rightarrow> 'w io \<Rightarrow> bool" and os :: "'w os" +
  assumes call_any_run: "keeps R (call (os_run os prog args tmo))"
    and emit_exec: "keeps R (emit (EvExec prog args))"
begin

lemma keeps_ExecTimeout_any [effect_intros]: "keeps R (ExecTimeout os t name args)"
  unfolding ExecTimeout_def by (intro effect_intros call_any_run emit_exec)

lemma keeps_Exec_any [effect_intros]: "keeps R (Exec os name args)"
  unfolding Exec_def by (intro effect_intros)

end

text \<open>A computation that only looks.\<close>

definition same_actions :: "'w io \<Rightarrow> 'w io \<Rightarrow> bool" where
  "same_actions s s' \<longleftrightarrow> actions s' = actions s"

interpretation quiet: reading same_actions os for os :: "'w os"
  by unfold_locales (simp_all add: same_actions_def keeps_def)

abbreviation quiet :: "('w io, 'a) state \<Rightarrow> bool" where
  "quiet \<equiv> keeps same_actions"

lemma quietD: "quiet m \<Longrightarrow> actions (snd (run_state m s)) = actions s"
  by (simp add: keeps_def same_actions_def)

lemma quiet_wp: "quiet m \<Longrightarrow> wp m (\<lambda>a s'. actions s' = actions s) s"
  by (simp add: quietD wp_fst_snd)

text \<open>The commands alone: what is sent or saved leaves them as they are.\<close>

definition commands :: "'w io \<Rightarrow> event list" where
  "commands s = filter is_command (io_trace s)"

lemma commands_actions: "commands s = filter is_command (actions s)"
  by (simp add: commands_def actions_def command_is_action conj_absorb cong: conj_cong)
    (metis (mono_tags, lifting) command_is_action filter_cong)

lemma commands_world [simp]: "commands (s\<lparr>io_world := w\<rparr>) = commands s"
  by (simp add: commands_def)

lemma commands_trace [simp]:
  "commands (s\<lparr>io_trace := io_trace s @ [e]\<rparr>) = commands s @ (if is_command e then [e] else [])"
  by (simp add: commands_def)

definition same_commands :: "'w io \<Rightarrow> 'w io \<Rightarrow> bool" where
  "same_commands s s' \<longleftrightarrow> commands s' = commands s"

interpretation calm: reporting same_commands os for os :: "'w os"
  by unfold_locales (use command_is_action in \<open>auto simp: same_commands_def keeps_def\<close>)

lemma calmD: "keeps same_commands m \<Longrightarrow> commands (snd (run_state m s)) = commands s"
  by (simp add: keeps_def same_commands_def)

text \<open>Whatever the agent does, it only adds to the record of what it did.\<close>

definition trace_grows :: "'w io \<Rightarrow> 'w io \<Rightarrow> bool" where
  "trace_grows s s' \<longleftrightarrow> (\<exists>es. io_trace s' = io_trace s @ es)"

interpretation grows: acting trace_grows os for os :: "'w os"
  by unfold_locales (auto simp: trace_grows_def keeps_def)

text \<open>
  The clock: \<open>clk\<close> reads it off the machine's state. A reading is never earlier than the clock
  before it, and no call turns the clock back (the readings of \<open>time.Now\<close> are monotonic).
\<close>

definition later :: "('w \<Rightarrow> instant) \<Rightarrow> 'w io \<Rightarrow> 'w io \<Rightarrow> bool" where
  "later clk s s' \<longleftrightarrow> clk (io_world s) \<le> clk (io_world s')"

definition clock_ok :: "'w os \<Rightarrow> ('w \<Rightarrow> instant) \<Rightarrow> bool" where
  "clock_ok os clk \<longleftrightarrow>
     (\<forall>w. clk w \<le> fst (os_now os w) \<and> fst (os_now os w) \<le> clk (snd (os_now os w))) \<and>
     (\<forall>n a t w. clk w \<le> clk (snd (os_run os n a t w))) \<and>
     (\<forall>k a t w. clk w \<le> clk (snd (os_dial os k a t w))) \<and>
     (\<forall>i w. clk w \<le> clk (snd (os_set_deadline os i w))) \<and>
     (\<forall>d w. clk w \<le> clk (snd (os_udp_write os d w))) \<and>
     (\<forall>k w. clk w \<le> clk (snd (os_udp_read os k w))) \<and>
     (\<forall>q y a t w. clk w \<le> clk (snd (os_dns_exchange os q y a t w))) \<and>
     (\<forall>rq w. clk w \<le> clk (snd (os_http_do os rq w))) \<and>
     (\<forall>p w. clk w \<le> clk (snd (os_read_file os p w))) \<and>
     (\<forall>p d w. clk w \<le> clk (snd (os_write_file os p d w))) \<and>
     (\<forall>p q w. clk w \<le> clk (snd (os_rename os p q w))) \<and>
     (\<forall>w. clk w \<le> clk (snd (os_hostname os w))) \<and>
     (\<forall>a u f ts m w. clk w \<le> clk (snd (os_smtp os a u f ts m w))) \<and>
     (\<forall>a d t w. clk w \<le> clk (snd (os_post os a d t w))) \<and>
     (\<forall>k w. clk w \<le> clk (snd (os_random os k w))) \<and>
     (\<forall>kvs w. clk w \<le> clk (snd (os_range os kvs w)))"

lemma clock_now:
  assumes "clock_ok os clk"
  shows "clk w \<le> fst (os_now os w)" "fst (os_now os w) \<le> clk (snd (os_now os w))"
  using assms by (simp_all add: clock_ok_def)

lemma later_acting:
  assumes "clock_ok os clk"
  shows "acting (later clk) os"
proof -
  have "clk w \<le> clk (snd (os_now os w))" for w
    using clock_now [OF assms, of w] by linarith
  with assms show ?thesis
    unfolding clock_ok_def
    by unfold_locales (auto simp: later_def keeps_def)
qed

lemma later_reporting: "clock_ok os clk \<Longrightarrow> reporting (later clk) os"
  by (rule acting.axioms(1)) (rule later_acting)

lemma later_reading: "clock_ok os clk \<Longrightarrow> reading (later clk) os"
  by (rule reporting.axioms(1)) (rule later_reporting)

lemma ExecTimeout_actions:
  "actions (snd (run_state (ExecTimeout os t name args) s)) =
     actions s @ (if is_action (EvExec name args) then [EvExec name args] else [])"
  by (simp add: ExecTimeout_def Let_def case_prod_beta)

lemma Exec_actions:
  "actions (snd (run_state (Exec os name args) s)) =
     actions s @ (if is_action (EvExec name args) then [EvExec name args] else [])"
  by (simp add: Exec_def ExecTimeout_actions)

lemma Error_wrapped_dial [simp]: "As_dialError (WrapErr p (DialError e) q) = Some e"
  by simp

end
