(* ===== verification/Regexp.thy ===== *)
theory Regexp
  imports GoStrings
begin

text \<open>
  The part of Go's package \<open>regexp\<close> that the program uses: literals, character classes, greedy
  \<open>+\<close> and \<open>*\<close> of a class, alternation and capturing groups, with the leftmost-first rule
  (of the matches at the leftmost position, the one a backtracking matcher finds first).

  \<open>matches r s\<close> lists the ways \<open>r\<close> matches a prefix of \<open>s\<close>, in the matcher's order of preference;
  each is the captured texts, the matched text and the rest. The classes of the program's
  patterns never split a multi-byte character, so matching bytes and matching runes agree.
  Every pattern of the program matches at least one byte, which is what \<open>FindAll\<close> relies on here.
\<close>

datatype regex =
    Cls "char \<Rightarrow> bool"
  | StarC "char \<Rightarrow> bool"
  | Eps
  | Seq regex regex
  | Alt regex regex
  | Cap regex

type_synonym re_match = "string list \<times> string \<times> string"

fun spans :: "(char \<Rightarrow> bool) \<Rightarrow> string \<Rightarrow> (string \<times> string) list" where
  "spans p [] = [([], [])]"
| "spans p (c # cs) =
     (if p c then map (\<lambda>(m, r). (c # m, r)) (spans p cs) else []) @ [([], c # cs)]"

fun matches :: "regex \<Rightarrow> string \<Rightarrow> re_match list" where
  "matches (Cls p) s = (case s of [] \<Rightarrow> [] | c # cs \<Rightarrow> if p c then [([], [c], cs)] else [])"
| "matches (StarC p) s = map (\<lambda>(m, r). ([], m, r)) (spans p s)"
| "matches Eps s = [([], [], s)]"
| "matches (Seq a b) s =
     concat (map (\<lambda>(c1, m1, r1). map (\<lambda>(c2, m2, r2). (c1 @ c2, m1 @ m2, r2)) (matches b r1)) (matches a s))"
| "matches (Alt a b) s = matches a s @ matches b s"
| "matches (Cap a) s = map (\<lambda>(c, m, r). (m # c, m, r)) (matches a s)"

definition PlusC :: "(char \<Rightarrow> bool) \<Rightarrow> regex" where
  "PlusC p = Seq (Cls p) (StarC p)"

fun Lit :: "string \<Rightarrow> regex" where
  "Lit [] = Eps"
| "Lit (c # cs) = Seq (Cls (\<lambda>x. x = c)) (Lit cs)"

fun SeqL :: "regex list \<Rightarrow> regex" where
  "SeqL [] = Eps"
| "SeqL (r # rs) = Seq r (SeqL rs)"

definition is_space :: "char \<Rightarrow> bool" where
  "is_space c \<longleftrightarrow> (of_char c :: nat) \<in> {9, 10, 12, 13, 32}"

definition is_nonspace :: "char \<Rightarrow> bool" where
  "is_nonspace c \<longleftrightarrow> \<not> is_space c"

definition is_dot :: "char \<Rightarrow> bool" where
  "is_dot c \<longleftrightarrow> c \<noteq> CHR ''\<newline>''"

text \<open>The leftmost match and the rest of the text behind it.\<close>

fun find_match :: "regex \<Rightarrow> string \<Rightarrow> re_match option" where
  "find_match r s =
     (case matches r s of
        x # _ \<Rightarrow> Some x
      | [] \<Rightarrow> (case s of [] \<Rightarrow> None | c # cs \<Rightarrow> find_match r cs))"

declare find_match.simps [simp del]

definition MatchString :: "regex \<Rightarrow> string \<Rightarrow> bool" where
  "MatchString r s \<longleftrightarrow> find_match r s \<noteq> None"

text \<open>The match and its groups, \<open>None\<close> for Go's nil slice.\<close>

definition FindStringSubmatch :: "regex \<Rightarrow> string \<Rightarrow> string list option" where
  "FindStringSubmatch r s = map_option (\<lambda>(c, m, _). m # c) (find_match r s)"

fun find_all :: "nat \<Rightarrow> regex \<Rightarrow> string \<Rightarrow> string list list" where
  "find_all 0 r s = []"
| "find_all (Suc n) r s =
     (case find_match r s of
        None \<Rightarrow> []
      | Some (c, m, rest) \<Rightarrow> (m # c) # (if length rest < length s then find_all n r rest else []))"

definition FindAllStringSubmatch :: "regex \<Rightarrow> string \<Rightarrow> string list list" where
  "FindAllStringSubmatch r s = find_all (Suc (length s)) r s"

section \<open>What a match is\<close>

lemma spans_split: "(m, r) \<in> set (spans p s) \<Longrightarrow> m @ r = s \<and> list_all p m"
  by (induction s arbitrary: m r) (auto split: if_splits)

lemma matches_text: "(c, m, r) \<in> set (matches re s) \<Longrightarrow> m @ r = s"
proof (induction re arbitrary: s c m r)
  case (Seq a b)
  then show ?case by fastforce
qed (auto split: list.splits if_splits dest: spans_split)

lemma find_match_text:
  "find_match re s = Some (c, m, r) \<Longrightarrow> \<exists>pre. s = pre @ m @ r \<and> (c, m, r) \<in> set (matches re (m @ r))"
proof (induction re s rule: find_match.induct)
  case (1 re s)
  show ?case
  proof (cases "matches re s")
    case (Cons x xs)
    with "1.prems" have x: "x = (c, m, r)" by (simp add: find_match.simps [of re s])
    with Cons have mem: "(c, m, r) \<in> set (matches re s)" by simp
    then have "m @ r = s" by (rule matches_text)
    with mem have "s = [] @ m @ r \<and> (c, m, r) \<in> set (matches re (m @ r))" by simp
    then show ?thesis by blast
  next
    case Nil
    with "1.prems" obtain a cs where s: "s = a # cs" and "find_match re cs = Some (c, m, r)"
      by (auto simp: find_match.simps [of re s] split: list.splits)
    with "1.IH" [OF Nil s] obtain pre where
      "cs = pre @ m @ r \<and> (c, m, r) \<in> set (matches re (m @ r))" by blast
    with s have "s = (a # pre) @ m @ r \<and> (c, m, r) \<in> set (matches re (m @ r))" by simp
    then show ?thesis by blast
  qed
qed

lemma matches_Lit: "matches (Lit t) s = (if HasPrefix s t then [([], t, drop (length t) s)] else [])"
proof (induction t arbitrary: s)
  case Nil
  then show ?case by (simp add: HasPrefix_def)
next
  case (Cons c t)
  then show ?case
    by (cases s) (auto simp: HasPrefix_def)
qed

lemma find_match_hit: "matches r s = x # xs \<Longrightarrow> find_match r s = Some x"
  by (simp add: find_match.simps)

lemma find_match_skip: "matches r (c # cs) = [] \<Longrightarrow> find_match r (c # cs) = find_match r cs"
  by (simp add: find_match.simps)

lemma find_match_end: "matches r [] = [] \<Longrightarrow> find_match r [] = None"
  by (simp add: find_match.simps)

end
