(* ===== verification/Health.thy ===== *)
theory Health
  imports OS
begin

text \<open>
  \<open>internal/health\<close>: the four checks (process.go, tcp.go, udp.go, dns.go) and the weighted
  score over them (score.go). Each check is a computation over the machine; the score is the
  share of the enabled weight that passed, in percent, rounded towards zero.
\<close>

section \<open>Checks\<close>

definition defaultProcessName :: string where "defaultProcessName = ''dnsdist''"

definition CheckProcess :: "'w os \<Rightarrow> string \<Rightarrow> duration \<Rightarrow> ('w io, bool) state" where
  "CheckProcess os name timeout = do {
     let name = (if name = [] then defaultProcessName else name);
     result \<leftarrow> ExecTimeout os timeout ''pgrep'' [''-x'', name];
     State_Monad.return (Err result = None)
   }"

definition CheckProcesses :: "'w os \<Rightarrow> string list \<Rightarrow> duration \<Rightarrow> ('w io, bool) state" where
  "CheckProcesses os names timeout =
     (let names = (if names = [] then [defaultProcessName] else names)
      in allM (\<lambda>n. CheckProcess os n timeout) names)"

definition CheckTCP :: "'w os \<Rightarrow> string \<Rightarrow> duration \<Rightarrow> ('w io, bool) state" where
  "CheckTCP os address timeout = do {
     let address = (if address = [] then ''127.0.0.1:53'' else address);
     err \<leftarrow> call (os_dial os ''tcp'' address timeout);
     State_Monad.return (err = None)
   }"

definition dns_TypeA :: int where "dns_TypeA = 1"
definition dns_RcodeSuccess :: int where "dns_RcodeSuccess = 0"

definition CheckUDP :: "'w os \<Rightarrow> string \<Rightarrow> string \<Rightarrow> duration \<Rightarrow> ('w io, bool) state" where
  "CheckUDP os address domain timeout = do {
     let address = (if address = [] then ''127.0.0.1:53'' else address);
     let domain = (if domain = [] then ''google.com'' else domain);
     case os_dns_pack os (os_dns_fqdn os domain) dns_TypeA of
       None \<Rightarrow> State_Monad.return False
     | Some query \<Rightarrow> do {
         err \<leftarrow> call (os_dial os ''udp'' address timeout);
         if err \<noteq> None then State_Monad.return False
         else do {
           now \<leftarrow> call (os_now os);
           err \<leftarrow> call (os_set_deadline os (now + timeout));
           if err \<noteq> None then State_Monad.return False
           else do {
             err \<leftarrow> call (os_udp_write os query);
             if err \<noteq> None then State_Monad.return False
             else do {
               r \<leftarrow> call (os_udp_read os 512);
               State_Monad.return (case r of Inl e \<Rightarrow> False | Inr n \<Rightarrow> n \<ge> 12)
             }}}}}"

record DNSResult =
  Success :: bool
  RTT :: duration
  DNSError :: string
  Slow :: bool

text \<open>
  \<open>strings.ToUpper\<close> on what can become a record type: ASCII letters, and the two other runes whose
  upper case is an ASCII letter (U+0131 and U+017F). Other runes stay outside ASCII, whatever
  their case, and no record type has one.
\<close>

definition upper_char :: "char \<Rightarrow> char" where
  "upper_char c = (let x = of_char c :: int in if 97 \<le> x \<and> x \<le> 122 then char_of (x - 32) else c)"

fun ToUpper :: "string \<Rightarrow> string" where
  "ToUpper [] = []"
| "ToUpper [c] = [upper_char c]"
| "ToUpper (c # d # s) =
     (if c = CHR 0xC4 \<and> d = CHR 0xB1 then CHR ''I'' # ToUpper s
      else if c = CHR 0xC5 \<and> d = CHR 0xBF then CHR ''S'' # ToUpper s
      else upper_char c # ToUpper (d # s))"

definition CheckDNSQuery :: "'w os \<Rightarrow> string \<Rightarrow> string \<Rightarrow> string \<Rightarrow> duration \<Rightarrow> ('w io, DNSResult) state" where
  "CheckDNSQuery os domain recordType resolver timeout = do {
     let resolver = (if resolver = [] then ''127.0.0.1:53'' else resolver);
     let domain = (if domain = [] then ''google.com'' else domain);
     let recordType = (if recordType = [] then ''A'' else recordType);
     let qtype = (case os_dns_string_to_type os (ToUpper recordType) of Some q \<Rightarrow> q | None \<Rightarrow> dns_TypeA);
     start \<leftarrow> call (os_now os);
     (r, rtt, err) \<leftarrow> call (os_dns_exchange os (os_dns_fqdn os domain) qtype resolver timeout);
     now \<leftarrow> call (os_now os);
     let elapsed = time_Sub now start;
     State_Monad.return
       (case err of
          Some e \<Rightarrow> \<lparr>Success = False, RTT = elapsed, DNSError = ''exchange failed: '' @ Error e, Slow = False\<rparr>
        | None \<Rightarrow>
            (case r of
               None \<Rightarrow> \<lparr>Success = False, RTT = elapsed, DNSError = ''nil response'', Slow = False\<rparr>
             | Some reply \<Rightarrow>
                 if dr_rcode reply \<noteq> dns_RcodeSuccess then
                   \<lparr>Success = False, RTT = rtt,
                    DNSError = ''rcode: '' @ os_dns_rcode_to_string os (dr_rcode reply), Slow = False\<rparr>
                 else \<lparr>Success = True, RTT = rtt, DNSError = [], Slow = False\<rparr>))
   }"

section \<open>The score\<close>

record Weights =
  wProcess :: int
  wTCP :: int
  wUDP :: int
  wDNS :: int

definition DefaultWeights :: Weights where
  "DefaultWeights = \<lparr>wProcess = 25, wTCP = 25, wUDP = 25, wDNS = 25\<rparr>"

record HealthResult =
  hScore :: int
  RawScore :: int
  ProcessAlive :: bool
  TCPAlive :: bool
  UDPAlive :: bool
  DNSAlive :: bool
  DNSDetail :: DNSResult
  MaxScore :: int

definition zeroDNSResult :: DNSResult where
  "zeroDNSResult = \<lparr>Success = False, RTT = 0, DNSError = [], Slow = False\<rparr>"

definition zeroHealthResult :: HealthResult where
  "zeroHealthResult = \<lparr>hScore = 0, RawScore = 0, ProcessAlive = False, TCPAlive = False,
     UDPAlive = False, DNSAlive = False, DNSDetail = zeroDNSResult, MaxScore = 0\<rparr>"

record ProcessConfig =
  ProcessNames :: "string list"
  ProcessWeight :: int
  TCPWeight :: int
  UDPWeight :: int
  DNSWeight :: int
  DNSEnabled :: bool
  DNSDomain :: string
  DNSDomains :: "string list"
  DNSRecordType :: string
  DNSLatencyThreshold :: duration
  BindAddress :: string
  BindAddresses :: "string list"
  Timeout :: duration

text \<open>The state of the two nested loops over addresses and domains.\<close>

record dns_loop =
  allSuccess :: bool
  anySlow :: bool
  totalRTT :: duration
  queryCount :: int
  lastDetail :: DNSResult

definition dns_loop_init :: dns_loop where
  "dns_loop_init = \<lparr>allSuccess = True, anySlow = False, totalRTT = 0, queryCount = 0,
     lastDetail = zeroDNSResult\<rparr>"

fun dns_queries :: "'w os \<Rightarrow> string \<Rightarrow> duration \<Rightarrow> duration \<Rightarrow> (string \<times> string) list \<Rightarrow> dns_loop \<Rightarrow>
    ('w io, dns_loop) state" where
  "dns_queries os rtype threshold timeout [] l = State_Monad.return l"
| "dns_queries os rtype threshold timeout ((addr, dmn) # rest) l = do {
     res \<leftarrow> CheckDNSQuery os dmn rtype addr timeout;
     if \<not> Success res then State_Monad.return (l\<lparr>allSuccess := False, lastDetail := res\<rparr>)
     else dns_queries os rtype threshold timeout rest
       (l\<lparr>totalRTT := i64 (totalRTT l + RTT res), queryCount := i64 (queryCount l + 1),
          anySlow := (anySlow l \<or> threshold > 0 \<and> RTT res > threshold), lastDetail := res\<rparr>)
   }"

definition effective_weights :: "ProcessConfig \<Rightarrow> Weights" where
  "effective_weights cfg =
     \<lparr>wProcess = ProcessWeight cfg, wTCP = TCPWeight cfg, wUDP = UDPWeight cfg,
      wDNS = (if DNSEnabled cfg then DNSWeight cfg else 0)\<rparr>"

definition check_addresses :: "ProcessConfig \<Rightarrow> string list" where
  "check_addresses cfg =
     (if BindAddresses cfg = [] then
        (if BindAddress cfg \<noteq> [] then [BindAddress cfg] else [''127.0.0.1:53''])
      else BindAddresses cfg)"

definition query_domains :: "ProcessConfig \<Rightarrow> string list" where
  "query_domains cfg =
     (if DNSDomains cfg = [] then
        (if DNSDomain cfg \<noteq> [] then [DNSDomain cfg] else [''google.com''])
      else DNSDomains cfg)"

definition max_of_weights :: "Weights \<Rightarrow> int" where
  "max_of_weights w = i64 (i64 (i64 (wProcess w + wTCP w) + wUDP w) + wDNS w)"

definition normalized_score :: "int \<Rightarrow> int \<Rightarrow> int" where
  "normalized_score raw mx = (if mx > 0 then i64 (i64 (raw * 100) sdiv mx) else 0)"

definition dns_outcome :: "Weights \<Rightarrow> dns_loop \<Rightarrow> HealthResult \<Rightarrow> HealthResult" where
  "dns_outcome w l result =
     (let detail = (if queryCount l > 0
                    then (lastDetail l)\<lparr>RTT := i64 (totalRTT l sdiv queryCount l)\<rparr> else lastDetail l);
          detail = detail\<lparr>Success := allSuccess l, Slow := anySlow l\<rparr>;
          result = result\<lparr>DNSDetail := detail, DNSAlive := allSuccess l\<rparr>
      in if DNSAlive result then
           (if anySlow l then result\<lparr>RawScore := i64 (RawScore result + wDNS w sdiv 2)\<rparr>
            else result\<lparr>RawScore := i64 (RawScore result + wDNS w)\<rparr>)
         else result)"

definition run_dns_check :: "'w os \<Rightarrow> ProcessConfig \<Rightarrow> duration \<Rightarrow> Weights \<Rightarrow> HealthResult \<Rightarrow>
    ('w io, HealthResult) state" where
  "run_dns_check os cfg timeout w result = do {
     l \<leftarrow> dns_queries os (DNSRecordType cfg) (DNSLatencyThreshold cfg) timeout
            (List.product (check_addresses cfg) (query_domains cfg)) dns_loop_init;
     State_Monad.return (dns_outcome w l result)
   }"

definition check_timeout :: "ProcessConfig \<Rightarrow> duration" where
  "check_timeout cfg = (if Timeout cfg > 0 then Timeout cfg else 2 * second)"

definition award :: "bool \<Rightarrow> int \<Rightarrow> HealthResult \<Rightarrow> HealthResult" where
  "award passed weight result =
     (if passed then result\<lparr>RawScore := i64 (RawScore result + weight)\<rparr> else result)"

definition RunChecks :: "'w os \<Rightarrow> ProcessConfig \<Rightarrow> ('w io, HealthResult) state" where
  "RunChecks os cfg = do {
     let w = effective_weights cfg;
     let timeout = check_timeout cfg;
     let addresses = check_addresses cfg;
     let result = zeroHealthResult\<lparr>MaxScore := max_of_weights w\<rparr>;
     alive \<leftarrow> CheckProcesses os (ProcessNames cfg) timeout;
     let result = award alive (wProcess w) (result\<lparr>ProcessAlive := alive\<rparr>);
     allTCP \<leftarrow> allM (\<lambda>addr. CheckTCP os addr timeout) addresses;
     let result = award allTCP (wTCP w) (result\<lparr>TCPAlive := allTCP\<rparr>);
     let udpDomain = (if DNSDomain cfg = [] \<and> DNSDomains cfg \<noteq> [] then hd (DNSDomains cfg) else DNSDomain cfg);
     allUDP \<leftarrow> allM (\<lambda>addr. CheckUDP os addr udpDomain timeout) addresses;
     let result = award allUDP (wUDP w) (result\<lparr>UDPAlive := allUDP\<rparr>);
     result \<leftarrow> (if DNSEnabled cfg then run_dns_check os cfg timeout w result
               else State_Monad.return result);
     State_Monad.return (result\<lparr>hScore := normalized_score (RawScore result) (MaxScore result)\<rparr>)
   }"

section \<open>Scores\<close>

definition weights_ok :: "Weights \<Rightarrow> bool" where
  "weights_ok w \<longleftrightarrow> 0 \<le> wProcess w \<and> wProcess w \<le> 100 \<and> 0 \<le> wTCP w \<and> wTCP w \<le> 100 \<and>
     0 \<le> wUDP w \<and> wUDP w \<le> 100 \<and> 0 \<le> wDNS w \<and> wDNS w \<le> 100"

definition raw_of :: "Weights \<Rightarrow> HealthResult \<Rightarrow> int" where
  "raw_of w r = (if ProcessAlive r then wProcess w else 0) + (if TCPAlive r then wTCP w else 0) +
     (if UDPAlive r then wUDP w else 0) +
     (if DNSAlive r then (if Slow (DNSDetail r) then wDNS w div 2 else wDNS w) else 0)"

lemma max_of_weights_ok:
  "weights_ok w \<Longrightarrow> max_of_weights w = wProcess w + wTCP w + wUDP w + wDNS w"
  by (simp add: max_of_weights_def weights_ok_def i64_small)

lemma normalized_score_eq:
  "0 \<le> raw \<Longrightarrow> raw \<le> 400 \<Longrightarrow> 0 \<le> mx \<Longrightarrow> mx \<le> 400 \<Longrightarrow>
     normalized_score raw mx = (if mx > 0 then raw * 100 div mx else 0)"
proof -
  assume a: "0 \<le> raw" "raw \<le> 400" "0 \<le> mx" "mx \<le> 400"
  have "i64 (raw * 100) = raw * 100" using a by (simp add: i64_small)
  moreover have "(raw * 100) sdiv mx = raw * 100 div mx" if "mx > 0"
    using a that by (simp add: sdiv_pos)
  moreover have "raw * 100 div mx \<le> raw * 100" if "mx > 0"
    using a that zdiv_mono2 [of "raw * 100" 1 mx] by simp
  moreover have "0 \<le> raw * 100 div mx" if "mx > 0"
    using a that by (simp add: pos_imp_zdiv_nonneg_iff)
  ultimately show ?thesis
    using a by (auto simp: normalized_score_def i64_small)
qed

lemma normalized_score_range:
  "0 \<le> raw \<Longrightarrow> raw \<le> mx \<Longrightarrow> mx \<le> 400 \<Longrightarrow> 0 \<le> normalized_score raw mx \<and> normalized_score raw mx \<le> 100"
proof -
  assume a: "0 \<le> raw" "raw \<le> mx" "mx \<le> 400"
  show ?thesis
  proof (cases "mx > 0")
    case True
    have "raw * 100 div mx \<le> mx * 100 div mx"
      using a True by (intro zdiv_mono1) simp_all
    also have "\<dots> = 100" using True by simp
    finally show ?thesis
      using a True normalized_score_eq [of raw mx] by (simp add: pos_imp_zdiv_nonneg_iff)
  next
    case False
    then show ?thesis by (simp add: normalized_score_def)
  qed
qed

lemma normalized_score_full:
  "0 < mx \<Longrightarrow> mx \<le> 400 \<Longrightarrow> 0 \<le> raw \<Longrightarrow> raw \<le> mx \<Longrightarrow> normalized_score raw mx = 100 \<longleftrightarrow> raw = mx"
proof -
  assume a: "0 < mx" "mx \<le> 400" "0 \<le> raw" "raw \<le> mx"
  then have eq: "normalized_score raw mx = raw * 100 div mx"
    using normalized_score_eq [of raw mx] by simp
  have "raw * 100 div mx < 100" if "raw < mx"
  proof (rule ccontr)
    assume "\<not> raw * 100 div mx < 100"
    then have "mx * 100 \<le> mx * (raw * 100 div mx)"
      using a by (intro mult_left_mono) simp_all
    also have "\<dots> \<le> raw * 100"
      using a pos_mod_sign [of mx "raw * 100"] mult_div_mod_eq [of mx "raw * 100"] by linarith
    finally show False using that by simp
  qed
  then show ?thesis using a eq by fastforce
qed

section \<open>A whole run\<close>

text \<open>A loop over the queries that ends well or stops at the first failure.\<close>

lemma dns_queries_success:
  "allSuccess (fst (run_state (dns_queries os rt th t qs l) s)) \<Longrightarrow> allSuccess l"
proof (induction qs arbitrary: l s)
  case Nil
  then show ?case by simp
next
  case (Cons q qs)
  obtain addr dmn where q: "q = (addr, dmn)" by (cases q)
  let ?r = "run_state (CheckDNSQuery os dmn rt addr t) s"
  show ?case
  proof (cases "Success (fst ?r)")
    case True
    with Cons.prems q have "allSuccess (fst (run_state (dns_queries os rt th t qs
        (l\<lparr>totalRTT := i64 (totalRTT l + RTT (fst ?r)), queryCount := i64 (queryCount l + 1),
          anySlow := (anySlow l \<or> th > 0 \<and> RTT (fst ?r) > th), lastDetail := fst ?r\<rparr>)) (snd ?r)))"
      by (simp add: case_prod_beta)
    from Cons.IH [OF this] show ?thesis by simp
  next
    case False
    with Cons.prems q show ?thesis by (simp add: case_prod_beta)
  qed
qed

lemma dns_outcome_fields:
  assumes "weights_ok w" and "0 \<le> RawScore r0" "RawScore r0 \<le> 300"
  shows "RawScore (dns_outcome w l r0) = RawScore r0 +
      (if allSuccess l then (if anySlow l then wDNS w div 2 else wDNS w) else 0)"
    and "DNSAlive (dns_outcome w l r0) = allSuccess l"
    and "Slow (DNSDetail (dns_outcome w l r0)) = anySlow l"
proof -
  have "0 \<le> wDNS w div 2" "wDNS w div 2 \<le> 100"
    using assms by (auto simp: weights_ok_def)
  then have "i64 (RawScore r0 + wDNS w div 2) = RawScore r0 + wDNS w div 2"
    using assms(2,3) by (intro i64_small) linarith+
  with assms show "RawScore (dns_outcome w l r0) = RawScore r0 +
      (if allSuccess l then (if anySlow l then wDNS w div 2 else wDNS w) else 0)"
    by (simp add: dns_outcome_def Let_def weights_ok_def sdiv_pos i64_small)
  show "DNSAlive (dns_outcome w l r0) = allSuccess l"
    "Slow (DNSDetail (dns_outcome w l r0)) = anySlow l"
    by (simp_all add: dns_outcome_def Let_def)
qed

lemma dns_outcome_frame:
  "MaxScore (dns_outcome w l r0) = MaxScore r0"
  "ProcessAlive (dns_outcome w l r0) = ProcessAlive r0"
  "TCPAlive (dns_outcome w l r0) = TCPAlive r0"
  "UDPAlive (dns_outcome w l r0) = UDPAlive r0"
  by (simp_all add: dns_outcome_def Let_def)

lemma award_frame:
  "MaxScore (award b v r) = MaxScore r" "ProcessAlive (award b v r) = ProcessAlive r"
  "TCPAlive (award b v r) = TCPAlive r" "UDPAlive (award b v r) = UDPAlive r"
  "DNSAlive (award b v r) = DNSAlive r"
  by (simp_all add: award_def)

lemma award_raw:
  "0 \<le> RawScore r \<Longrightarrow> RawScore r \<le> 300 \<Longrightarrow> 0 \<le> v \<Longrightarrow> v \<le> 100 \<Longrightarrow>
     RawScore (award b v r) = RawScore r + (if b then v else 0)"
  by (simp add: award_def i64_small)

definition after_probes :: "Weights \<Rightarrow> bool \<Rightarrow> bool \<Rightarrow> bool \<Rightarrow> HealthResult" where
  "after_probes w p t u =
     award u (wUDP w) ((award t (wTCP w) ((award p (wProcess w)
       (zeroHealthResult\<lparr>MaxScore := max_of_weights w, ProcessAlive := p\<rparr>))\<lparr>TCPAlive := t\<rparr>))\<lparr>UDPAlive := u\<rparr>)"

lemma after_probes_fields:
  assumes "weights_ok w"
  shows "RawScore (after_probes w p t u) =
      (if p then wProcess w else 0) + (if t then wTCP w else 0) + (if u then wUDP w else 0)"
    and "MaxScore (after_probes w p t u) = max_of_weights w"
    and "ProcessAlive (after_probes w p t u) = p" and "TCPAlive (after_probes w p t u) = t"
    and "UDPAlive (after_probes w p t u) = u" and "DNSAlive (after_probes w p t u) = False"
  using assms
  by (simp_all add: after_probes_def award_frame award_raw zeroHealthResult_def weights_ok_def)

text \<open>What a run's result says of itself.\<close>

definition scored_by :: "ProcessConfig \<Rightarrow> HealthResult \<Rightarrow> bool" where
  "scored_by cfg r \<longleftrightarrow>
     RawScore r = raw_of (effective_weights cfg) r \<and>
     MaxScore r = max_of_weights (effective_weights cfg) \<and>
     hScore r = normalized_score (RawScore r) (MaxScore r) \<and>
     (DNSEnabled cfg \<or> DNSAlive r = False)"

lemma scored_by_finish:
  "RawScore x = raw_of (effective_weights cfg) x \<Longrightarrow> MaxScore x = max_of_weights (effective_weights cfg) \<Longrightarrow>
   DNSEnabled cfg \<or> DNSAlive x = False \<Longrightarrow>
   scored_by cfg (x\<lparr>hScore := normalized_score (RawScore x) (MaxScore x)\<rparr>)"
  by (simp add: scored_by_def raw_of_def)

lemma scored_by_plain:
  assumes w: "weights_ok (effective_weights cfg)" and "\<not> DNSEnabled cfg"
  shows "scored_by cfg (let x = after_probes (effective_weights cfg) p t u
    in x\<lparr>hScore := normalized_score (RawScore x) (MaxScore x)\<rparr>)"
  unfolding Let_def
  by (rule scored_by_finish) (use assms in \<open>simp_all add: after_probes_fields raw_of_def\<close>)

lemma scored_by_dns:
  assumes w: "weights_ok (effective_weights cfg)" and "DNSEnabled cfg"
  shows "scored_by cfg (let x = dns_outcome (effective_weights cfg) l (after_probes (effective_weights cfg) p t u)
    in x\<lparr>hScore := normalized_score (RawScore x) (MaxScore x)\<rparr>)"
proof -
  have b: "0 \<le> RawScore (after_probes (effective_weights cfg) p t u)"
    "RawScore (after_probes (effective_weights cfg) p t u) \<le> 300"
    using w by (auto simp: after_probes_fields weights_ok_def)
  show ?thesis
    unfolding Let_def
    by (rule scored_by_finish)
      (use assms in \<open>simp_all add: after_probes_fields raw_of_def dns_outcome_frame dns_outcome_fields [OF w b]\<close>)
qed

lemma RunChecks_wp:
  assumes w: "weights_ok (effective_weights cfg)"
  shows "wp (RunChecks os cfg) (\<lambda>r _. scored_by cfg r) s"
  unfolding RunChecks_def run_dns_check_def Let_def wp_simps
  apply (rule wp_any)+
  apply (cases "DNSEnabled cfg")
   apply (simp_all add: wp_simps)
   apply (rule wp_any)
   apply (use scored_by_dns [OF w] in \<open>simp add: Let_def after_probes_def\<close>)
  apply (use scored_by_plain [OF w] in \<open>simp add: Let_def after_probes_def\<close>)
  done

lemma raw_of_full:
  assumes "weights_ok w"
  shows "0 \<le> raw_of w h \<and> raw_of w h \<le> max_of_weights w \<and>
    (raw_of w h = max_of_weights w \<longleftrightarrow>
       (wProcess w = 0 \<or> ProcessAlive h) \<and> (wTCP w = 0 \<or> TCPAlive h) \<and> (wUDP w = 0 \<or> UDPAlive h) \<and>
       (wDNS w = 0 \<or> DNSAlive h \<and> \<not> Slow (DNSDetail h)))"
proof -
  have m: "max_of_weights w = wProcess w + wTCP w + wUDP w + wDNS w" by (rule max_of_weights_ok [OF assms])
  have w: "0 \<le> wProcess w" "0 \<le> wTCP w" "0 \<le> wUDP w" "0 \<le> wDNS w" using assms by (simp_all add: weights_ok_def)
  have half: "0 \<le> wDNS w div 2" "wDNS w div 2 \<le> wDNS w" "wDNS w div 2 = wDNS w \<longleftrightarrow> wDNS w = 0" using w(4) by auto
  define a b c d where parts: "a = (if ProcessAlive h then wProcess w else 0)" "b = (if TCPAlive h then wTCP w else 0)"
    "c = (if UDPAlive h then wUDP w else 0)"
    "d = (if DNSAlive h then (if Slow (DNSDetail h) then wDNS w div 2 else wDNS w) else 0)"
  have bounds: "0 \<le> a" "a \<le> wProcess w" "0 \<le> b" "b \<le> wTCP w" "0 \<le> c" "c \<le> wUDP w" "0 \<le> d" "d \<le> wDNS w"
    using w half by (simp_all add: parts)
  have full: "a = wProcess w \<longleftrightarrow> wProcess w = 0 \<or> ProcessAlive h" "b = wTCP w \<longleftrightarrow> wTCP w = 0 \<or> TCPAlive h"
    "c = wUDP w \<longleftrightarrow> wUDP w = 0 \<or> UDPAlive h" "d = wDNS w \<longleftrightarrow> wDNS w = 0 \<or> DNSAlive h \<and> \<not> Slow (DNSDetail h)"
    using half(3) by (auto simp: parts)
  have sum: "raw_of w h = a + b + c + d" by (simp add: raw_of_def parts)
  have "raw_of w h = max_of_weights w \<longleftrightarrow> a = wProcess w \<and> b = wTCP w \<and> c = wUDP w \<and> d = wDNS w"
    using bounds unfolding sum m by linarith
  moreover have "0 \<le> raw_of w h" "raw_of w h \<le> max_of_weights w" using bounds unfolding sum m by linarith+
  ultimately show ?thesis unfolding full by blast
qed

text \<open>C39. The score is the share, in percent and rounded down, of the weights of the checks that passed; it is
  100 exactly when every check with a weight passed, DNS within its latency threshold.\<close>

theorem score_is_share:
  assumes "weights_ok (effective_weights cfg)" and "0 < max_of_weights (effective_weights cfg)"
    and "run_state (RunChecks os cfg) s = (h, s')" and "w = effective_weights cfg"
  shows "hScore h = raw_of w h * 100 div max_of_weights w \<and> 0 \<le> hScore h \<and> hScore h \<le> 100 \<and>
    (hScore h = 100 \<longleftrightarrow>
       (wProcess w = 0 \<or> ProcessAlive h) \<and> (wTCP w = 0 \<or> TCPAlive h) \<and> (wUDP w = 0 \<or> UDPAlive h) \<and>
       (wDNS w = 0 \<or> DNSAlive h \<and> \<not> Slow (DNSDetail h)))"
proof -
  have "scored_by cfg h" using wpD [OF RunChecks_wp [OF assms(1), of os s]] assms(3) by simp
  then have h: "hScore h = normalized_score (raw_of w h) (max_of_weights w)"
    by (simp add: scored_by_def assms(4))
  have r: "0 \<le> raw_of w h" "raw_of w h \<le> max_of_weights w" "0 < max_of_weights w" "max_of_weights w \<le> 400"
    using raw_of_full [of w h] assms(1,2,4) max_of_weights_ok [of w] by (auto simp: weights_ok_def)
  have share: "normalized_score (raw_of w h) (max_of_weights w) = raw_of w h * 100 div max_of_weights w"
    using normalized_score_eq [of "raw_of w h" "max_of_weights w"] r by simp
  have range: "0 \<le> normalized_score (raw_of w h) (max_of_weights w)" "normalized_score (raw_of w h) (max_of_weights w) \<le> 100"
    using normalized_score_range [OF r(1,2,4)] by blast+
  have full: "raw_of w h = max_of_weights w \<longleftrightarrow>
       (wProcess w = 0 \<or> ProcessAlive h) \<and> (wTCP w = 0 \<or> TCPAlive h) \<and> (wUDP w = 0 \<or> UDPAlive h) \<and>
       (wDNS w = 0 \<or> DNSAlive h \<and> \<not> Slow (DNSDetail h))"
    using raw_of_full [of w h] assms(1,4) by blast
  show ?thesis
    unfolding h normalized_score_full [OF r(3,4,1,2)] full using share range by blast
qed

section \<open>Checking only looks\<close>

context reading
begin

lemma keeps_checks [effect_intros]:
  "keeps R (CheckProcess os name t)" "keeps R (CheckProcesses os names t)" "keeps R (CheckTCP os a t)"
  "keeps R (CheckUDP os a d t)" "keeps R (CheckDNSQuery os d rt a t)"
proof -
  show p: "keeps R (CheckProcess os name t)" for name t
    unfolding CheckProcess_def by (intro effect_intros) simp
  show "keeps R (CheckProcesses os names t)"
    unfolding CheckProcesses_def by (intro effect_intros p)
  show "keeps R (CheckTCP os a t)" "keeps R (CheckUDP os a d t)" "keeps R (CheckDNSQuery os d rt a t)"
    unfolding CheckTCP_def CheckUDP_def CheckDNSQuery_def by (intro effect_intros)+
qed

lemma keeps_dns_queries [effect_intros]: "keeps R (dns_queries os rt th t qs l)"
proof (induction qs arbitrary: l)
  case (Cons q qs)
  then show ?case by (cases q) (auto intro!: effect_intros)
qed (auto intro: effect_intros)

lemma keeps_RunChecks [effect_intros]: "keeps R (RunChecks os cfg)"
  unfolding RunChecks_def run_dns_check_def by (intro effect_intros)

end

end
