(* ===== verification/Probe.thy ===== *)
theory Probe
  imports OS Regexp Health
begin

text \<open>
  \<open>internal/peer/probe.go\<close> and the ping helper of \<open>internal/util/exec.go\<close>: what a failed
  heartbeat says about a peer. \<open>classifyHTTPError\<close> reads an HTTP client's error chain, \<open>probeTCP\<close>
  dials a port, \<open>PingHost\<close> runs ping, and \<open>Diagnose\<close> turns the evidence into a severity and a
  sentence for the operator.
\<close>

section \<open>Probes\<close>

datatype Probe = ProbeUnknown | ProbeOK | ProbeRefused | ProbeNoAnswer | ProbeUnreachable

fun Probe_String :: "Probe \<Rightarrow> string" where
  "Probe_String ProbeOK = check_mark @ '' responding''"
| "Probe_String ProbeRefused = cross_mark @ '' connection refused (nothing listening)''"
| "Probe_String ProbeNoAnswer = warning_sign @ '' connected but no reply (hung)''"
| "Probe_String ProbeUnreachable = cross_mark @ '' unreachable (timeout / no route)''"
| "Probe_String ProbeUnknown = ''? not probed''"

definition classifyHTTPError :: "goerr option \<Rightarrow> Probe" where
  "classifyHTTPError err =
     (case err of
        None \<Rightarrow> ProbeOK
      | Some e \<Rightarrow>
          (case As_dialError e of
             Some d \<Rightarrow> if Is_ECONNREFUSED d then ProbeRefused else ProbeUnreachable
           | None \<Rightarrow> if Is_ECONNREFUSED e then ProbeRefused else ProbeNoAnswer))"

definition probeTCP :: "'w os \<Rightarrow> string \<Rightarrow> duration \<Rightarrow> ('w io, Probe) state" where
  "probeTCP os address timeout = do {
     err \<leftarrow> call (os_dial os ''tcp'' address timeout);
     State_Monad.return
       (case err of
          None \<Rightarrow> ProbeOK
        | Some e \<Rightarrow> if Is_ECONNREFUSED e then ProbeRefused else ProbeUnreachable)
   }"

section \<open>Ping\<close>

definition is_ping_num :: "char \<Rightarrow> bool" where
  "is_ping_num c \<longleftrightarrow> is_digit c \<or> c = CHR ''.''"

definition pingTimeRe :: regex where
  "pingTimeRe = SeqL [Lit ''time='', Cap (PlusC is_ping_num), Lit '' ms'']"

definition pingRTT :: "string \<Rightarrow> string" where
  "pingRTT out =
     (case FindStringSubmatch pingTimeRe out of None \<Rightarrow> [] | Some m \<Rightarrow> m ! 1 @ '' ms'')"

definition PingHost :: "'w os \<Rightarrow> string \<Rightarrow> duration \<Rightarrow> ('w io, bool \<times> string) state" where
  "PingHost os ip timeout = do {
     let (pinger, args) =
       (if isIPv6 ip then (''ping6'', [''-c'', ''1'', ip])
        else (''ping'', [''-t'', ''1'', ''-c'', ''1'', ip]));
     result \<leftarrow> ExecTimeout os timeout pinger args;
     State_Monad.return
       (case Err result of
          Some e \<Rightarrow>
            (let detail = TrimSpace (Stderr result)
             in (False, if detail = [] then Error e else detail))
        | None \<Rightarrow> (True, pingRTT (Stdout result)))
   }"

section \<open>Severity and diagnosis\<close>

datatype Severity = SeverityNone | SeverityHostDown | SeverityAgentOnly | SeverityCritical

fun Severity_String :: "Severity \<Rightarrow> string" where
  "Severity_String SeverityHostDown = ''DOWN (host unreachable)''"
| "Severity_String SeverityAgentOnly = ''DEGRADED (agent down, DNS serving)''"
| "Severity_String SeverityCritical = ''CRITICAL (host up, DNS not serving)''"
| "Severity_String SeverityNone = ''OK''"

definition Diagnose :: "Probe \<Rightarrow> Probe \<Rightarrow> bool \<Rightarrow> bool option \<Rightarrow> Severity \<times> string" where
  "Diagnose agent tcp53 udp53OK pingOK =
     (let hostUp = (udp53OK \<or>
            agent = ProbeOK \<or> agent = ProbeRefused \<or> agent = ProbeNoAnswer \<or>
            tcp53 = ProbeOK \<or> tcp53 = ProbeRefused \<or>
            pingOK = Some True)
      in if \<not> hostUp then
           (SeverityHostDown, ''host unreachable '' @ em_dash @
              '' no ICMP reply and nothing answered on any port (VM down or network partition)'')
         else if udp53OK then
           (if agent = ProbeNoAnswer then
              (SeverityAgentOnly, ''agent hung (connection accepted, no reply) '' @ em_dash @
                 '' DNS is still answering'')
            else (SeverityAgentOnly, ''agent not reachable '' @ em_dash @ '' DNS is still answering''))
         else if agent = ProbeNoAnswer then
           (SeverityCritical, ''peer userland HUNG '' @ em_dash @
              '' the agent accepted the connection but never replied, and DNS is not answering'')
         else if agent = ProbeRefused \<and> tcp53 = ProbeRefused then
           (SeverityCritical, ''agent and DNS processes are both down'')
         else if pingOK = Some True then
           (SeverityCritical, ''host responds to ICMP but DNS is not answering (service down or port filtered)'')
         else (SeverityCritical, ''DNS is not answering''))"

section \<open>Lemmas\<close>

context reading
begin

lemma keeps_probeTCP [effect_intros]: "keeps R (probeTCP os a t)"
  unfolding probeTCP_def by (intro effect_intros)

lemma keeps_PingHost [effect_intros]: "keeps R (PingHost os ip t)"
  unfolding PingHost_def Let_def by (cases "isIPv6 ip") (auto intro!: effect_intros)

end

text \<open>Severity is decided by the DNS query and by whether any sign of life was seen.\<close>

definition sign_of_life :: "Probe \<Rightarrow> Probe \<Rightarrow> bool option \<Rightarrow> bool" where
  "sign_of_life agent tcp53 pingOK \<longleftrightarrow>
     agent \<in> {ProbeOK, ProbeRefused, ProbeNoAnswer} \<or> tcp53 \<in> {ProbeOK, ProbeRefused} \<or> pingOK = Some True"

lemma Diagnose_severity:
  "fst (Diagnose agent tcp53 udp pingOK) =
     (if udp then SeverityAgentOnly
      else if sign_of_life agent tcp53 pingOK then SeverityCritical else SeverityHostDown)"
  unfolding Diagnose_def sign_of_life_def Let_def by (simp split: if_split)

lemma Severity_String_inject: "Severity_String a = Severity_String b \<Longrightarrow> a = b"
  by (cases a; cases b) auto

text \<open>A tag set by the transport survives whatever the client wraps around it.\<close>

lemma classify_tagged_dial:
  "classifyHTTPError (Some (WrapErr p (DialError e) q)) =
     (if Is_ECONNREFUSED e then ProbeRefused else ProbeUnreachable)"
  by (simp add: classifyHTTPError_def)

lemma classify_untagged:
  "As_dialError e = None \<Longrightarrow> \<not> Is_ECONNREFUSED e \<Longrightarrow> classifyHTTPError (Some e) = ProbeNoAnswer"
  by (simp add: classifyHTTPError_def)

end
