(* ===== verification/Json.thy ===== *)
theory Json
  imports GoStrings
begin

text \<open>
  What the heartbeat uses of \<open>encoding/json\<close>: reading the first JSON value of a response body into
  the struct of \<open>internal/peer/peer.go\<close>, and printing the struct of \<open>handleHealth\<close>.

  The reader is a recursive descent over the text with fuel; every call consumes a byte or has a
  smaller fuel, and the length of the text is enough. As in Go, the values nest at most 10000
  deep, keys match exactly or up to case, the last of several equal keys wins, \<open>null\<close> leaves a
  field alone, unknown keys are skipped, a value of the wrong type is an error, and what follows
  an object is not looked at.
\<close>

datatype json =
    JNull
  | JBool bool
  | JNum string
  | JStr string
  | JArr "json list"
  | JObj "(string \<times> json) list"

section \<open>Strings\<close>

definition replacement :: string where "replacement = [CHR 0xEF, CHR 0xBF, CHR 0xBD]"

definition utf8_encode :: "int \<Rightarrow> string" where
  "utf8_encode u =
     (if u < 0x80 then [char_of u]
      else if u < 0x800 then [char_of (0xC0 + u div 64), char_of (0x80 + u mod 64)]
      else if u < 0x10000 then
        [char_of (0xE0 + u div 4096), char_of (0x80 + u div 64 mod 64), char_of (0x80 + u mod 64)]
      else [char_of (0xF0 + u div 262144), char_of (0x80 + u div 4096 mod 64),
            char_of (0x80 + u div 64 mod 64), char_of (0x80 + u mod 64)])"

definition is_hex_char :: "char \<Rightarrow> bool" where
  "is_hex_char c \<longleftrightarrow> 48 \<le> byte c \<and> byte c \<le> 57 \<or> 97 \<le> byte c \<and> byte c \<le> 102 \<or> 65 \<le> byte c \<and> byte c \<le> 70"

definition hex4 :: "string \<Rightarrow> int option" where
  "hex4 s =
     (if length s \<ge> 4 \<and> list_all is_hex_char (take 4 s)
      then Some (foldl (\<lambda>a c. 16 * a + (if byte c \<le> 57 then byte c - 48
                                         else if byte c \<le> 70 then byte c - 55 else byte c - 87)) 0 (take 4 s))
      else None)"

definition simple_escape :: "char \<Rightarrow> char option" where
  "simple_escape c =
     (if c = CHR 0x22 \<or> c = CHR 0x5C \<or> c = CHR ''/'' then Some c
      else if c = CHR ''b'' then Some (CHR 0x08)
      else if c = CHR ''f'' then Some (CHR 0x0C)
      else if c = CHR ''n'' then Some (CHR 0x0A)
      else if c = CHR ''r'' then Some (CHR 0x0D)
      else if c = CHR ''t'' then Some (CHR 0x09)
      else None)"

text \<open>The decoded text behind an opening quote, up to its closing quote, and the rest.\<close>

fun json_string :: "nat \<Rightarrow> string \<Rightarrow> (string \<times> string) option" where
  "json_string 0 s = None"
| "json_string (Suc n) [] = None"
| "json_string (Suc n) (c # cs) =
     (if c = CHR 0x22 then Some ([], cs)
      else if byte c < 0x20 then None
      else if c = CHR 0x5C then
        (case cs of
           [] \<Rightarrow> None
         | e # es \<Rightarrow>
             if e = CHR ''u'' then
               (case hex4 es of
                  None \<Rightarrow> None
                | Some u \<Rightarrow>
                    let rest = drop 4 es in
                    if 0xD800 \<le> u \<and> u < 0xDC00 \<and> HasPrefix rest [CHR 0x5C, CHR ''u''] then
                      (case hex4 (drop 2 rest) of
                         Some v \<Rightarrow>
                           if 0xDC00 \<le> v \<and> v < 0xE000 then
                             map_option (\<lambda>(t, r). (utf8_encode (0x10000 + (u - 0xD800) * 1024 + (v - 0xDC00)) @ t, r))
                               (json_string n (drop 6 rest))
                           else map_option (\<lambda>(t, r). (replacement @ t, r)) (json_string n rest)
                       | None \<Rightarrow> None)
                    else if 0xD800 \<le> u \<and> u < 0xE000 then
                      map_option (\<lambda>(t, r). (replacement @ t, r)) (json_string n rest)
                    else map_option (\<lambda>(t, r). (utf8_encode u @ t, r)) (json_string n rest))
             else
               (case simple_escape e of
                  None \<Rightarrow> None
                | Some x \<Rightarrow> map_option (\<lambda>(t, r). (x # t, r)) (json_string n es)))
      else
        (let k = utf8_len (c # cs) in
         if k = 0 then map_option (\<lambda>(t, r). (replacement @ t, r)) (json_string n cs)
         else map_option (\<lambda>(t, r). (take k (c # cs) @ t, r)) (json_string n (drop k (c # cs)))))"

section \<open>Values\<close>

definition is_ws :: "char \<Rightarrow> bool" where
  "is_ws c \<longleftrightarrow> byte c \<in> {32, 9, 10, 13}"

definition skip_ws :: "string \<Rightarrow> string" where
  "skip_ws s = dropWhile is_ws s"

text \<open>The number literal at the head of a text, if there is one.\<close>

definition json_unsigned :: "string \<Rightarrow> (string \<times> string) option" where
  "json_unsigned s1 =
     (let ip = (if HasPrefix s1 ''0'' then ''0'' else takeWhile is_digit s1);
          s2 = drop (length ip) s1;
          fp = (if HasPrefix s2 ''.'' then CHR ''.'' # takeWhile is_digit (drop 1 s2) else []);
          s3 = drop (length fp) s2;
          ep = (if HasPrefix s3 ''e'' \<or> HasPrefix s3 ''E'' then
                  (let sg = (if HasPrefix (drop 1 s3) ''+'' \<or> HasPrefix (drop 1 s3) ''-'' then take 1 (drop 1 s3) else [])
                   in take 1 s3 @ sg @ takeWhile is_digit (drop (1 + length sg) s3))
                else []);
          s4 = drop (length ep) s3
      in if ip = [] \<or> fp = ''.'' \<or> (ep \<noteq> [] \<and> \<not> is_digit (last ep)) then None
         else Some (ip @ fp @ ep, s4))"

definition json_number :: "string \<Rightarrow> (string \<times> string) option" where
  "json_number s =
     (if HasPrefix s ''-'' then map_option (\<lambda>(t, r). (CHR ''-'' # t, r)) (json_unsigned (drop 1 s))
      else json_unsigned s)"

definition max_depth :: nat where "max_depth = 10000"

fun json_value :: "nat \<Rightarrow> nat \<Rightarrow> string \<Rightarrow> (json \<times> string) option"
  and json_members :: "nat \<Rightarrow> nat \<Rightarrow> string \<Rightarrow> ((string \<times> json) list \<times> string) option"
  and json_elements :: "nat \<Rightarrow> nat \<Rightarrow> string \<Rightarrow> (json list \<times> string) option" where
  "json_value 0 d s = None"
| "json_value (Suc n) d s =
     (case skip_ws s of
        [] \<Rightarrow> None
      | c # cs \<Rightarrow>
          if c = CHR ''{'' then
            (if d \<ge> max_depth then None
             else if HasPrefix (skip_ws cs) ''}'' then Some (JObj [], drop 1 (skip_ws cs))
             else map_option (\<lambda>(ms, r). (JObj ms, r)) (json_members n (Suc d) cs))
          else if c = CHR ''['' then
            (if d \<ge> max_depth then None
             else if HasPrefix (skip_ws cs) '']'' then Some (JArr [], drop 1 (skip_ws cs))
             else map_option (\<lambda>(es, r). (JArr es, r)) (json_elements n (Suc d) cs))
          else if c = CHR 0x22 then map_option (\<lambda>(t, r). (JStr t, r)) (json_string (Suc (length cs)) cs)
          else if HasPrefix (c # cs) ''true'' then Some (JBool True, drop 4 (c # cs))
          else if HasPrefix (c # cs) ''false'' then Some (JBool False, drop 5 (c # cs))
          else if HasPrefix (c # cs) ''null'' then Some (JNull, drop 4 (c # cs))
          else map_option (\<lambda>(t, r). (JNum t, r)) (json_number (c # cs)))"
| "json_members 0 d s = None"
| "json_members (Suc n) d s =
     (case skip_ws s of
        [] \<Rightarrow> None
      | c # cs \<Rightarrow>
          if c \<noteq> CHR 0x22 then None
          else
            (case json_string (Suc (length cs)) cs of
               None \<Rightarrow> None
             | Some (key, r) \<Rightarrow>
                 (case skip_ws r of
                    [] \<Rightarrow> None
                  | k # ks \<Rightarrow>
                      if k \<noteq> CHR '':'' then None
                      else
                        (case json_value n d ks of
                           None \<Rightarrow> None
                         | Some (v, r2) \<Rightarrow>
                             (case skip_ws r2 of
                                [] \<Rightarrow> None
                              | e # es \<Rightarrow>
                                  if e = CHR ''}'' then Some ([(key, v)], es)
                                  else if e = CHR '','' then
                                    map_option (\<lambda>(ms, r3). ((key, v) # ms, r3)) (json_members n d es)
                                  else None)))))"
| "json_elements 0 d s = None"
| "json_elements (Suc n) d s =
     (case json_value n d s of
        None \<Rightarrow> None
      | Some (v, r) \<Rightarrow>
          (case skip_ws r of
             [] \<Rightarrow> None
           | e # es \<Rightarrow>
               if e = CHR '']'' then Some ([v], es)
               else if e = CHR '','' then map_option (\<lambda>(vs, r3). (v # vs, r3)) (json_elements n d es)
               else None))"

section \<open>The heartbeat's struct\<close>

record Heartbeat =
  hbScore :: int
  hbCarpState :: string
  hbAdvskew :: int
  hbDemotion :: int
  hbPreempt :: int

definition zeroHeartbeat :: Heartbeat where
  "zeroHeartbeat = \<lparr>hbScore = 0, hbCarpState = [], hbAdvskew = 0, hbDemotion = 0, hbPreempt = 0\<rparr>"

text \<open>Field names match up to case: ASCII letters, U+017F as S and U+212A as K.\<close>

fun fold_name :: "string \<Rightarrow> string" where
  "fold_name [] = []"
| "fold_name (c # s) =
     (if 97 \<le> byte c \<and> byte c \<le> 122 then char_of (byte c - 32) # fold_name s
      else (case s of
              d # t \<Rightarrow>
                if c = CHR 0xC5 \<and> d = CHR 0xBF then CHR ''S'' # fold_name t
                else if c = CHR 0xE2 \<and> d = CHR 0x84 \<and> HasPrefix t [CHR 0xAA] then CHR ''K'' # fold_name (drop 1 t)
                else c # fold_name s
            | [] \<Rightarrow> [c]))"

definition heartbeat_fields :: "string list" where
  "heartbeat_fields = [''score'', ''carp_state'', ''advskew'', ''demotion'', ''preempt'']"

definition field_of :: "string \<Rightarrow> string option" where
  "field_of key =
     (if key \<in> set heartbeat_fields then Some key
      else find (\<lambda>f. fold_name f = fold_name key) heartbeat_fields)"

definition set_int :: "((int \<Rightarrow> int) \<Rightarrow> Heartbeat \<Rightarrow> Heartbeat) \<Rightarrow> json \<Rightarrow> Heartbeat \<times> bool \<Rightarrow> Heartbeat \<times> bool" where
  "set_int upd v st =
     (case st of (h, ok) \<Rightarrow>
        (case v of
           JNull \<Rightarrow> (h, ok)
         | JNum lit \<Rightarrow> (case Atoi lit of Some n \<Rightarrow> (upd (\<lambda>_. n) h, ok) | None \<Rightarrow> (h, False))
         | _ \<Rightarrow> (h, False)))"

definition set_field :: "(string \<times> json) \<Rightarrow> Heartbeat \<times> bool \<Rightarrow> Heartbeat \<times> bool" where
  "set_field kv st =
     (case field_of (fst kv) of
        None \<Rightarrow> st
      | Some f \<Rightarrow>
          if f = ''score'' then set_int hbScore_update (snd kv) st
          else if f = ''advskew'' then set_int hbAdvskew_update (snd kv) st
          else if f = ''demotion'' then set_int hbDemotion_update (snd kv) st
          else if f = ''preempt'' then set_int hbPreempt_update (snd kv) st
          else (case st of (h, ok) \<Rightarrow>
                  (case snd kv of
                     JNull \<Rightarrow> (h, ok)
                   | JStr t \<Rightarrow> (h\<lparr>hbCarpState := t\<rparr>, ok)
                   | _ \<Rightarrow> (h, False))))"

text \<open>\<open>json.NewDecoder(body).Decode(&peerResp)\<close>: \<open>None\<close> where Go reports an error.\<close>

definition decode_with :: "nat \<Rightarrow> string \<Rightarrow> Heartbeat option" where
  "decode_with fuel body =
     (case json_value fuel 0 body of
        Some (JObj ms, _) \<Rightarrow>
          (case fold set_field ms (zeroHeartbeat, True) of (h, ok) \<Rightarrow> if ok then Some h else None)
      | Some (JNull, rest) \<Rightarrow> if rest = [] \<or> is_ws (hd rest) then Some zeroHeartbeat else None
      | _ \<Rightarrow> None)"

definition decode_heartbeat :: "string \<Rightarrow> Heartbeat option" where
  "decode_heartbeat body = decode_with (Suc (length body)) body"

section \<open>Printing\<close>

text \<open>\<open>json.Encoder\<close> on a string: the escapes of the package for ASCII, HTML escapes included.\<close>

definition json_escape :: "char \<Rightarrow> string" where
  "json_escape c =
     (if c = CHR 0x22 then [CHR 0x5C, CHR 0x22]
      else if c = CHR 0x5C then [CHR 0x5C, CHR 0x5C]
      else if c = CHR 0x08 then CHR 0x5C # ''b''
      else if c = CHR 0x0C then CHR 0x5C # ''f''
      else if c = CHR 0x0A then CHR 0x5C # ''n''
      else if c = CHR 0x0D then CHR 0x5C # ''r''
      else if c = CHR 0x09 then CHR 0x5C # ''t''
      else if byte c < 0x20 \<or> c = CHR ''<'' \<or> c = CHR ''>'' \<or> c = CHR ''&'' then
        CHR 0x5C # ''u00'' @ [hex_digit (nat (byte c div 16)), hex_digit (nat (byte c mod 16))]
      else [c])"

definition json_quote :: "string \<Rightarrow> string" where
  "json_quote s = [CHR 0x22] @ concat (map json_escape s) @ [CHR 0x22]"

definition json_field :: "string \<Rightarrow> string \<Rightarrow> string" where
  "json_field key value = [CHR 0x22] @ key @ [CHR 0x22] @ '':'' @ value"

definition encode_heartbeat :: "Heartbeat \<Rightarrow> string \<Rightarrow> string" where
  "encode_heartbeat h timestamp =
     ''{'' @ json_field ''score'' (Itoa (hbScore h)) @ '','' @
     json_field ''carp_state'' (json_quote (hbCarpState h)) @ '','' @
     json_field ''advskew'' (Itoa (hbAdvskew h)) @ '','' @
     json_field ''demotion'' (Itoa (hbDemotion h)) @ '','' @
     json_field ''preempt'' (Itoa (hbPreempt h)) @ '','' @
     json_field ''timestamp'' (json_quote timestamp) @ ''}\<newline>''"

section \<open>Reading back what was printed\<close>

definition ascii :: "string \<Rightarrow> bool" where
  "ascii s \<longleftrightarrow> list_all (\<lambda>c. byte c < 0x80) s"

lemma byte_range: "0 \<le> byte c" "byte c < 256"
proof -
  have "(of_char c :: nat) < 256" by simp
  then show "0 \<le> byte c" "byte c < 256" by (simp_all add: byte_def of_char_int_nat)
qed

lemma char_of_byte: "char_of (byte c) = c"
  by (simp add: byte_def)

lemma hex_digit_table:
  "list_all (\<lambda>d. is_hex_char (hex_digit d) \<and>
     (if byte (hex_digit d) \<le> 57 then byte (hex_digit d) - 48
      else if byte (hex_digit d) \<le> 70 then byte (hex_digit d) - 55 else byte (hex_digit d) - 87) = int d)
   [0, 1, 2, 3, 4, 5, 6, 7, 8, 9, 10, 11, 12, 13, 14, 15]"
  by (simp add: hex_digit_def byte_def is_hex_char_def)

lemma hex_digit_cases:
  assumes "d < 16"
  shows "is_hex_char (hex_digit d)"
    and "(if byte (hex_digit d) \<le> 57 then byte (hex_digit d) - 48
          else if byte (hex_digit d) \<le> 70 then byte (hex_digit d) - 55 else byte (hex_digit d) - 87) = int d"
proof -
  have "d \<in> set [0, 1, 2, 3, 4, 5, 6, 7, 8, 9, 10, 11, 12, 13, 14, 15]"
    unfolding list.set insert_iff empty_iff using assms by presburger
  with hex_digit_table show "is_hex_char (hex_digit d)"
    and "(if byte (hex_digit d) \<le> 57 then byte (hex_digit d) - 48
          else if byte (hex_digit d) \<le> 70 then byte (hex_digit d) - 55 else byte (hex_digit d) - 87) = int d"
    unfolding list_all_iff by blast+
qed

lemma hex4_byte:
  assumes "byte c < 0x80"
  shows "hex4 (CHR ''0'' # CHR ''0'' # hex_digit (nat (byte c div 16)) # hex_digit (nat (byte c mod 16)) # r) = Some (byte c)"
proof -
  have d: "nat (byte c div 16) < 16" "nat (byte c mod 16) < 16"
    using assms byte_range [of c] by linarith+
  have z: "is_hex_char (CHR ''0'')" "byte (CHR ''0'') = 48" by (simp_all add: is_hex_char_def byte_def)
  have "0 \<le> byte c div 16" using byte_range [of c] by (simp add: pos_imp_zdiv_nonneg_iff)
  then have "16 * int (nat (byte c div 16)) + int (nat (byte c mod 16)) = byte c" by simp
  then show ?thesis
    using hex_digit_cases [OF d(1)] hex_digit_cases [OF d(2)] z
    by (simp add: hex4_def del: int_nat_eq)
qed

lemma json_string_escape:
  assumes "byte c < 0x80"
  shows "json_string (Suc n) (json_escape c @ r) = map_option (\<lambda>(t, q). (c # t, q)) (json_string n r)"
proof -
  define special where "special = {CHR 0x22, CHR 0x5C, CHR 0x08, CHR 0x0C, CHR 0x0A, CHR 0x0D, CHR 0x09}"
  define hexed where "hexed \<longleftrightarrow> byte c < 0x20 \<or> c = CHR ''<'' \<or> c = CHR ''>'' \<or> c = CHR ''&''"
  consider "c \<in> special" | (hex) "c \<notin> special" "hexed" | (plain) "c \<notin> special" "\<not> hexed" by blast
  then show ?thesis
  proof cases
    case 1
    then show ?thesis
      by (auto simp: special_def json_escape_def simple_escape_def byte_def)
  next
    case hex
    then have e: "json_escape c =
        [CHR 0x5C, CHR ''u'', CHR ''0'', CHR ''0'', hex_digit (nat (byte c div 16)), hex_digit (nat (byte c mod 16))]"
      by (simp add: special_def hexed_def json_escape_def)
    have "utf8_encode (byte c) = [c]" using assms by (simp add: utf8_encode_def char_of_byte)
    moreover have "\<not> 0xD800 \<le> byte c" using assms by simp
    moreover have "\<not> byte (CHR 0x5C) < 0x20" by (simp add: byte_def)
    ultimately show ?thesis
      unfolding e using hex4_byte [OF assms, of r] by (simp add: Let_def)
  next
    case plain
    have "utf8_len (c # r) = 1" using assms by (simp add: utf8_len_def)
    moreover have "json_escape c = [c]" using plain by (simp add: special_def hexed_def json_escape_def)
    ultimately show ?thesis using plain by (simp add: special_def hexed_def Let_def)
  qed
qed

lemma json_escape_nonempty: "1 \<le> length (json_escape c)"
  by (simp add: json_escape_def)

lemma json_string_quoted:
  "ascii s \<Longrightarrow> length s < n \<Longrightarrow>
     json_string n (concat (map json_escape s) @ CHR 0x22 # r) = Some (s, r)"
proof (induction s arbitrary: n)
  case Nil
  then obtain m where "n = Suc m" by (cases n) simp_all
  then show ?case by simp
next
  case (Cons c s)
  then obtain m where n: "n = Suc m" by (cases n) simp_all
  with Cons have "json_string m (concat (map json_escape s) @ CHR 0x22 # r) = Some (s, r)"
    by (simp add: ascii_def)
  then show ?case
    using Cons.prems(1) json_string_escape [of c m "concat (map json_escape s) @ CHR 0x22 # r"]
    by (simp add: n ascii_def)
qed

lemma escaped_length: "length s \<le> length (concat (map json_escape s))"
proof (induction s)
  case (Cons c s)
  then show ?case
    using json_escape_nonempty [of c] unfolding list.map concat.simps length_append list.size by linarith
qed simp

lemma json_value_string:
  assumes "ascii s"
  shows "json_value (Suc n) d (json_quote s @ r) = Some (JStr s, r)"
proof -
  have "json_string (Suc (length (concat (map json_escape s) @ CHR 0x22 # r)))
      (concat (map json_escape s) @ CHR 0x22 # r) = Some (s, r)"
    by (rule json_string_quoted [OF assms]) (use escaped_length [of s] in simp)
  then show ?thesis
    by (simp add: json_quote_def skip_ws_def is_ws_def byte_def HasPrefix_def del: json_string.simps)
qed

lemma digit_char_zero [simp]: "digit_char 0 = CHR ''0''"
  by code_simp

lemma digit_char_not_zero: "0 < d \<Longrightarrow> d < 10 \<Longrightarrow> digit_char d \<noteq> CHR ''0''"
  using digit_val_digit_char [of d] digit_val_digit_char [of 0] by (auto simp del: digit_val_digit_char)

lemma udigits_lead: "0 < n \<Longrightarrow> hd (udigits n) \<noteq> CHR ''0''"
proof (induction n rule: udigits.induct)
  case (1 n)
  show ?case
  proof (cases "n < 10")
    case True
    then show ?thesis using 1(2) digit_char_not_zero by (simp add: udigits.simps [of n])
  next
    case False
    then have "hd (udigits (n div 10)) \<noteq> CHR ''0''" by (intro 1(1)) simp_all
    with False show ?thesis by (simp add: udigits.simps [of n] hd_append)
  qed
qed

lemma takeWhile_digits:
  "list_all is_digit ds \<Longrightarrow> \<not> is_digit c \<Longrightarrow> takeWhile is_digit (ds @ c # r) = ds"
  by (induction ds) simp_all

definition ends_number :: "char \<Rightarrow> bool" where
  "ends_number c \<longleftrightarrow> \<not> is_digit c \<and> c \<notin> {CHR ''.'', CHR ''e'', CHR ''E''}"

lemma json_number_udigits:
  assumes "0 \<le> n" and "ends_number c"
  shows "json_number (udigits n @ c # r) = Some (udigits n, c # r)"
    and "json_number (CHR ''-'' # udigits n @ c # r) = Some (CHR ''-'' # udigits n, c # r)"
proof -
  have d: "list_all is_digit (udigits n)" by (rule udigits_all [OF assms(1)])
  have no: "\<not> HasPrefix (c # r) ''.''" "\<not> HasPrefix (c # r) ''e''" "\<not> HasPrefix (c # r) ''E''"
    using assms(2) by (simp_all add: ends_number_def HasPrefix_def)
  have m: "\<not> HasPrefix (udigits n @ c # r) ''-''"
    using udigits_hd_digit [OF assms(1)] digit_not_sign by (cases "udigits n") (auto simp: HasPrefix_def)
  have ip: "(if HasPrefix (udigits n @ c # r) ''0'' then ''0'' else takeWhile is_digit (udigits n @ c # r)) = udigits n"
  proof (cases "n = 0")
    case True
    then show ?thesis by (simp add: udigits.simps [of 0] HasPrefix_def is_digit_def)
  next
    case False
    then have "\<not> HasPrefix (udigits n @ c # r) ''0''"
      using udigits_lead [of n] assms(1) by (cases "udigits n") (auto simp: HasPrefix_def)
    moreover have "takeWhile is_digit (udigits n @ c # r) = udigits n"
      using takeWhile_digits [OF d] assms(2) by (simp add: ends_number_def)
    ultimately show ?thesis by simp
  qed
  have u: "json_unsigned (udigits n @ c # r) = Some (udigits n, c # r)"
    using ip no by (simp add: json_unsigned_def Let_def)
  then show "json_number (udigits n @ c # r) = Some (udigits n, c # r)"
    using m by (simp add: json_number_def)
  show "json_number (CHR ''-'' # udigits n @ c # r) = Some (CHR ''-'' # udigits n, c # r)"
    using u by (simp add: json_number_def HasPrefix_def)
qed

lemma json_number_Itoa: "ends_number c \<Longrightarrow> json_number (Itoa n @ c # r) = Some (Itoa n, c # r)"
  by (cases "n < 0") (simp_all add: Itoa_def json_number_udigits)

lemma number_start:
  assumes "is_digit c \<or> c = CHR ''-''"
  shows "\<not> is_ws c" "c \<noteq> CHR ''{''" "c \<noteq> CHR ''[''" "c \<noteq> CHR 0x22" "c \<noteq> CHR ''t''" "c \<noteq> CHR ''f''" "c \<noteq> CHR ''n''"
  using assms by (auto simp: is_ws_def byte_def is_digit_def)

lemma Itoa_start: "\<exists>c cs. Itoa n = c # cs \<and> (is_digit c \<or> c = CHR ''-'')"
proof (cases "n < 0")
  case False
  then show ?thesis
    using udigits_hd_digit [of n] by (cases "udigits n") (auto simp: Itoa_def)
qed (simp add: Itoa_def)

lemma json_value_Itoa:
  assumes "ends_number e"
  shows "json_value (Suc n) d (Itoa m @ e # r) = Some (JNum (Itoa m), e # r)"
proof -
  obtain c cs where I: "Itoa m = c # cs" and c: "is_digit c \<or> c = CHR ''-''" using Itoa_start by blast
  have "json_number (c # cs @ e # r) = Some (c # cs, e # r)"
    using json_number_Itoa [OF assms, of m r] I by simp
  then show ?thesis
    using number_start [OF c] by (simp add: I skip_ws_def HasPrefix_def)
qed

text \<open>One member of an object whose key needs no escape.\<close>

definition simple_key :: "string \<Rightarrow> bool" where
  "simple_key k \<longleftrightarrow> ascii k \<and> concat (map json_escape k) = k"

lemma json_members_more:
  assumes "simple_key k" and "json_value n d (v @ CHR '','' # r) = Some (x, CHR '','' # r)"
  shows "json_members (Suc n) d (json_field k v @ CHR '','' # r) =
    map_option (\<lambda>(ms, q). ((k, x) # ms, q)) (json_members n d r)"
proof -
  have "json_string (Suc (length (k @ CHR 0x22 # CHR '':'' # v @ CHR '','' # r))) (k @ CHR 0x22 # CHR '':'' # v @ CHR '','' # r) =
      Some (k, CHR '':'' # v @ CHR '','' # r)"
    using json_string_quoted [of k "Suc (length (k @ CHR 0x22 # CHR '':'' # v @ CHR '','' # r))"] assms(1)
    by (simp add: simple_key_def del: json_string.simps)
  then show ?thesis
    using assms(2) by (simp add: json_field_def skip_ws_def is_ws_def byte_def del: json_string.simps)
qed

lemma json_members_last:
  assumes "simple_key k" and "json_value n d (v @ CHR ''}'' # r) = Some (x, CHR ''}'' # r)"
  shows "json_members (Suc n) d (json_field k v @ CHR ''}'' # r) = Some ([(k, x)], r)"
proof -
  have "json_string (Suc (length (k @ CHR 0x22 # CHR '':'' # v @ CHR ''}'' # r))) (k @ CHR 0x22 # CHR '':'' # v @ CHR ''}'' # r) =
      Some (k, CHR '':'' # v @ CHR ''}'' # r)"
    using json_string_quoted [of k "Suc (length (k @ CHR 0x22 # CHR '':'' # v @ CHR ''}'' # r))"] assms(1)
    by (simp add: simple_key_def del: json_string.simps)
  then show ?thesis
    using assms(2) by (simp add: json_field_def skip_ws_def is_ws_def byte_def del: json_string.simps)
qed

lemma heartbeat_keys:
  "simple_key ''score''" "simple_key ''carp_state''" "simple_key ''advskew''" "simple_key ''demotion''"
  "simple_key ''preempt''" "simple_key ''timestamp''"
  by code_simp+

lemma comma_ends: "ends_number (CHR '','')"
  by code_simp

definition heartbeat_members :: "Heartbeat \<Rightarrow> string \<Rightarrow> (string \<times> json) list" where
  "heartbeat_members h ts =
     [(''score'', JNum (Itoa (hbScore h))), (''carp_state'', JStr (hbCarpState h)),
      (''advskew'', JNum (Itoa (hbAdvskew h))), (''demotion'', JNum (Itoa (hbDemotion h))),
      (''preempt'', JNum (Itoa (hbPreempt h))), (''timestamp'', JStr ts)]"

lemma read_members:
  assumes "ascii (hbCarpState h)" and "ascii ts"
  shows "json_value (n + 9) 0 (encode_heartbeat h ts) = Some (JObj (heartbeat_members h ts), ''\<newline>'')"
proof -
  have n: "n + 9 = Suc (Suc (Suc (Suc (Suc (Suc (Suc (Suc (Suc n))))))))" by simp
  have "json_members (Suc (Suc (Suc (Suc (Suc (Suc (Suc (Suc n)))))))) 1
     (json_field ''score'' (Itoa (hbScore h)) @ CHR '','' #
      json_field ''carp_state'' (json_quote (hbCarpState h)) @ CHR '','' #
      json_field ''advskew'' (Itoa (hbAdvskew h)) @ CHR '','' #
      json_field ''demotion'' (Itoa (hbDemotion h)) @ CHR '','' #
      json_field ''preempt'' (Itoa (hbPreempt h)) @ CHR '','' #
      json_field ''timestamp'' (json_quote ts) @ CHR ''}'' # ''\<newline>'') =
    Some (heartbeat_members h ts, ''\<newline>'')"
    by (simp add: json_members_more json_members_last heartbeat_keys json_value_Itoa comma_ends
        json_value_string assms heartbeat_members_def del: json_members.simps json_value.simps)
  moreover have "skip_ws (CHR 0x22 # s) = CHR 0x22 # s" for s
    by (simp add: skip_ws_def is_ws_def byte_def)
  ultimately show ?thesis
    unfolding n by (simp add: encode_heartbeat_def json_field_def skip_ws_def is_ws_def byte_def HasPrefix_def max_depth_def
        del: json_members.simps)
qed

lemma heartbeat_fields_of:
  "field_of ''score'' = Some ''score''" "field_of ''carp_state'' = Some ''carp_state''"
  "field_of ''advskew'' = Some ''advskew''" "field_of ''demotion'' = Some ''demotion''"
  "field_of ''preempt'' = Some ''preempt''" "field_of ''timestamp'' = None"
  by code_simp+

definition heartbeat_ok :: "Heartbeat \<Rightarrow> bool" where
  "heartbeat_ok h \<longleftrightarrow> int64 (hbScore h) \<and> int64 (hbAdvskew h) \<and> int64 (hbDemotion h) \<and> int64 (hbPreempt h) \<and>
     ascii (hbCarpState h)"

lemma decode_encode:
  assumes "heartbeat_ok h" and "ascii ts"
  shows "decode_heartbeat (encode_heartbeat h ts) = Some h"
proof -
  have "9 \<le> length (encode_heartbeat h ts)" by (simp add: encode_heartbeat_def json_field_def)
  then obtain k where k: "Suc (length (encode_heartbeat h ts)) = k + 9"
    by (metis add.commute le_Suc_eq le_add_diff_inverse add_Suc_right)
  have "fold set_field (heartbeat_members h ts) (zeroHeartbeat, True) = (h, True)"
    using assms(1) by (simp add: heartbeat_members_def set_field_def heartbeat_fields_of set_int_def heartbeat_ok_def
        Atoi_Itoa zeroHeartbeat_def)
  then show ?thesis
    using read_members [of h ts k] assms by (simp add: decode_heartbeat_def decode_with_def k heartbeat_ok_def del: json_value.simps)
qed

end
