(* ===== verification/NetIP.thy ===== *)
theory NetIP
  imports GoStrings
begin

text \<open>
  What the program uses of the package \<open>net\<close>: \<open>net.ParseIP\<close> and the text \<open>IP.String\<close> gives back,
  and \<open>net.JoinHostPort\<close>. An address is its eight 16-bit groups; an IPv4 address is kept in the
  IPv4-in-IPv6 form \<open>::ffff:a.b.c.d\<close>, as Go keeps it.
\<close>

type_synonym ip_addr = "int list"

fun v4_fields :: "string \<Rightarrow> int \<Rightarrow> nat \<Rightarrow> int list \<Rightarrow> int list option" where
  "v4_fields [] val dl fs = (if length fs < 3 then None else Some (fs @ [val]))"
| "v4_fields (c # cs) val dl fs =
     (if is_digit c then
        (if dl = 1 \<and> val = 0 then None
         else (let v = val * 10 + digit_val c in if v > 255 then None else v4_fields cs v (Suc dl) fs))
      else if c = CHR ''.'' then
        (if dl = 0 \<or> cs = [] then None
         else if length fs = 3 then None
         else v4_fields cs 0 0 (fs @ [val]))
      else None)"

definition parse_v4 :: "string \<Rightarrow> (int \<times> int) option" where
  "parse_v4 s =
     (if s = [] then None
      else (case v4_fields s 0 0 [] of
              Some [a, b, c, d] \<Rightarrow> Some (a * 256 + b, c * 256 + d)
            | _ \<Rightarrow> None))"

definition is_hex :: "char \<Rightarrow> bool" where
  "is_hex c \<longleftrightarrow> (let x = of_char c :: int in 48 \<le> x \<and> x \<le> 57 \<or> 97 \<le> x \<and> x \<le> 102 \<or> 65 \<le> x \<and> x \<le> 70)"

definition hex_val :: "char \<Rightarrow> int" where
  "hex_val c = (let x = of_char c :: int in if x \<le> 57 then x - 48 else if x \<le> 70 then x - 55 else x - 87)"

definition hex_num :: "string \<Rightarrow> int" where
  "hex_num s = foldl (\<lambda>a c. 16 * a + hex_val c) 0 s"

fun v6_loop :: "nat \<Rightarrow> string \<Rightarrow> int list \<Rightarrow> nat option \<Rightarrow> (int list \<times> nat option \<times> string) option" where
  "v6_loop 0 s acc e = Some (acc, e, s)"
| "v6_loop (Suc n) s acc e =
     (let hx = takeWhile is_hex s; rest = dropWhile is_hex s in
      if hx = [] \<or> length hx > 4 then None
      else if HasPrefix rest ''.'' then
        (if e = None \<and> length acc \<noteq> 6 then None
         else if length acc + 2 > 8 then None
         else map_option (\<lambda>(g, h). (acc @ [g, h], e, [])) (parse_v4 s))
      else
        (let acc' = acc @ [hex_num hx] in
         case rest of
           [] \<Rightarrow> Some (acc', e, [])
         | c # cs \<Rightarrow>
             if c \<noteq> CHR '':'' then None
             else (case cs of
                     [] \<Rightarrow> None
                   | d # ds \<Rightarrow>
                       if d = CHR '':'' then
                         (if e \<noteq> None then None
                          else if ds = [] then Some (acc', Some (length acc'), [])
                          else v6_loop n ds acc' (Some (length acc')))
                       else v6_loop n cs acc' e)))"

definition expand_ellipsis :: "int list \<times> nat option \<times> string \<Rightarrow> ip_addr option" where
  "expand_ellipsis r =
     (case r of (acc, e, s) \<Rightarrow>
        if s \<noteq> [] then None
        else if length acc < 8 then
          (case e of None \<Rightarrow> None
           | Some k \<Rightarrow> Some (take k acc @ replicate (8 - length acc) 0 @ drop k acc))
        else if e \<noteq> None then None
        else Some acc)"

definition parse_v6 :: "string \<Rightarrow> ip_addr option" where
  "parse_v6 s =
     (if HasPrefix s ''::'' then
        (let t = drop 2 s in
         if t = [] then Some (replicate 8 0)
         else Option.bind (v6_loop 8 t [] (Some 0)) expand_ellipsis)
      else Option.bind (v6_loop 8 s [] None) expand_ellipsis)"

text \<open>
  \<open>net.ParseIP\<close>: the first of \<open>.\<close>, \<open>:\<close> and \<open>%\<close> decides the form; an address with a zone is
  refused, and a zone's \<open>%\<close> is no digit of either form.
\<close>

definition ParseIP :: "string \<Rightarrow> ip_addr option" where
  "ParseIP s =
     (case dropWhile (\<lambda>c. c \<noteq> CHR ''.'' \<and> c \<noteq> CHR '':'' \<and> c \<noteq> CHR ''%'') s of
        [] \<Rightarrow> None
      | c # _ \<Rightarrow>
          if c = CHR ''.'' then map_option (\<lambda>(g, h). [0, 0, 0, 0, 0, 0xFFFF, g, h]) (parse_v4 s)
          else if c = CHR '':'' then parse_v6 s
          else None)"

fun hex_group :: "nat \<Rightarrow> int \<Rightarrow> string" where
  "hex_group 0 n = []"
| "hex_group (Suc k) n =
     (if n < 16 then [hex_digit (nat n)] else hex_group k (n div 16) @ [hex_digit (nat (n mod 16))])"

text \<open>The longest run of at least two zero groups, the first of several.\<close>

definition zero_run :: "ip_addr \<Rightarrow> nat \<Rightarrow> nat" where
  "zero_run g i = length (takeWhile (\<lambda>x. x = 0) (drop i g))"

fun best_run :: "ip_addr \<Rightarrow> nat list \<Rightarrow> nat \<times> nat \<Rightarrow> nat \<times> nat" where
  "best_run g [] b = b"
| "best_run g (i # is) b =
     (let l = zero_run g i in best_run g is (if l \<ge> 2 \<and> l > snd b then (i, l) else b))"

definition IP_String :: "ip_addr \<Rightarrow> string" where
  "IP_String g =
     (if take 6 g = [0, 0, 0, 0, 0, 0xFFFF] then
        Join (map Itoa [g ! 6 div 256, g ! 6 mod 256, g ! 7 div 256, g ! 7 mod 256]) ''.''
      else
        (case best_run g [0, 1, 2, 3, 4, 5, 6, 7] (8, 0) of (i, l) \<Rightarrow>
           if l = 0 then Join (map (hex_group 4) g) '':''
           else Join (map (hex_group 4) (take i g)) '':'' @ ''::'' @
                Join (map (hex_group 4) (drop (i + l) g)) '':''))"

text \<open>\<open>net.JoinHostPort\<close>: a host with a colon is bracketed.\<close>

definition JoinHostPort :: "string \<Rightarrow> string \<Rightarrow> string" where
  "JoinHostPort host port =
     (if CHR '':'' \<in> set host then ''['' @ host @ '']:'' @ port else host @ '':'' @ port)"

text \<open>
  \<open>net.SplitHostPort\<close>, as far as the program asks: whether it succeeds. The port starts behind
  the last colon; a bracketed host ends right before it.
\<close>

definition index_of :: "char \<Rightarrow> string \<Rightarrow> nat" where
  "index_of c s = length (takeWhile (\<lambda>x. x \<noteq> c) s)"

definition last_index_of :: "char \<Rightarrow> string \<Rightarrow> nat" where
  "last_index_of c s = length s - 1 - index_of c (rev s)"

definition SplitHostPort_ok :: "string \<Rightarrow> bool" where
  "SplitHostPort_ok s \<longleftrightarrow>
     CHR '':'' \<in> set s \<and>
     (let i = last_index_of (CHR '':'') s in
      if HasPrefix s ''['' then
        CHR '']'' \<in> set s \<and>
        (let e = index_of (CHR '']'') s in
         Suc e = i \<and> CHR ''['' \<notin> set (drop 1 s) \<and> CHR '']'' \<notin> set (drop (Suc e) s))
      else
        CHR '':'' \<notin> set (take i s) \<and> CHR ''['' \<notin> set s \<and> CHR '']'' \<notin> set s)"

end
