(* ===== verification/Config.thy ===== *)
theory Config
  imports NetIP Health
begin

text \<open>
  \<open>internal/config\<close>: the configuration as the YAML decoder fills it, its accessors (config.go)
  and \<open>Validate\<close> (validate.go), which collects the messages of every rule that fails; the empty
  list is Go's nil error. Field names carry the initial of their section where two sections share
  one.
\<close>

section \<open>The configuration\<close>

record AgentConfig =
  Interval :: duration
  Interface :: string
  VIPInterface :: string
  VHID :: int
  StateFile :: string
  RecoveryConfirm :: int

record WeightsConfig =
  cwProcess :: int
  cwTCP :: int
  cwUDP :: int
  cwDNS :: int

record DNSQuery =
  qEnabled :: bool
  qDomain :: string
  qDomains :: "string list"
  qRecordType :: string
  qTimeout :: duration
  qLatencyThreshold :: duration

record HealthConfig =
  ProcessCheck :: bool
  hProcessName :: string
  hProcessNames :: "string list"
  TCPCheck :: bool
  UDPCheck :: bool
  hDNSQuery :: DNSQuery
  hBindAddress :: string
  hBindAddresses :: "string list"
  hWeights :: WeightsConfig

record CARPConfig =
  DemotionHealthy :: int
  DemotionDegraded :: int
  DemotionUnhealthy :: int

record TLSServerConfig =
  tEnabled :: bool
  CertFile :: string
  KeyFile :: string

record PeerEntry =
  eIP :: string
  eName :: string
  eToken :: string

record PeerConfig =
  pEnabled :: bool
  Bind :: string
  Port :: string
  Token :: string
  Ping :: bool
  TLS :: TLSServerConfig
  Peers :: "PeerEntry list"
  DNSPort :: string

record EmailConfig =
  mEnabled :: bool
  SMTPHost :: string
  SMTPPort :: int
  Username :: string
  Password :: string
  From :: string
  To :: "string list"

record SlackConfig =
  sEnabled :: bool
  WebhookURL :: string

record TelegramConfig =
  gEnabled :: bool
  BotToken :: string
  ChatID :: string

record NotifyConfig =
  Email :: EmailConfig
  Slack :: SlackConfig
  Telegram :: TelegramConfig
  nCooldown :: duration
  Confirm :: int
  VIPLossAlert :: bool
  MasterLossAlert :: "bool option"

record Config =
  cAgent :: AgentConfig
  cHealth :: HealthConfig
  cCARP :: CARPConfig
  cPeer :: PeerConfig
  cPolicyMode :: string
  cNotify :: NotifyConfig
  LogFile :: string
  LogLevel :: string

section \<open>Accessors\<close>

definition ProcessList :: "HealthConfig \<Rightarrow> string list" where
  "ProcessList h =
     (if hProcessNames h \<noteq> [] then hProcessNames h
      else if hProcessName h \<noteq> [] then [hProcessName h]
      else [''dnsdist''])"

definition BindAddressList :: "HealthConfig \<Rightarrow> string list" where
  "BindAddressList h =
     (if hBindAddresses h \<noteq> [] then hBindAddresses h
      else if hBindAddress h \<noteq> [] then [hBindAddress h]
      else [''127.0.0.1:53''])"

definition DomainList :: "DNSQuery \<Rightarrow> string list" where
  "DomainList d =
     (if qDomains d \<noteq> [] then qDomains d
      else if qDomain d \<noteq> [] then [qDomain d]
      else [''google.com''])"

definition Type :: "DNSQuery \<Rightarrow> string" where
  "Type d = (if qRecordType d \<noteq> [] then ToUpper (qRecordType d) else ''A'')"

definition PortNum :: "PeerConfig \<Rightarrow> string" where
  "PortNum p = TrimPrefix (Port p) '':''"

definition ListenAddr :: "PeerConfig \<Rightarrow> string" where
  "ListenAddr p = JoinHostPort (Bind p) (PortNum p)"

definition TokenFor :: "PeerConfig \<Rightarrow> PeerEntry \<Rightarrow> string" where
  "TokenFor p e = (if eToken e \<noteq> [] then eToken e else Token p)"

definition applyDeprecatedAliases :: "Config \<Rightarrow> Config" where
  "applyDeprecatedAliases cfg =
     (case MasterLossAlert (cNotify cfg) of
        Some b \<Rightarrow> if \<not> VIPLossAlert (cNotify cfg)
                  then cfg\<lparr>cNotify := (cNotify cfg)\<lparr>VIPLossAlert := b\<rparr>\<rparr> else cfg
      | None \<Rightarrow> cfg)"

section \<open>Validation\<close>

definition sq :: string where "sq = [CHR 0x27]"

definition check :: "bool \<Rightarrow> string \<Rightarrow> string list" where
  "check bad msg = (if bad then [msg] else [])"

definition validate_agent :: "AgentConfig \<Rightarrow> string list" where
  "validate_agent a =
     check (Interval a \<le> 0) ''agent.interval must be positive'' @
     check (Interface a = []) ''agent.interface is required'' @
     check (VHID a \<le> 0) ''agent.vhid must be positive'' @
     check (VIPInterface a = []) ''agent.vip_interface is required'' @
     check (RecoveryConfirm a < 0) (''agent.recovery_confirm must be >= 0, got '' @ Itoa (RecoveryConfirm a))"

definition record_types :: "string list" where
  "record_types = [''A'', ''AAAA'', ''CNAME'', ''TXT'', ''MX'', ''NS'', ''SOA'', ''PTR'', ''SRV'']"

definition validate_dns_query :: "DNSQuery \<Rightarrow> string list" where
  "validate_dns_query d =
     (if qEnabled d then
        check (qDomains d = [] \<and> qDomain d = [])
          ''health.dns_query.domain or health.dns_query.domains is required when enabled'' @
        concat (map (\<lambda>x. check (TrimSpace x = []) ''health.dns_query.domains contains an empty domain'') (qDomains d)) @
        check (qLatencyThreshold d < 0)
          (''health.dns_query.latency_threshold must be >= 0, got '' @ Duration_String (qLatencyThreshold d)) @
        check (qRecordType d \<noteq> [] \<and> ToUpper (qRecordType d) \<notin> set record_types)
          (''health.dns_query.record_type '' @ Quote (qRecordType d) @
           '' is invalid (supported: A, AAAA, CNAME, TXT, MX, NS, SOA, PTR, SRV)'')
      else [])"

definition validate_bind_addresses :: "HealthConfig \<Rightarrow> string list" where
  "validate_bind_addresses h =
     check (hBindAddress h \<noteq> [] \<and> \<not> SplitHostPort_ok (hBindAddress h))
       (''health.bind_address '' @ Quote (hBindAddress h) @ '' is not valid host:port'') @
     concat (map (\<lambda>(i, addr).
       if TrimSpace addr = [] then [''health.bind_addresses['' @ Itoa (int i) @ ''] is empty'']
       else check (\<not> SplitHostPort_ok addr)
         (''health.bind_addresses['' @ Itoa (int i) @ ''] '' @ Quote addr @ '' is not valid host:port''))
       (List.enumerate 0 (hBindAddresses h)))"

definition validateWeight :: "string \<Rightarrow> int \<Rightarrow> string list" where
  "validateWeight field v =
     check (v < 0 \<or> v > 100) (''health.weights.'' @ field @ '' must be 0-100, got '' @ Itoa v)"

definition validate_weights :: "WeightsConfig \<Rightarrow> string list" where
  "validate_weights w =
     validateWeight ''process'' (cwProcess w) @ validateWeight ''tcp'' (cwTCP w) @
     validateWeight ''udp'' (cwUDP w) @ validateWeight ''dns'' (cwDNS w)"

definition validate_process_names :: "HealthConfig \<Rightarrow> string list" where
  "validate_process_names h =
     concat (map (\<lambda>n. check (TrimSpace n = []) ''health.process_names contains an empty process name'')
       (ProcessList h))"

definition validate_tls :: "TLSServerConfig \<Rightarrow> string list" where
  "validate_tls t =
     (if tEnabled t then
        check (CertFile t = []) ''peer.tls.cert_file is required when peer.tls.enabled is true'' @
        check (KeyFile t = []) ''peer.tls.key_file is required when peer.tls.enabled is true''
      else [])"

definition validate_carp :: "CARPConfig \<Rightarrow> string list" where
  "validate_carp c =
     check (DemotionHealthy c < 0 \<or> DemotionHealthy c > 255)
       (''carp.demotion_healthy must be 0-255, got '' @ Itoa (DemotionHealthy c)) @
     check (DemotionDegraded c < 0 \<or> DemotionDegraded c > 255)
       (''carp.demotion_degraded must be 0-255, got '' @ Itoa (DemotionDegraded c)) @
     check (DemotionUnhealthy c < 0 \<or> DemotionUnhealthy c > 255)
       (''carp.demotion_unhealthy must be 0-255, got '' @ Itoa (DemotionUnhealthy c)) @
     check (DemotionUnhealthy c \<le> DemotionDegraded c)
       (''carp.demotion_unhealthy ('' @ Itoa (DemotionUnhealthy c) @ '') must be > demotion_degraded ('' @
        Itoa (DemotionDegraded c) @ '')'') @
     check (DemotionDegraded c < DemotionHealthy c)
       (''carp.demotion_degraded ('' @ Itoa (DemotionDegraded c) @ '') must be >= demotion_healthy ('' @
        Itoa (DemotionHealthy c) @ '')'')"

definition dns_port_ok :: "string \<Rightarrow> bool" where
  "dns_port_ok s \<longleftrightarrow> (case Atoi s of None \<Rightarrow> False | Some port \<Rightarrow> 1 \<le> port \<and> port \<le> 65535)"

definition validate_peer :: "PeerConfig \<Rightarrow> string list" where
  "validate_peer p =
     (if pEnabled p then
        check (Token p = []) ''peer.token is required when enabled'' @
        (if Bind p = [] then [''peer.bind is required when enabled'']
         else check (ParseIP (Bind p) = None)
           (''peer.bind '' @ Quote (Bind p) @ '' is not a valid IP address'')) @
        (if Port p = [] then [''peer.port is required when enabled'']
         else check (\<not> HasPrefix (Port p) '':'')
           (''peer.port '' @ Quote (Port p) @ '' must start with '' @ sq @ '':'' @ sq @ '' (e.g. '' @ Quote '':8845'' @ '')'')) @
        check (DNSPort p \<noteq> [] \<and> \<not> dns_port_ok (DNSPort p))
          (''peer.dns_port '' @ Quote (DNSPort p) @ '' is not a valid port number'') @
        concat (map (\<lambda>(i, e).
          check (ParseIP (eIP e) = None)
            (''peer.peers['' @ Itoa (int i) @ ''].ip '' @ Quote (eIP e) @ '' is not a valid IP'') @
          check (eName e = []) (''peer.peers['' @ Itoa (int i) @ ''].name is required''))
          (List.enumerate 0 (Peers p)))
      else [])"

definition validate_policy :: "string \<Rightarrow> string list" where
  "validate_policy mode =
     check (mode \<noteq> [] \<and> mode \<noteq> ''sticky'' \<and> mode \<noteq> ''preempt'')
       (''policy.mode must be '' @ sq @ ''sticky'' @ sq @ '' or '' @ sq @ ''preempt'' @ sq @ '', got '' @ Quote mode)"

definition validate_notify :: "NotifyConfig \<Rightarrow> string list" where
  "validate_notify n =
     (if mEnabled (Email n) then
        check (SMTPHost (Email n) = []) ''notify.email.smtp_host is required when enabled'' @
        check (From (Email n) = []) ''notify.email.from is required when enabled'' @
        check (To (Email n) = []) ''notify.email.to must have at least one recipient''
      else []) @
     (if sEnabled (Slack n) then
        check (WebhookURL (Slack n) = []) ''notify.slack.webhook_url is required when enabled''
      else []) @
     (if gEnabled (Telegram n) then
        check (BotToken (Telegram n) = []) ''notify.telegram.bot_token is required when enabled'' @
        check (ChatID (Telegram n) = []) ''notify.telegram.chat_id is required when enabled''
      else []) @
     check (nCooldown n \<le> 0) ''notify.cooldown must be positive'' @
     check (Confirm n < 0) (''notify.confirm must be >= 0 (0 = default), got '' @ Itoa (Confirm n))"

definition Validate :: "Config \<Rightarrow> string list" where
  "Validate cfg =
     validate_agent (cAgent cfg) @
     validate_dns_query (hDNSQuery (cHealth cfg)) @
     validate_bind_addresses (cHealth cfg) @
     validate_weights (hWeights (cHealth cfg)) @
     validate_process_names (cHealth cfg) @
     validate_tls (TLS (cPeer cfg)) @
     validate_carp (cCARP cfg) @
     validate_peer (cPeer cfg) @
     validate_policy (cPolicyMode cfg) @
     validate_notify (cNotify cfg)"

lemma check_nil [simp]: "check b m = [] \<longleftrightarrow> \<not> b"
  by (simp add: check_def)

end
