(* ===== verification/Peer.thy ===== *)
theory Peer
  imports Probe Json Config
begin

text \<open>
  \<open>internal/peer/peer.go\<close> and the dialler of probe.go: one poll of a peer. The heartbeat is an HTTP
  request with the shared token; an answer is decoded into the peer's health, and when there is no
  answer the peer's DNS port and its host are probed directly. The wording of a JSON decoding
  error is the only part of an answer that is a parameter.
\<close>

record CheckOptions =
  oPort :: string
  oTimeout :: duration
  oPing :: bool
  oTLS :: bool
  oDNSPort :: string
  oDNSDomain :: string

definition dnsPort :: "CheckOptions \<Rightarrow> string" where
  "dnsPort o' = (if oDNSPort o' = [] then ''53'' else oDNSPort o')"

definition peerStateFromScore :: "int \<Rightarrow> string" where
  "peerStateFromScore score =
     (if score \<ge> 80 then ''HEALTHY'' else if score \<ge> 40 then ''DEGRADED'' else ''UNHEALTHY'')"

record PeerHealth =
  phName :: string
  phIP :: string
  phScore :: int
  phState :: string
  phCarp :: string
  phAdvskew :: int
  phDemotion :: int
  phPreempt :: int
  phPingOK :: bool
  phOK :: bool
  phError :: string
  phUpdated :: instant
  phPingDetail :: string
  phAgentProbe :: Probe
  phTCP53 :: Probe
  phUDP53OK :: bool
  phSeverity :: Severity
  phDiagnosis :: string

definition new_PeerHealth :: "string \<Rightarrow> string \<Rightarrow> instant \<Rightarrow> PeerHealth" where
  "new_PeerHealth name ip now =
     \<lparr>phName = name, phIP = ip, phScore = 0, phState = [], phCarp = [], phAdvskew = 0, phDemotion = 0,
      phPreempt = 0, phPingOK = False, phOK = False, phError = [], phUpdated = now, phPingDetail = [],
      phAgentProbe = ProbeUnknown, phTCP53 = ProbeUnknown, phUDP53OK = False,
      phSeverity = SeverityNone, phDiagnosis = []\<rparr>"

text \<open>
  \<open>newDialTransport\<close> and the client on top of it. The dialler tags an error of the handshake with
  \<open>DialError\<close>; whatever fails later carries no tag. The client wraps either in a \<open>*url.Error\<close>.
\<close>

definition url_error :: "string \<Rightarrow> goerr \<Rightarrow> goerr" where
  "url_error url e = WrapErr (''Get '' @ Quote url @ '': '') e []"

definition transport_timeout :: "duration \<Rightarrow> duration" where
  "transport_timeout timeout = (if timeout \<le> 0 then 10 * second else timeout)"

definition client_Do :: "'w os \<Rightarrow> bool \<Rightarrow> duration \<Rightarrow> string \<Rightarrow> string \<Rightarrow> ('w io, goerr + http_resp) state" where
  "client_Do os tls timeout url token = do {
     outcome \<leftarrow> call (os_http_do os
        \<lparr>rq_url = url, rq_token = token, rq_skip_verify = tls,
         rq_dial_timeout = transport_timeout timeout, rq_header_timeout = transport_timeout timeout\<rparr>);
     State_Monad.return
       (case outcome of
          HttpDialFailed e \<Rightarrow> Inl (url_error url (DialError e))
        | HttpFailed e \<Rightarrow> Inl (url_error url e)
        | HttpAnswered r \<Rightarrow> Inr r)
   }"

definition health_url :: "string \<Rightarrow> CheckOptions \<Rightarrow> string" where
  "health_url ip opts =
     (let scheme = (if oTLS opts then ''https'' else ''http'')
      in if oPort opts \<noteq> [] then scheme @ ''://'' @ ip @ '':'' @ oPort opts @ ''/health''
         else scheme @ ''://'' @ ip @ ''/health'')"

text \<open>The heartbeat failed: probe the host and its DNS service.\<close>

definition probe_silent_peer :: "'w os \<Rightarrow> string \<Rightarrow> CheckOptions \<Rightarrow> goerr \<Rightarrow> PeerHealth \<Rightarrow>
    ('w io, PeerHealth) state" where
  "probe_silent_peer os ip opts err ph = do {
     let ph = ph\<lparr>phAgentProbe := classifyHTTPError (Some err)\<rparr>;
     (pingOK, detail) \<leftarrow> PingHost os ip (oTimeout opts);
     let dnsAddr = JoinHostPort ip (dnsPort opts);
     tcp \<leftarrow> probeTCP os dnsAddr (oTimeout opts);
     udp \<leftarrow> CheckUDP os dnsAddr (oDNSDomain opts) (oTimeout opts);
     let (severity, diagnosis) = Diagnose (phAgentProbe ph) tcp udp (Some pingOK);
     State_Monad.return
       (ph\<lparr>phPingOK := pingOK, phPingDetail := detail, phTCP53 := tcp, phUDP53OK := udp,
           phSeverity := severity, phDiagnosis := diagnosis,
           phError := diagnosis @ '': '' @ Error err\<rparr>)
   }"

definition read_heartbeat :: "(string \<Rightarrow> goerr) \<Rightarrow> http_resp \<Rightarrow> PeerHealth \<Rightarrow> PeerHealth" where
  "read_heartbeat json_err resp ph =
     (if rs_status resp \<noteq> 200 then
        ph\<lparr>phError := ''HTTP '' @ Itoa (rs_status resp) @ '': '' @ rs_body resp\<rparr>
      else
        (case decode_heartbeat (rs_body resp) of
           None \<Rightarrow> ph\<lparr>phError := ''decode response: '' @ Error (json_err (rs_body resp))\<rparr>
         | Some h \<Rightarrow>
             ph\<lparr>phScore := hbScore h, phCarp := hbCarpState h, phAdvskew := hbAdvskew h,
                phDemotion := hbDemotion h, phPreempt := hbPreempt h,
                phState := peerStateFromScore (hbScore h), phPingOK := True, phOK := True\<rparr>))"

definition CheckPeer :: "'w os \<Rightarrow> (string \<Rightarrow> goerr) \<Rightarrow> string \<Rightarrow> string \<Rightarrow> string \<Rightarrow> CheckOptions \<Rightarrow>
    ('w io, PeerHealth) state" where
  "CheckPeer os json_err ip name token opts = do {
     now \<leftarrow> call (os_now os);
     let ph = new_PeerHealth name ip now;
     let u = health_url ip opts;
     case os_new_request os u of
       Some e \<Rightarrow> State_Monad.return (ph\<lparr>phError := ''create request: '' @ Error e\<rparr>)
     | None \<Rightarrow> do {
         r \<leftarrow> client_Do os (oTLS opts) (oTimeout opts) u token;
         case r of
           Inl err \<Rightarrow> probe_silent_peer os ip opts err ph
         | Inr resp \<Rightarrow> State_Monad.return (read_heartbeat json_err resp ph)
       }
   }"

definition CheckAllPeers :: "'w os \<Rightarrow> (string \<Rightarrow> goerr) \<Rightarrow> PeerEntry list \<Rightarrow> CheckOptions \<Rightarrow>
    ('w io, PeerHealth list) state" where
  "CheckAllPeers os json_err peers opts =
     State_Monad.traverse_list (\<lambda>p. CheckPeer os json_err (eIP p) (eName p) (eToken p) opts) peers"

section \<open>Polling only looks\<close>

context reading
begin

lemma keeps_probe_silent_peer [effect_intros]: "keeps R (probe_silent_peer os ip opts err ph)"
  unfolding probe_silent_peer_def by (intro effect_intros)

lemma keeps_CheckPeer [effect_intros]: "keeps R (CheckPeer os json_err ip name token opts)"
  unfolding CheckPeer_def client_Do_def by (intro effect_intros)

lemma keeps_CheckAllPeers [effect_intros]: "keeps R (CheckAllPeers os json_err ps opts)"
  unfolding CheckAllPeers_def by (intro effect_intros)

end

end
