(* ===== verification/Carp.thy ===== *)
theory Carp
  imports OS Regexp NetIP
begin

text \<open>
  \<open>internal/carp\<close>: reading the state, the advskew and the addresses of a CARP group from the
  output of \<open>ifconfig\<close> (carp.go), reading and writing the demotion counter with \<open>sysctl\<close>
  (demotion.go), and taking an interface up or down (iface.go).
\<close>

section \<open>CARP states and the patterns over ifconfig's output\<close>

datatype carp_state = StateUnknown | StateMaster | StateBackup

fun carp_String :: "carp_state \<Rightarrow> string" where
  "carp_String StateMaster = ''MASTER''"
| "carp_String StateBackup = ''BACKUP''"
| "carp_String StateUnknown = ''UNKNOWN''"

definition carpStateVhidRe :: regex where
  "carpStateVhidRe = SeqL [Lit ''carp:'', PlusC is_space,
     Cap (Alt (Lit ''MASTER'') (Alt (Lit ''BACKUP'') (Lit ''INIT''))), PlusC is_space,
     Lit ''vhid'', PlusC is_space, Cap (PlusC is_digit)]"

definition carpStateRe :: regex where
  "carpStateRe = SeqL [Lit ''carp:'', PlusC is_space, Cap (Alt (Lit ''MASTER'') (Lit ''BACKUP''))]"

definition vhidVIP4Re :: regex where
  "vhidVIP4Re = SeqL [Lit ''inet'', PlusC is_space, Cap (PlusC is_nonspace), PlusC is_space,
     StarC is_dot, Lit ''vhid'', PlusC is_space, Cap (PlusC is_digit)]"

definition vhidVIP6Re :: regex where
  "vhidVIP6Re = SeqL [Lit ''inet6'', PlusC is_space, Cap (PlusC is_nonspace), PlusC is_space,
     StarC is_dot, Lit ''vhid'', PlusC is_space, Cap (PlusC is_digit)]"

definition inetRe :: regex where
  "inetRe = SeqL [Lit ''inet'', PlusC is_space, Cap (PlusC is_nonspace)]"

definition advskewRe :: regex where
  "advskewRe = SeqL [Lit ''carp:'', StarC is_dot, Lit ''vhid'', PlusC is_space, Cap (PlusC is_digit),
     StarC is_dot, Lit ''advskew'', PlusC is_space, Cap (PlusC is_digit)]"

lemmas carp_patterns = carpStateVhidRe_def carpStateRe_def vhidVIP4Re_def vhidVIP6Re_def
  inetRe_def advskewRe_def PlusC_def

section \<open>Parsing\<close>

definition parseCarpState :: "string \<Rightarrow> int \<Rightarrow> carp_state" where
  "parseCarpState out vhid =
     (let vhidStr = Itoa vhid;
          state = (case find (\<lambda>m. m ! 2 = vhidStr) (FindAllStringSubmatch carpStateVhidRe out) of
                     Some m \<Rightarrow> m ! 1 | None \<Rightarrow> []);
          state = (if state = [] then
                     (case FindStringSubmatch carpStateRe out of
                        Some m \<Rightarrow> if length m \<ge> 2 then m ! 1 else state
                      | None \<Rightarrow> state)
                   else state)
      in if state = ''MASTER'' then StateMaster
         else if state = ''BACKUP'' then StateBackup
         else StateUnknown)"

definition ifconfig_error :: "string \<Rightarrow> goerr \<Rightarrow> goerr" where
  "ifconfig_error iface e = WrapErr (''ifconfig '' @ iface @ '': '') e []"

definition ReadState :: "'w os \<Rightarrow> string \<Rightarrow> int \<Rightarrow> ('w io, goerr + carp_state) state" where
  "ReadState os iface vhid = do {
     result \<leftarrow> ExecTimeout os (5 * second) ''ifconfig'' [iface];
     State_Monad.return
       (case Err result of
          Some e \<Rightarrow> Inl (WrapErr (''ifconfig '' @ iface @ '': '') e ('' (stderr: '' @ Stderr result @ '')''))
        | None \<Rightarrow>
            if \<not> MatchString carpStateRe (Stdout result) \<and> \<not> MatchString carpStateVhidRe (Stdout result)
            then Inl (OpaqueErr (''no carp state found for vhid '' @ Itoa vhid @ '' on interface '' @ iface))
            else Inr (parseCarpState (Stdout result) vhid))
   }"

fun first_node_ip :: "string list \<Rightarrow> string option" where
  "first_node_ip [] = None"
| "first_node_ip (l # ls) =
     (let line = TrimSpace l in
      if \<not> Contains line ''vhid'' then
        (case FindStringSubmatch inetRe line of
           Some m \<Rightarrow> (case ParseIP (m ! 1) of Some ip \<Rightarrow> Some (IP_String ip) | None \<Rightarrow> first_node_ip ls)
         | None \<Rightarrow> first_node_ip ls)
      else first_node_ip ls)"

text \<open>Where the code returns a value beside an error and its caller drops the error, so does the model.\<close>

definition GetNodeIP :: "'w os \<Rightarrow> string \<Rightarrow> ('w io, string \<times> goerr option) state" where
  "GetNodeIP os iface = do {
     result \<leftarrow> ExecTimeout os (5 * second) ''ifconfig'' [iface];
     State_Monad.return
       (case Err result of
          Some e \<Rightarrow> ([], Some (ifconfig_error iface e))
        | None \<Rightarrow>
            (case first_node_ip (Split (Stdout result) (CHR ''\<newline>'')) of
               Some ip \<Rightarrow> (ip, None)
             | None \<Rightarrow> ([], Some (OpaqueErr (''no non-VIP IP found on '' @ iface)))))
   }"

definition line_vips :: "string \<Rightarrow> string \<Rightarrow> string list" where
  "line_vips vhidStr l =
     (let line = TrimSpace l in
      concat (map (\<lambda>re. case FindStringSubmatch re line of
                          Some m \<Rightarrow> if m ! 2 = vhidStr
                                    then (case ParseIP (m ! 1) of Some ip \<Rightarrow> [IP_String ip] | None \<Rightarrow> [])
                                    else []
                        | None \<Rightarrow> [])
               [vhidVIP4Re, vhidVIP6Re]))"

definition parseVIPs :: "string \<Rightarrow> int \<Rightarrow> string list" where
  "parseVIPs out vhid = concat (map (line_vips (Itoa vhid)) (Split out (CHR ''\<newline>'')))"

definition GetVIP :: "'w os \<Rightarrow> string \<Rightarrow> int \<Rightarrow> ('w io, string \<times> goerr option) state" where
  "GetVIP os iface vhid = do {
     result \<leftarrow> ExecTimeout os (5 * second) ''ifconfig'' [iface];
     State_Monad.return
       (case Err result of
          Some e \<Rightarrow> ([], Some (ifconfig_error iface e))
        | None \<Rightarrow>
            (let vips = parseVIPs (Stdout result) vhid in
             if vips = [] then
               ([], Some (OpaqueErr (''no VIP found for vhid '' @ Itoa vhid @ '' on '' @ iface)))
             else (Join vips '', '', None)))
   }"

fun first_advskew :: "string \<Rightarrow> string list \<Rightarrow> int option" where
  "first_advskew vhidStr [] = None"
| "first_advskew vhidStr (l # ls) =
     (case FindStringSubmatch advskewRe l of
        Some m \<Rightarrow> if m ! 1 = vhidStr then Atoi (m ! 2) else first_advskew vhidStr ls
      | None \<Rightarrow> first_advskew vhidStr ls)"

definition parseAdvskew :: "string \<Rightarrow> int \<Rightarrow> int option" where
  "parseAdvskew out vhid = first_advskew (Itoa vhid) (Split out (CHR ''\<newline>''))"

definition GetAdvskew :: "'w os \<Rightarrow> string \<Rightarrow> int \<Rightarrow> ('w io, int \<times> goerr option) state" where
  "GetAdvskew os iface vhid = do {
     result \<leftarrow> ExecTimeout os (5 * second) ''ifconfig'' [iface];
     State_Monad.return
       (case Err result of
          Some e \<Rightarrow> (0, Some (ifconfig_error iface e))
        | None \<Rightarrow>
            (case parseAdvskew (Stdout result) vhid of
               Some skew \<Rightarrow> (skew, None)
             | None \<Rightarrow> (0, Some (OpaqueErr (''no advskew found for vhid '' @ Itoa vhid @ '' on '' @ iface)))))
   }"

section \<open>The demotion counter\<close>

definition parseSysctlInt :: "string \<Rightarrow> int \<times> goerr option" where
  "parseSysctlInt out =
     (case Atoi_clip (TrimSpace out) of
        (n, ok) \<Rightarrow> (n, if ok then None
                       else Some (OpaqueErr (''strconv.Atoi: parsing '' @ Quote (TrimSpace out)))))"

definition sysctl_error :: "string \<Rightarrow> goerr \<Rightarrow> string \<Rightarrow> goerr" where
  "sysctl_error what e err = WrapErr (what @ '': '') e ('' (stderr: '' @ err @ '')'')"

definition GetPreempt :: "'w os \<Rightarrow> ('w io, int \<times> goerr option) state" where
  "GetPreempt os = do {
     result \<leftarrow> Exec os ''sysctl'' [''-n'', ''net.inet.carp.preempt''];
     State_Monad.return
       (case Err result of
          Some e \<Rightarrow> (0, Some (sysctl_error ''get preempt'' e (Stderr result)))
        | None \<Rightarrow> parseSysctlInt (Stdout result))
   }"

definition GetDemotion :: "'w os \<Rightarrow> ('w io, int \<times> goerr option) state" where
  "GetDemotion os = do {
     result \<leftarrow> Exec os ''sysctl'' [''-n'', ''net.inet.carp.demotion''];
     State_Monad.return
       (case Err result of
          Some e \<Rightarrow> (0, Some (sysctl_error ''get demotion'' e (Stderr result)))
        | None \<Rightarrow> parseSysctlInt (Stdout result))
   }"

definition writeDemotion :: "'w os \<Rightarrow> int \<Rightarrow> ('w io, goerr option) state" where
  "writeDemotion os delta = do {
     result \<leftarrow> Exec os ''sysctl'' [''net.inet.carp.demotion='' @ Itoa delta];
     State_Monad.return
       (case Err result of
          Some e \<Rightarrow> Some (sysctl_error (''set demotion delta '' @ Itoa delta) e (Stderr result))
        | None \<Rightarrow> None)
   }"

definition SetDemotion :: "'w os \<Rightarrow> int \<Rightarrow> ('w io, goerr option) state" where
  "SetDemotion os target = do {
     (current, err) \<leftarrow> GetDemotion os;
     if err \<noteq> None then writeDemotion os target
     else if current = target then State_Monad.return None
     else writeDemotion os (i64 (target - current))
   }"

section \<open>The interface\<close>

definition InterfaceDown :: "'w os \<Rightarrow> string \<Rightarrow> ('w io, goerr option) state" where
  "InterfaceDown os iface = do {
     result \<leftarrow> ExecTimeout os (5 * second) ''ifconfig'' [iface, ''down''];
     State_Monad.return
       (case Err result of
          Some e \<Rightarrow> Some (WrapErr (''ifconfig '' @ iface @ '' down: '') e ('' (stderr: '' @ Stderr result @ '')''))
        | None \<Rightarrow> None)
   }"

definition InterfaceUp :: "'w os \<Rightarrow> string \<Rightarrow> ('w io, goerr option) state" where
  "InterfaceUp os iface = do {
     result \<leftarrow> ExecTimeout os (5 * second) ''ifconfig'' [iface, ''up''];
     State_Monad.return
       (case Err result of
          Some e \<Rightarrow> Some (WrapErr (''ifconfig '' @ iface @ '' up: '') e ('' (stderr: '' @ Stderr result @ '')''))
        | None \<Rightarrow> None)
   }"

section \<open>What the operations do to the machine\<close>

lemmas carp_readers = ReadState_def GetNodeIP_def GetVIP_def GetAdvskew_def GetPreempt_def GetDemotion_def

context reading
begin

lemma keeps_carp_readers [effect_intros]:
  "keeps R (ReadState os iface vhid)" "keeps R (GetNodeIP os iface)" "keeps R (GetVIP os iface vhid)"
  "keeps R (GetAdvskew os iface vhid)" "keeps R (GetPreempt os)" "keeps R (GetDemotion os)"
  unfolding carp_readers by (intro effect_intros; simp)+

end

context acting
begin

lemma keeps_carp_writers [effect_intros]:
  "keeps R (InterfaceDown os iface)" "keeps R (InterfaceUp os iface)"
  "keeps R (writeDemotion os d)" "keeps R (SetDemotion os d)"
  unfolding InterfaceDown_def InterfaceUp_def writeDemotion_def SetDemotion_def
  by (intro effect_intros)+

end

definition ev_down :: "string \<Rightarrow> event" where "ev_down iface = EvExec ''ifconfig'' [iface, ''down'']"
definition ev_up :: "string \<Rightarrow> event" where "ev_up iface = EvExec ''ifconfig'' [iface, ''up'']"
definition ev_demotion :: "int \<Rightarrow> event" where
  "ev_demotion delta = EvExec ''sysctl'' [''net.inet.carp.demotion='' @ Itoa delta]"

lemmas ev_defs = ev_down_def ev_up_def ev_demotion_def

lemma actions_InterfaceDown [simp]:
  "actions (snd (run_state (InterfaceDown os iface) s)) = actions s @ [ev_down iface]"
  by (simp add: InterfaceDown_def case_prod_beta ExecTimeout_actions ev_defs)

lemma actions_InterfaceUp [simp]:
  "actions (snd (run_state (InterfaceUp os iface) s)) = actions s @ [ev_up iface]"
  by (simp add: InterfaceUp_def case_prod_beta ExecTimeout_actions ev_defs)

lemma actions_writeDemotion [simp]:
  "actions (snd (run_state (writeDemotion os delta) s)) = actions s @ [ev_demotion delta]"
  by (simp add: writeDemotion_def case_prod_beta Exec_actions ev_defs)

text \<open>\<open>SetDemotion\<close> writes at most once, and nothing else.\<close>

lemma actions_SetDemotion:
  "\<exists>ds. length ds \<le> 1 \<and> actions (snd (run_state (SetDemotion os target) s)) = actions s @ map ev_demotion ds"
proof -
  let ?g = "run_state (GetDemotion os) s"
  let ?s1 = "snd ?g"
  have a: "actions ?s1 = actions s"
    by (rule quietD) (rule effect_intros)
  consider (delta) d where "snd (run_state (SetDemotion os target) s) = snd (run_state (writeDemotion os d) ?s1)"
    | (same) "snd (run_state (SetDemotion os target) s) = ?s1"
    by (cases "snd (fst ?g) = None"; cases "fst (fst ?g) = target")
      (simp_all add: SetDemotion_def case_prod_beta)
  then show ?thesis
  proof cases
    case (delta d)
    with a show ?thesis by (intro exI [of _ "[d]"]) simp
  next
    case same
    with a show ?thesis by (intro exI [of _ "[]"]) simp
  qed
qed

section \<open>The kernel's side\<close>

text \<open>
  What FreeBSD documents of \<open>net.inet.carp.demotion\<close> (\<open>carp(4)\<close>): reading prints the counter,
  and a value written is added to it. \<open>dem\<close> reads the counter off the machine's state.
\<close>

definition command_ok :: "cmd_result \<Rightarrow> bool" where
  "command_ok r \<longleftrightarrow> cr_err r = None \<and> cr_ctx r = None"

definition additive_demotion :: "'w os \<Rightarrow> ('w \<Rightarrow> int) \<Rightarrow> bool" where
  "additive_demotion os dem \<longleftrightarrow>
     (\<forall>w t. let (r, w') = os_run os ''sysctl'' [''-n'', ''net.inet.carp.demotion''] t w in
        command_ok r \<and> cr_stdout r = Itoa (dem w) @ ''\<newline>'' \<and> dem w' = dem w) \<and>
     (\<forall>w t d. let (r, w') = os_run os ''sysctl'' [''net.inet.carp.demotion='' @ Itoa d] t w in
        command_ok r \<and> dem w' = dem w + d)"

lemma additive_demotionD:
  assumes "additive_demotion os dem"
  shows "command_ok (fst (os_run os ''sysctl'' [''-n'', ''net.inet.carp.demotion''] t w))"
    and "cr_stdout (fst (os_run os ''sysctl'' [''-n'', ''net.inet.carp.demotion''] t w)) = Itoa (dem w) @ ''\<newline>''"
    and "dem (snd (os_run os ''sysctl'' [''-n'', ''net.inet.carp.demotion''] t w)) = dem w"
    and "command_ok (fst (os_run os ''sysctl'' [''net.inet.carp.demotion='' @ Itoa d] t w))"
    and "dem (snd (os_run os ''sysctl'' [''net.inet.carp.demotion='' @ Itoa d] t w)) = dem w + d"
  using assms unfolding additive_demotion_def by (auto simp: Let_def case_prod_beta)

lemma parseSysctlInt_Itoa: "int64 n \<Longrightarrow> parseSysctlInt (Itoa n @ ''\<newline>'') = (n, None)"
  by (simp add: parseSysctlInt_def TrimSpace_newline Itoa_hd_plain Itoa_last_plain Atoi_Itoa_clip)

lemma GetDemotion_additive:
  assumes "additive_demotion os dem" and "int64 (dem (io_world s))"
  shows "fst (run_state (GetDemotion os) s) = (dem (io_world s), None)"
    and "dem (io_world (snd (run_state (GetDemotion os) s))) = dem (io_world s)"
  using additive_demotionD(1-3) [OF assms(1), where w = "io_world s"] assms(2)
  by (simp_all add: GetDemotion_def Exec_def ExecTimeout_def Let_def case_prod_beta command_ok_def
      parseSysctlInt_Itoa)

lemma writeDemotion_additive:
  assumes "additive_demotion os dem"
  shows "fst (run_state (writeDemotion os d) s) = None"
    and "dem (io_world (snd (run_state (writeDemotion os d) s))) = dem (io_world s) + d"
  using additive_demotionD(4,5) [OF assms, where d = d and w = "io_world s"]
  by (simp_all add: writeDemotion_def Exec_def ExecTimeout_def Let_def case_prod_beta command_ok_def)

text \<open>Whatever the counter stood at, a call of \<open>SetDemotion\<close> whose difference fits a machine integer
  leaves it at the target and reports no error, although the kernel only adds.\<close>

lemma SetDemotion_additive:
  assumes "additive_demotion os dem"
    and "int64 (dem (io_world s))" and "int64 (target - dem (io_world s))"
  shows "fst (run_state (SetDemotion os target) s) = None"
    and "dem (io_world (snd (run_state (SetDemotion os target) s))) = target"
  using GetDemotion_additive [OF assms(1,2)] writeDemotion_additive [OF assms(1)] assms(3)
  by (simp_all add: SetDemotion_def case_prod_beta i64_id)

end
