(* ===== verification/Policy.thy ===== *)
theory Policy
  imports Peer Carp
begin

text \<open>
  \<open>internal/agent/state.go\<close> and \<open>policy.go\<close>: the state of a node read off its score, the posture
  the policy asks for (a demotion level, and whether the VIP interface is down), and the hold that
  keeps a recovering node back until it has been fully healthy for long enough.
\<close>

section \<open>The state of a node\<close>

datatype State = StateHealthy | StateDegraded | StateUnhealthy

fun State_String :: "State \<Rightarrow> string" where
  "State_String StateHealthy = ''HEALTHY''"
| "State_String StateDegraded = ''DEGRADED''"
| "State_String StateUnhealthy = ''UNHEALTHY''"

definition Transitioned :: "State \<Rightarrow> State \<Rightarrow> bool" where
  "Transitioned s from_state \<longleftrightarrow> s \<noteq> from_state"

definition StateFromScore :: "int \<Rightarrow> State" where
  "StateFromScore score =
     (if score \<ge> 80 then StateHealthy else if score \<ge> 40 then StateDegraded else StateUnhealthy)"

lemma State_String_inject [simp]: "State_String a = State_String b \<longleftrightarrow> a = b"
  by (cases a; cases b) simp_all

text \<open>States are ordered from the best to the worst.\<close>

fun badness :: "State \<Rightarrow> nat" where
  "badness StateHealthy = 0"
| "badness StateDegraded = 1"
| "badness StateUnhealthy = 2"

lemma badness_inject: "badness a = badness b \<Longrightarrow> a = b"
  by (cases a; cases b) simp_all

instantiation State :: linorder
begin

definition less_eq_State :: "State \<Rightarrow> State \<Rightarrow> bool" where
  "less_eq_State a b \<longleftrightarrow> badness a \<le> badness b"

definition less_State :: "State \<Rightarrow> State \<Rightarrow> bool" where
  "less_State a b \<longleftrightarrow> badness a < badness b"

instance
  by standard (auto simp: less_eq_State_def less_State_def intro: badness_inject)

end

text \<open>
  The program sorts scores into bands in two places, for the node itself and for a peer. The
  contract of both is the locale \<open>score_bands\<close>.
\<close>

locale score_bands =
  fixes band :: "int \<Rightarrow> 'b" and good fair bad :: 'b
  assumes band_good: "80 \<le> s \<Longrightarrow> band s = good"
    and band_fair: "40 \<le> s \<Longrightarrow> s < 80 \<Longrightarrow> band s = fair"
    and band_bad: "s < 40 \<Longrightarrow> band s = bad"
    and bands_differ: "good \<noteq> fair" "good \<noteq> bad" "fair \<noteq> bad"
begin

lemma band_good_iff: "band s = good \<longleftrightarrow> 80 \<le> s"
  using band_good band_fair band_bad bands_differ by (metis not_le)

lemma band_bad_iff: "band s = bad \<longleftrightarrow> s < 40"
  using band_good band_fair band_bad bands_differ by (metis not_le)

lemma band_fair_iff: "band s = fair \<longleftrightarrow> 40 \<le> s \<and> s < 80"
  using band_good band_fair band_bad bands_differ by (metis not_le)

lemma band_cases: "band s = good \<or> band s = fair \<or> band s = bad"
  using band_good band_fair band_bad by (metis not_le)

lemma bands_agree:
  assumes "score_bands band' good' fair' bad'" and "f good = good'" "f fair = fair'" "f bad = bad'"
  shows "f (band s) = band' s"
  using assms band_cases [of s] score_bands.band_good_iff [OF assms(1), of s]
    score_bands.band_fair_iff [OF assms(1), of s] score_bands.band_bad_iff [OF assms(1), of s]
    band_good_iff band_fair_iff band_bad_iff by metis

end

interpretation node: score_bands StateFromScore StateHealthy StateDegraded StateUnhealthy
  by unfold_locales (simp_all add: StateFromScore_def)

interpretation peer_node: score_bands peerStateFromScore "''HEALTHY''" "''DEGRADED''" "''UNHEALTHY''"
  by unfold_locales (simp_all add: peerStateFromScore_def)

lemma band_names: "State_String (StateFromScore s) = peerStateFromScore s"
  by (rule node.bands_agree [OF peer_node.score_bands_axioms]) simp_all

section \<open>The policy\<close>

datatype PolicyMode = PolicySticky | PolicyPreempt

definition ParsePolicyMode :: "string \<Rightarrow> PolicyMode" where
  "ParsePolicyMode mode = (if mode = ''preempt'' then PolicyPreempt else PolicySticky)"

record DemotionLevels =
  dlHealthy :: int
  dlDegraded :: int
  dlUnhealthy :: int

record PolicyDecision =
  DesiredDemotion :: int
  DesiredIfaceDown :: bool
  Action :: string

definition action_text :: "string \<Rightarrow> int \<Rightarrow> string \<Rightarrow> string" where
  "action_text label d tail = label @ '' '' @ em_dash @ '' demotion '' @ Itoa d @ tail"

definition hasHealthierPeer :: "int \<Rightarrow> PeerHealth list \<Rightarrow> bool" where
  "hasHealthierPeer score peerHealths \<longleftrightarrow> list_ex (\<lambda>ph. phOK ph \<and> phScore ph > score) peerHealths"

definition EvaluatePolicy :: "PolicyMode \<Rightarrow> int \<Rightarrow> carp_state \<Rightarrow> PeerHealth list \<Rightarrow> DemotionLevels \<Rightarrow> PolicyDecision" where
  "EvaluatePolicy mode score carpState peerHealths demotion =
     (if StateFromScore score = StateUnhealthy then
        \<lparr>DesiredDemotion = dlUnhealthy demotion, DesiredIfaceDown = True,
         Action = action_text ''unhealthy'' (dlUnhealthy demotion) '', vip_iface down''\<rparr>
      else if StateFromScore score = StateDegraded then
        \<lparr>DesiredDemotion = dlDegraded demotion, DesiredIfaceDown = False,
         Action = action_text ''degraded'' (dlDegraded demotion) '', vip_iface up''\<rparr>
      else
        (case mode of
           PolicySticky \<Rightarrow>
             \<lparr>DesiredDemotion = dlHealthy demotion, DesiredIfaceDown = False,
              Action = action_text ''healthy/sticky'' (dlHealthy demotion) '', vip_iface up''\<rparr>
         | PolicyPreempt \<Rightarrow>
             if hasHealthierPeer score peerHealths \<and> carpState = StateMaster then
               \<lparr>DesiredDemotion = dlDegraded demotion, DesiredIfaceDown = False,
                Action = ''preempt '' @ em_dash @ '' healthier peer exists, demotion '' @ Itoa (dlDegraded demotion)\<rparr>
             else
               \<lparr>DesiredDemotion = dlHealthy demotion, DesiredIfaceDown = False,
                Action = action_text ''healthy/preempt'' (dlHealthy demotion) '', vip_iface up''\<rparr>))"

section \<open>The recovery hold\<close>

definition DefaultRecoveryConfirm :: int where "DefaultRecoveryConfirm = 3"
definition DefaultNotifyConfirm :: int where "DefaultNotifyConfirm = 3"

definition applyRecoveryHold :: "PolicyMode \<Rightarrow> PolicyDecision \<Rightarrow> bool \<Rightarrow> int \<Rightarrow> int \<Rightarrow> int \<Rightarrow> int \<Rightarrow> DemotionLevels \<Rightarrow>
    PolicyDecision \<times> int \<times> bool" where
  "applyRecoveryHold mode decision ifaceWasDown rawScore maxScore confirm streak demotion =
     (let reclaiming = (ifaceWasDown \<and> \<not> DesiredIfaceDown decision)
      in if confirm \<le> 0 \<or> mode \<noteq> PolicyPreempt \<or> \<not> reclaiming then (decision, 0, False)
         else (let full = (maxScore > 0 \<and> rawScore \<ge> maxScore);
                   streak = (if full then i64 (streak + 1) else 0)
               in if full \<and> streak \<ge> confirm then (decision, streak, False)
                  else (\<lparr>DesiredDemotion = dlUnhealthy demotion, DesiredIfaceDown = True,
                         Action = ''recovery-hold '' @ em_dash @ '' '' @ Itoa streak @ ''/'' @ Itoa confirm @
                           '' stable checks (score '' @ Itoa rawScore @ ''/'' @ Itoa maxScore @
                           ''), demotion '' @ Itoa (dlUnhealthy demotion) @ '', vip_iface down''\<rparr>,
                        streak, True)))"

section \<open>Lemmas\<close>

lemma EvaluatePolicy_down: "DesiredIfaceDown (EvaluatePolicy mode score cs phs dl) \<longleftrightarrow> score < 40"
  by (simp add: EvaluatePolicy_def node.band_bad_iff split: PolicyMode.split)

lemma EvaluatePolicy_demotion:
  "DesiredDemotion (EvaluatePolicy mode score cs phs dl) =
     (if score < 40 then dlUnhealthy dl
      else if score < 80 \<or> mode = PolicyPreempt \<and> cs = StateMaster \<and> hasHealthierPeer score phs then dlDegraded dl
      else dlHealthy dl)"
  by (auto simp: EvaluatePolicy_def node.band_bad_iff node.band_fair_iff split: PolicyMode.split)

lemma hold_down:
  "DesiredIfaceDown (fst (applyRecoveryHold mode d was raw mx confirm streak dl)) \<longleftrightarrow>
     DesiredIfaceDown d \<or> snd (snd (applyRecoveryHold mode d was raw mx confirm streak dl))"
  by (simp add: applyRecoveryHold_def Let_def)

lemma hold_keeps_down:
  "DesiredIfaceDown d \<Longrightarrow> applyRecoveryHold mode d was raw mx confirm streak dl = (d, 0, False)"
  by (simp add: applyRecoveryHold_def Let_def)

lemma hold_demotion:
  "DesiredDemotion (fst (applyRecoveryHold mode d was raw mx confirm streak dl)) =
     (if snd (snd (applyRecoveryHold mode d was raw mx confirm streak dl)) then dlUnhealthy dl else DesiredDemotion d)"
  by (simp add: applyRecoveryHold_def Let_def)

text \<open>A held node was down, asked to come up, and is one check short of the confirmation.\<close>

lemma hold_released:
  assumes "applyRecoveryHold PolicyPreempt d True raw mx confirm streak dl = (d', streak', False)"
    and "\<not> DesiredIfaceDown d" "0 < confirm"
  shows "d' = d \<and> 0 < mx \<and> mx \<le> raw \<and> confirm \<le> streak' \<and> streak' = i64 (streak + 1)"
  using assms by (auto simp: applyRecoveryHold_def Let_def split: if_splits)

end
