(* ===== verification/StateFile.thy ===== *)
theory StateFile
  imports Policy
begin

text \<open>
  \<open>internal/agent/state_file.go\<close>: the last announced state on disk. The file is written beside its
  final name and renamed over it.
\<close>

definition format_state :: "State \<Rightarrow> string" where
  "format_state s = ''dns-ha-agent state v1'' @ [CHR 0x0A] @ ''state='' @ State_String s @ [CHR 0x0A]"

fun parse_state :: "string list \<Rightarrow> State option" where
  "parse_state [] = None"
| "parse_state (line # rest) =
     (if HasPrefix line ''state='' then
        (let v = TrimSpace (TrimPrefix line ''state='')
         in if v = State_String StateHealthy then Some StateHealthy
            else if v = State_String StateDegraded then Some StateDegraded
            else if v = State_String StateUnhealthy then Some StateUnhealthy
            else parse_state rest)
      else parse_state rest)"

definition loadState :: "'w os \<Rightarrow> string \<Rightarrow> ('w io, State \<times> bool) state" where
  "loadState os path = do {
     r \<leftarrow> call (os_read_file os path);
     State_Monad.return
       (case r of
          Inl e \<Rightarrow> (StateHealthy, False)
        | Inr data \<Rightarrow>
            (case parse_state (Split data (CHR 0x0A)) of
               Some s \<Rightarrow> (s, True)
             | None \<Rightarrow> (StateHealthy, False)))
   }"

definition saveState :: "'w os \<Rightarrow> string \<Rightarrow> State \<Rightarrow> ('w io, goerr option) state" where
  "saveState os path s = do {
     let tmp = path @ ''.tmp'';
     emit (EvWriteFile tmp (format_state s));
     err \<leftarrow> call (os_write_file os tmp (format_state s));
     if err \<noteq> None then State_Monad.return err
     else do {
       emit (EvRename tmp path);
       call (os_rename os tmp path)
     }
   }"

context reading
begin

lemma keeps_loadState [effect_intros]: "keeps R (loadState os path)"
  unfolding loadState_def by (intro effect_intros)

end

context reporting
begin

lemma keeps_saveState [effect_intros]: "keeps R (saveState os path st)"
  unfolding saveState_def by (intro effect_intros)

end

section \<open>The file system\<close>

text \<open>
  What is used of a file system: \<open>files\<close> reads the contents off the machine's state. A write that
  succeeds stores the text, and one that fails may damage the file it writes and no other; a rename
  moves a file to another name or changes nothing; a read reports what is there.
\<close>

definition filesystem :: "'w os \<Rightarrow> ('w \<Rightarrow> string \<rightharpoonup> string) \<Rightarrow> bool" where
  "filesystem os files \<longleftrightarrow>
     (\<forall>w p d q. q \<noteq> p \<longrightarrow> files (snd (os_write_file os p d w)) q = files w q) \<and>
     (\<forall>w p d. fst (os_write_file os p d w) = None \<longrightarrow> files (snd (os_write_file os p d w)) p = Some d) \<and>
     (\<forall>w p q. p \<noteq> q \<longrightarrow> files (snd (os_rename os p q w)) =
        (if fst (os_rename os p q w) = None then (files w)(q := files w p, p := None) else files w)) \<and>
     (\<forall>w p d. files w p = Some d \<longrightarrow> fst (os_read_file os p w) = Inr d)"

lemma filesystemD:
  assumes "filesystem os files"
  shows "q \<noteq> p \<Longrightarrow> files (snd (os_write_file os p d w)) q = files w q"
    and "fst (os_write_file os p d w) = None \<Longrightarrow> files (snd (os_write_file os p d w)) p = Some d"
    and "p \<noteq> q \<Longrightarrow> files (snd (os_rename os p q w)) =
      (if fst (os_rename os p q w) = None then (files w)(q := files w p, p := None) else files w)"
    and "files w p = Some d \<Longrightarrow> fst (os_read_file os p w) = Inr d"
  using assms unfolding filesystem_def by simp_all

lemma parse_format_each:
  "parse_state (Split (format_state StateHealthy) (CHR 0x0A)) = Some StateHealthy"
  "parse_state (Split (format_state StateDegraded) (CHR 0x0A)) = Some StateDegraded"
  "parse_state (Split (format_state StateUnhealthy) (CHR 0x0A)) = Some StateUnhealthy"
  by code_simp+

lemma parse_format: "parse_state (Split (format_state s) (CHR 0x0A)) = Some s"
  using parse_format_each by (cases s) simp_all

lemma tmp_differs [simp]: "path \<noteq> path @ ''.tmp''" "path @ ''.tmp'' \<noteq> path"
  by simp_all

lemma loadState_after_save:
  assumes "filesystem os files" and "run_state (saveState os path st) s = (None, s')"
  shows "fst (run_state (loadState os path) s') = (st, True)"
proof -
  let ?t = "path @ ''.tmp''"
  let ?w1 = "os_write_file os ?t (format_state st) (io_world s)"
  let ?w2 = "os_rename os ?t path (snd ?w1)"
  from assms(2) have ok: "fst ?w1 = None" "fst ?w2 = None" and w: "io_world s' = snd ?w2"
    by (auto simp: saveState_def Let_def case_prod_beta split: if_splits)
  have "files (snd ?w2) path = Some (format_state st)"
    using filesystemD(2) [OF assms(1) ok(1)] filesystemD(3) [OF assms(1)] ok(2) by simp
  with w have "fst (os_read_file os path (io_world s')) = Inr (format_state st)"
    using filesystemD(4) [OF assms(1)] by simp
  then show ?thesis by (simp add: loadState_def case_prod_beta parse_format)
qed

text \<open>C6. A state that was saved without an error is the state a restarted agent loads.\<close>

theorem save_then_load:
  assumes "filesystem os files" and "run_state (saveState os path st) s = (None, s')"
  shows "fst (run_state (loadState os path) s') = (st, True)"
  using assms by (rule loadState_after_save)

text \<open>C23. A save that fails leaves the file as it was: no half-written state is ever read.\<close>

theorem failed_save_keeps_file:
  assumes "filesystem os files" and "run_state (saveState os path st) s = (Some e, s')"
  shows "files (io_world s') path = files (io_world s) path"
proof -
  let ?t = "path @ ''.tmp''"
  let ?w1 = "os_write_file os ?t (format_state st) (io_world s)"
  have "files (snd ?w1) path = files (io_world s) path"
    using filesystemD(1) [OF assms(1)] by simp
  with assms(2) filesystemD(3) [OF assms(1) tmp_differs(2), of path "snd ?w1"] show ?thesis
    by (auto simp: saveState_def Let_def case_prod_beta split: if_splits)
qed

end
