(* ===== verification/Tracker.thy ===== *)
theory Tracker
  imports Prelude
begin

text \<open>
  \<open>internal/agent/peer_tracker.go\<close>: which poll of a peer is worth an alert. The maps of the
  tracker are those of the code; the contract a user relies on is the state machine \<open>phase_step\<close> of
  the locale \<open>peer_monitor\<close>, one copy per peer.
\<close>

section \<open>The tracker\<close>

record peerTracker =
  lastOK :: "string \<rightharpoonup> bool"
  downCount :: "string \<rightharpoonup> int"
  lastCarp :: "string \<rightharpoonup> string"
  lastStatus :: "string \<rightharpoonup> string"
  threshold :: int

definition newPeerTracker :: "int \<Rightarrow> peerTracker" where
  "newPeerTracker th =
     (let th = (if th < 1 then 1 else th)
      in \<lparr>lastOK = Map.empty, downCount = Map.empty, lastCarp = Map.empty, lastStatus = Map.empty,
          threshold = th\<rparr>)"

definition rememberCarp :: "string \<Rightarrow> string \<Rightarrow> peerTracker \<Rightarrow> peerTracker" where
  "rememberCarp ip carp t = (if carp \<noteq> [] then t\<lparr>lastCarp := (lastCarp t)(ip \<mapsto> carp)\<rparr> else t)"

definition LastCarp :: "string \<Rightarrow> peerTracker \<Rightarrow> string" where
  "LastCarp ip t = map_get [] (lastCarp t) ip"

definition KnownDown :: "string \<Rightarrow> peerTracker \<Rightarrow> bool" where
  "KnownDown ip t = (case lastOK t ip of None \<Rightarrow> False | Some ok \<Rightarrow> \<not> ok)"

definition Status :: "string \<Rightarrow> peerTracker \<Rightarrow> string" where
  "Status ip t = map_get [] (lastStatus t) ip"

definition SetStatus :: "string \<Rightarrow> string \<Rightarrow> peerTracker \<Rightarrow> peerTracker" where
  "SetStatus ip st t =
     (if st = [] then t\<lparr>lastStatus := (lastStatus t)(ip := None)\<rparr>
      else t\<lparr>lastStatus := (lastStatus t)(ip \<mapsto> st)\<rparr>)"

definition Update :: "string \<Rightarrow> bool \<Rightarrow> peerTracker \<Rightarrow> (bool \<times> bool) \<times> peerTracker" where
  "Update ip ok t =
     (let seen = (lastOK t ip \<noteq> None); wasOK = map_get False (lastOK t) ip
      in if ok then
           ((False, seen \<and> \<not> wasOK),
            t\<lparr>downCount := (downCount t)(ip \<mapsto> 0), lastOK := (lastOK t)(ip \<mapsto> True),
              lastStatus := (lastStatus t)(ip := None)\<rparr>)
         else
           (let t = t\<lparr>downCount := (downCount t)(ip \<mapsto> i64 (map_get 0 (downCount t) ip + 1))\<rparr>
            in if \<not> seen then ((False, False), t\<lparr>lastOK := (lastOK t)(ip \<mapsto> False)\<rparr>)
               else if wasOK \<and> map_get 0 (downCount t) ip \<ge> threshold t then
                 ((True, False),
                  t\<lparr>downCount := (downCount t)(ip \<mapsto> 0), lastOK := (lastOK t)(ip \<mapsto> False)\<rparr>)
               else ((False, False), t)))"

section \<open>The contract\<close>

datatype phase = Unseen | Reachable nat | Down

text \<open>One poll of one peer: the alerts (down, up) and the next phase.\<close>

fun phase_step :: "nat \<Rightarrow> bool \<Rightarrow> phase \<Rightarrow> (bool \<times> bool) \<times> phase" where
  "phase_step th True Unseen = ((False, False), Reachable 0)"
| "phase_step th True (Reachable n) = ((False, False), Reachable 0)"
| "phase_step th True Down = ((False, True), Reachable 0)"
| "phase_step th False Unseen = ((False, False), Down)"
| "phase_step th False (Reachable n) =
     (if Suc n \<ge> th then ((True, False), Down) else ((False, False), Reachable (Suc n)))"
| "phase_step th False Down = ((False, False), Down)"

text \<open>The failures at the end of a peer's polls, and the phase they put the peer in.\<close>

definition fails :: "bool list \<Rightarrow> nat" where
  "fails bs = length (takeWhile Not (rev bs))"

definition phase_after :: "nat \<Rightarrow> bool list \<Rightarrow> phase" where
  "phase_after th bs =
     (if bs = [] then Unseen
      else if fails bs < length bs \<and> fails bs < th then Reachable (fails bs) else Down)"

lemma fails_Nil [simp]: "fails [] = 0"
  by (simp add: fails_def)

lemma fails_snoc [simp]: "fails (bs @ [b]) = (if b then 0 else Suc (fails bs))"
  by (simp add: fails_def)

lemma fails_one [simp]: "fails [b] = (if b then 0 else 1)"
  by (simp add: fails_def)

lemma fails_le: "fails bs \<le> length bs"
  unfolding fails_def by (metis length_rev length_takeWhile_le)

definition down_alert :: "nat \<Rightarrow> bool list \<Rightarrow> bool \<Rightarrow> bool" where
  "down_alert th bs b \<longleftrightarrow> \<not> b \<and> Suc (fails bs) = th \<and> fails bs < length bs"

definition up_alert :: "nat \<Rightarrow> bool list \<Rightarrow> bool \<Rightarrow> bool" where
  "up_alert th bs b \<longleftrightarrow> b \<and> 0 < fails bs \<and> (th \<le> fails bs \<or> fails bs = length bs)"

lemma phase_step_after:
  assumes "1 \<le> th"
  shows "phase_step th b (phase_after th bs) = ((down_alert th bs b, up_alert th bs b), phase_after th (bs @ [b]))"
proof (cases "bs = []")
  case True
  then show ?thesis
    using assms by (cases b) (simp_all add: phase_after_def down_alert_def up_alert_def)
next
  case False
  then show ?thesis
    using assms fails_le [of bs]
    by (cases b) (auto simp: phase_after_def down_alert_def up_alert_def)
qed

text \<open>The polls of one peer out of the polls of all.\<close>

definition polls_of :: "'k \<Rightarrow> ('k \<times> bool) list \<Rightarrow> bool list" where
  "polls_of k ps = map snd (filter (\<lambda>p. fst p = k) ps)"

locale peer_monitor =
  fixes update :: "'k \<Rightarrow> bool \<Rightarrow> 't \<Rightarrow> (bool \<times> bool) \<times> 't"
    and phase :: "'t \<Rightarrow> 'k \<Rightarrow> phase"
    and wf :: "'t \<Rightarrow> bool"
    and th :: nat
  assumes th_pos: "1 \<le> th"
    and wf_update: "wf t \<Longrightarrow> wf (snd (update k b t))"
    and alerts: "wf t \<Longrightarrow> fst (update k b t) = fst (phase_step th b (phase t k))"
    and moves: "wf t \<Longrightarrow> phase (snd (update k b t)) j = (if j = k then snd (phase_step th b (phase t k)) else phase t j)"
begin

definition after :: "'t \<Rightarrow> ('k \<times> bool) list \<Rightarrow> 't" where
  "after t ps = fold (\<lambda>p t. snd (update (fst p) (snd p) t)) ps t"

lemma after_snoc: "after t (ps @ [p]) = snd (update (fst p) (snd p) (after t ps))"
  by (simp add: after_def)

lemma after_phase:
  assumes "wf t" and "\<And>k. phase t k = Unseen"
  shows "wf (after t ps) \<and> phase (after t ps) k = phase_after th (polls_of k ps)"
proof (induction ps arbitrary: k rule: rev_induct)
  case Nil
  show ?case using assms by (simp add: after_def polls_of_def phase_after_def)
next
  case (snoc p ps)
  from snoc.IH have wf: "wf (after t ps)" by simp
  with snoc.IH [of k] show ?case
    using phase_step_after [OF th_pos]
    by (auto simp: after_snoc wf_update moves polls_of_def)
qed

theorem alerts_exact:
  assumes "wf t" and "\<And>k. phase t k = Unseen"
  shows "fst (update k b (after t ps)) = (down_alert th (polls_of k ps) b, up_alert th (polls_of k ps) b)"
  using after_phase [OF assms] phase_step_after [OF th_pos, of b "polls_of k ps"] by (simp add: alerts)

end

section \<open>The tracker keeps the contract\<close>

definition tracker_phase :: "peerTracker \<Rightarrow> string \<Rightarrow> phase" where
  "tracker_phase t ip =
     (case lastOK t ip of
        None \<Rightarrow> Unseen
      | Some ok \<Rightarrow> if ok then Reachable (nat (map_get 0 (downCount t) ip)) else Down)"

definition tracker_wf :: "int \<Rightarrow> peerTracker \<Rightarrow> bool" where
  "tracker_wf th t \<longleftrightarrow> threshold t = max 1 th \<and> th < 2 ^ 62 \<and>
     (\<forall>ip. lastOK t ip = Some True \<longrightarrow> 0 \<le> map_get 0 (downCount t) ip \<and> map_get 0 (downCount t) ip < threshold t)"

lemma tracker_wf_new: "th < 2 ^ 62 \<Longrightarrow> tracker_wf th (newPeerTracker th)"
  by (simp add: tracker_wf_def newPeerTracker_def)

lemma tracker_count:
  "tracker_wf th t \<Longrightarrow> lastOK t ip = Some True \<Longrightarrow>
     i64 (map_get 0 (downCount t) ip + 1) = map_get 0 (downCount t) ip + 1"
  by (rule i64_id) (auto simp: tracker_wf_def int64_def max_def split: if_splits)

text \<open>The five cases of an update.\<close>

lemma Update_ok:
  "Update ip True t = ((False, lastOK t ip = Some False),
     t\<lparr>downCount := (downCount t)(ip \<mapsto> 0), lastOK := (lastOK t)(ip \<mapsto> True),
       lastStatus := (lastStatus t)(ip := None)\<rparr>)"
  by (cases "lastOK t ip") (simp_all add: Update_def Let_def map_get_def)

lemma Update_new:
  "lastOK t ip = None \<Longrightarrow> Update ip False t = ((False, False),
     t\<lparr>downCount := (downCount t)(ip \<mapsto> i64 (map_get 0 (downCount t) ip + 1)), lastOK := (lastOK t)(ip \<mapsto> False)\<rparr>)"
  by (simp add: Update_def Let_def)

lemma Update_still_down:
  "lastOK t ip = Some False \<Longrightarrow> Update ip False t = ((False, False),
     t\<lparr>downCount := (downCount t)(ip \<mapsto> i64 (map_get 0 (downCount t) ip + 1))\<rparr>)"
  by (simp add: Update_def Let_def map_get_def)

lemma Update_declared:
  "lastOK t ip = Some True \<Longrightarrow> threshold t \<le> i64 (map_get 0 (downCount t) ip + 1) \<Longrightarrow>
   Update ip False t = ((True, False),
     t\<lparr>downCount := (downCount t)(ip \<mapsto> 0), lastOK := (lastOK t)(ip \<mapsto> False)\<rparr>)"
  by (simp add: Update_def Let_def map_get_def)

lemma Update_counted:
  "lastOK t ip = Some True \<Longrightarrow> i64 (map_get 0 (downCount t) ip + 1) < threshold t \<Longrightarrow>
   Update ip False t = ((False, False),
     t\<lparr>downCount := (downCount t)(ip \<mapsto> i64 (map_get 0 (downCount t) ip + 1))\<rparr>)"
  by (simp add: Update_def Let_def map_get_def)

lemmas Update_cases = Update_ok Update_new Update_still_down Update_declared Update_counted

lemma Update_other:
  "j \<noteq> ip \<Longrightarrow> tracker_phase (snd (Update ip b t)) j = tracker_phase t j"
proof -
  assume "j \<noteq> ip"
  then have "lastOK (snd (Update ip b t)) j = lastOK t j"
    "map_get 0 (downCount (snd (Update ip b t))) j = map_get 0 (downCount t) j"
    by (auto simp: Update_def Let_def)
  then show ?thesis by (simp only: tracker_phase_def)
qed

lemma tracker_step:
  assumes "tracker_wf th t"
  shows "fst (Update ip b t) = fst (phase_step (nat (max 1 th)) b (tracker_phase t ip)) \<and>
    tracker_phase (snd (Update ip b t)) ip = snd (phase_step (nat (max 1 th)) b (tracker_phase t ip)) \<and>
    tracker_wf th (snd (Update ip b t))"
proof -
  from assms have th: "threshold t = max 1 th" by (simp add: tracker_wf_def)
  show ?thesis
  proof (cases b)
    case True
    show ?thesis
      using assms th
      by (cases "lastOK t ip") (auto simp: True Update_ok tracker_phase_def tracker_wf_def)
  next
    case False
    show ?thesis
    proof (cases "lastOK t ip = Some True")
      case up: True
      note c = tracker_count [OF assms up]
      have n: "0 \<le> map_get 0 (downCount t) ip" using assms up by (simp add: tracker_wf_def)
      show ?thesis
      proof (cases "threshold t \<le> map_get 0 (downCount t) ip + 1")
        case True
        with c have u: "Update ip False t = ((True, False),
            t\<lparr>downCount := (downCount t)(ip \<mapsto> 0), lastOK := (lastOK t)(ip \<mapsto> False)\<rparr>)"
          by (intro Update_declared up) simp
        have "nat (max 1 th) \<le> Suc (nat (map_get 0 (downCount t) ip))" using True th n by linarith
        with assms show ?thesis
          by (auto simp: \<open>\<not> b\<close> u up tracker_phase_def tracker_wf_def)
      next
        case less: False
        with c have u: "Update ip False t = ((False, False),
            t\<lparr>downCount := (downCount t)(ip \<mapsto> map_get 0 (downCount t) ip + 1)\<rparr>)"
          using Update_counted [OF up] by simp
        have "\<not> nat (max 1 th) \<le> Suc (nat (map_get 0 (downCount t) ip))" using less th n by linarith
        moreover have "nat (map_get 0 (downCount t) ip + 1) = Suc (nat (map_get 0 (downCount t) ip))"
          using n by linarith
        ultimately show ?thesis
          using assms less n by (auto simp: \<open>\<not> b\<close> u up tracker_phase_def tracker_wf_def)
      qed
    next
      case down: False
      then consider "lastOK t ip = None" | "lastOK t ip = Some False" by (cases "lastOK t ip") auto
      then show ?thesis
        using assms
        by cases (auto simp: \<open>\<not> b\<close> Update_new Update_still_down tracker_phase_def tracker_wf_def)
    qed
  qed
qed

interpretation tracker: peer_monitor Update tracker_phase "tracker_wf th" "nat (max 1 th)" for th
  by unfold_locales (auto simp: tracker_step Update_other)

lemma tracker_phase_new: "tracker_phase (newPeerTracker th) ip = Unseen"
  by (simp add: tracker_phase_def newPeerTracker_def Let_def)

text \<open>The tracker behind a list of polls.\<close>

definition tracker_after :: "int \<Rightarrow> (string \<times> bool) list \<Rightarrow> peerTracker" where
  "tracker_after th ps = fold (\<lambda>p t. snd (Update (fst p) (snd p) t)) ps (newPeerTracker th)"

text \<open>C5. Whatever was polled before and in whatever order, the next poll of a peer raises DOWN exactly
  when it completes a run of \<open>th\<close> failures that follows a success of that peer, and UP exactly when it
  ends a run of failures that had been declared down or that reached back to the first poll. The
  polls of other peers play no part.\<close>

theorem tracker_alerts_exact:
  assumes "1 \<le> th" and "th < 2 ^ 62"
  shows "fst (Update ip ok (tracker_after th ps)) =
    (\<not> ok \<and> Suc (fails (polls_of ip ps)) = nat th \<and> fails (polls_of ip ps) < length (polls_of ip ps),
     ok \<and> 0 < fails (polls_of ip ps) \<and>
       (nat th \<le> fails (polls_of ip ps) \<or> fails (polls_of ip ps) = length (polls_of ip ps)))"
proof -
  have "fst (Update ip ok (tracker.after (newPeerTracker th) ps)) =
      (down_alert (nat (max 1 th)) (polls_of ip ps) ok, up_alert (nat (max 1 th)) (polls_of ip ps) ok)"
    by (rule tracker.alerts_exact [OF tracker_wf_new [OF assms(2)] tracker_phase_new])
  then show ?thesis
    using assms
    by (simp add: tracker_after_def tracker.after_def polls_of_def
        down_alert_def up_alert_def max_def)
qed

end
