(* ===== verification/Cooldown.thy ===== *)
theory Cooldown
  imports OS
begin

text \<open>
  \<open>internal/notify/cooldown.go\<close>: one limiter of messages per key. The contract every limiter of
  the program meets is the locale \<open>spaced\<close>: a stamp per key that a refusal leaves alone and a grant
  moves forward by at least a gap. It gives the spacing of any number of grants, and the runner's step-down
  limiter is an instance of it as well as the cooldown of this file.
\<close>

section \<open>The cooldown\<close>

record Cooldown =
  cdDuration :: duration
  lastSent :: "string \<rightharpoonup> instant"

definition NewCooldown :: "duration \<Rightarrow> Cooldown" where
  "NewCooldown d = \<lparr>cdDuration = d, lastSent = Map.empty\<rparr>"

definition Allow :: "'w os \<Rightarrow> string \<Rightarrow> Cooldown \<Rightarrow> ('w io, bool \<times> Cooldown) state" where
  "Allow os key c =
     (case lastSent c key of
        None \<Rightarrow> do {
          now \<leftarrow> call (os_now os);
          State_Monad.return (True, c\<lparr>lastSent := (lastSent c)(key \<mapsto> now)\<rparr>)
        }
      | Some last_time \<Rightarrow> do {
          now \<leftarrow> call (os_now os);
          if time_Sub now last_time \<ge> cdDuration c then do {
            now \<leftarrow> call (os_now os);
            State_Monad.return (True, c\<lparr>lastSent := (lastSent c)(key \<mapsto> now)\<rparr>)
          }
          else State_Monad.return (False, c)
        })"

context reading
begin

lemma keeps_Allow [effect_intros]: "keeps R (Allow os key c)"
  unfolding Allow_def by (intro effect_intros)

end

section \<open>Spaced grants\<close>

text \<open>
  \<open>step x y g\<close> is one use of a limiter: it grants nothing, or it grants a key between two instants.
  What counts is that it granted, not what it wrote down. The limiter keeps a \<open>stamp\<close> of each key,
  and the law asks that a grant leaves one, taken while it was made.
\<close>

locale spaced =
  fixes step :: "'s \<Rightarrow> 's \<Rightarrow> ('k \<times> instant \<times> instant) option \<Rightarrow> bool"
    and stamp :: "'s \<Rightarrow> 'k \<rightharpoonup> instant"
    and gap :: duration
  assumes gap_nonneg: "0 \<le> gap"
    and denied: "step x y None \<Longrightarrow> stamp y = stamp x"
    and granted: "step x y (Some (k, b, e)) \<Longrightarrow> \<exists>t. stamp y = (stamp x)(k \<mapsto> t) \<and> b \<le> t \<and> t \<le> e \<and>
      (\<forall>t0. stamp x k = Some t0 \<longrightarrow> t0 + gap \<le> t)"
begin

fun runs :: "'s \<Rightarrow> ('s \<times> ('k \<times> instant \<times> instant) option) list \<Rightarrow> bool" where
  "runs x [] \<longleftrightarrow> True"
| "runs x ((y, g) # rest) \<longleftrightarrow> step x y g \<and> runs y rest"

definition grants :: "'k \<Rightarrow> ('s \<times> ('k \<times> instant \<times> instant) option) list \<Rightarrow> (instant \<times> instant) list" where
  "grants k path = [p. (y, Some (k', p)) \<leftarrow> path, k' = k]"

lemma grants_simps [simp]:
  "grants k [] = []"
  "grants k ((y, None) # rest) = grants k rest"
  "grants k ((y, Some (k', p)) # rest) = (if k' = k then p # grants k rest else grants k rest)"
  by (simp_all add: grants_def)

lemma grants_after:
  "runs x path \<Longrightarrow> sorted_wrt (\<lambda>(b, e) (b', e'). b + gap \<le> e') (grants k path) \<and>
     (\<forall>t0. stamp x k = Some t0 \<longrightarrow> (\<forall>(b, e) \<in> set (grants k path). t0 + gap \<le> e))"
proof (induction path arbitrary: x)
  case (Cons p rest)
  obtain y g where p: "p = (y, g)" by (cases p)
  with Cons.prems have st: "step x y g" and r: "runs y rest" by simp_all
  note IH = Cons.IH [OF r]
  show ?case
  proof (cases g)
    case None
    with st have "stamp y = stamp x" by (simp add: denied)
    with IH None p show ?thesis by simp
  next
    case (Some kt)
    obtain k' b e where kt: "kt = (k', b, e)" by (cases kt)
    with st Some obtain t where stamp: "stamp y = (stamp x)(k' \<mapsto> t)" and t: "b \<le> t" "t \<le> e"
      and waited: "\<And>t0. stamp x k' = Some t0 \<Longrightarrow> t0 + gap \<le> t"
      using granted by blast
    show ?thesis
    proof (cases "k' = k")
      case True
      with stamp IH have 1: "sorted_wrt (\<lambda>(b, e) (b', e'). b + gap \<le> e') (grants k rest)"
        "\<forall>(b', e') \<in> set (grants k rest). t + gap \<le> e'" by simp_all
      have 2: "\<forall>(b', e') \<in> set (grants k rest). b + gap \<le> e'" using 1(2) t(1) by fastforce
      have 3: "t0 + gap \<le> e \<and> (\<forall>(b', e') \<in> set (grants k rest). t0 + gap \<le> e')" if "stamp x k = Some t0" for t0
        using waited [of t0] that True 1(2) t(2) gap_nonneg by fastforce
      from 1(1) 2 3 show ?thesis using p Some kt True by auto
    next
      case False
      with stamp IH p Some kt show ?thesis by simp
    qed
  qed
qed simp

lemma grants_spaced: "runs x path \<Longrightarrow> sorted_wrt (\<lambda>(b, e) (b', e'). b + gap \<le> e') (grants k path)"
  using grants_after by blast

end

section \<open>The cooldown is spaced\<close>

text \<open>A call of \<open>Allow\<close> and what it grants: the key, from the clock at its start to the clock at its end.\<close>

definition allow_step :: "'w os \<Rightarrow> ('w \<Rightarrow> instant) \<Rightarrow> duration \<Rightarrow> Cooldown \<Rightarrow> Cooldown \<Rightarrow>
    (string \<times> instant \<times> instant) option \<Rightarrow> bool" where
  "allow_step os clk d c c' g \<longleftrightarrow> clock_ok os clk \<and> 0 \<le> d \<and> cdDuration c = d \<and>
     (\<exists>key ok s s'. run_state (Allow os key c) s = ((ok, c'), s') \<and>
        g = (if ok then Some (key, clk (io_world s), clk (io_world s')) else None))"

lemma Allow_run:
  "run_state (Allow os key c) s =
     (case lastSent c key of
        None \<Rightarrow> (let (t, w) = os_now os (io_world s)
                 in ((True, c\<lparr>lastSent := (lastSent c)(key \<mapsto> t)\<rparr>), s\<lparr>io_world := w\<rparr>))
      | Some t0 \<Rightarrow>
          (let (t, w) = os_now os (io_world s); (t', w') = os_now os w
           in if time_Sub t t0 \<ge> cdDuration c
              then ((True, c\<lparr>lastSent := (lastSent c)(key \<mapsto> t')\<rparr>), s\<lparr>io_world := w'\<rparr>)
              else ((False, c), s\<lparr>io_world := w\<rparr>)))"
  by (simp add: Allow_def Let_def case_prod_beta split: option.split)

lemma Allow_duration: "run_state (Allow os key c) s = ((b, c'), s') \<Longrightarrow> cdDuration c' = cdDuration c"
  by (auto simp: Allow_run Let_def case_prod_beta split: option.splits if_splits)

lemma Allow_refused: "run_state (Allow os key c) s = ((False, c'), s') \<Longrightarrow> c' = c"
  by (auto simp: Allow_run Let_def case_prod_beta split: option.splits if_splits)

lemma Allow_granted:
  assumes "run_state (Allow os key c) s = ((True, c'), s')" and clk: "clock_ok os clk" and "0 \<le> cdDuration c"
  shows "\<exists>t. lastSent c' = (lastSent c)(key \<mapsto> t) \<and> clk (io_world s) \<le> t \<and> t \<le> clk (io_world s') \<and>
    (\<forall>t0. lastSent c key = Some t0 \<longrightarrow> t0 + cdDuration c \<le> t)"
proof (cases "lastSent c key")
  case None
  with assms(1) clock_now [OF clk, of "io_world s"] show ?thesis
    by (auto simp: Allow_run case_prod_beta)
next
  case (Some t0)
  let ?n = "os_now os (io_world s)"
  let ?m = "os_now os (snd ?n)"
  have "cdDuration c \<le> time_Sub (fst ?n) t0" "lastSent c' = (lastSent c)(key \<mapsto> fst ?m)" "io_world s' = snd ?m"
    using assms(1) Some by (auto simp: Allow_run Let_def case_prod_beta split: if_splits)
  moreover have "fst ?n \<le> fst ?m" "clk (io_world s) \<le> fst ?m" "fst ?m \<le> clk (snd ?m)"
    using clock_now [OF clk, of "io_world s"] clock_now [OF clk, of "snd ?n"] by linarith+
  ultimately show ?thesis
    using Some assms(3) time_Sub_ge [of "cdDuration c" "fst ?n" t0]
    by (intro exI [of _ "fst ?m"]) simp
qed

interpretation cooldown: spaced "allow_step os clk d" lastSent "max 0 d"
  for os :: "'w os" and clk :: "'w \<Rightarrow> instant" and d
proof unfold_locales
  fix c c' :: Cooldown and k b e
  show "lastSent c' = lastSent c" if "allow_step os clk d c c' None"
    using that unfolding allow_step_def by (auto split: if_splits dest: Allow_refused)
  show "\<exists>t. lastSent c' = (lastSent c)(k \<mapsto> t) \<and> b \<le> t \<and> t \<le> e \<and>
      (\<forall>t0. lastSent c k = Some t0 \<longrightarrow> t0 + max 0 d \<le> t)"
    if step: "allow_step os clk d c c' (Some (k, b, e))"
  proof -
    from step obtain s s' where run: "run_state (Allow os k c) s = ((True, c'), s')"
      and be: "b = clk (io_world s)" "e = clk (io_world s')"
      and d: "clock_ok os clk" "0 \<le> d" "cdDuration c = d"
      unfolding allow_step_def by (auto split: if_splits)
    from Allow_granted [OF run d(1)] d(2,3) be show ?thesis by simp
  qed
qed simp

text \<open>
  A whole life of a cooldown: the keys asked for in turn, each on the machine as it then is (whatever
  happened in between), and the calls that were granted, with the clock at their start and their end.
\<close>

fun granted_calls :: "'w os \<Rightarrow> ('w \<Rightarrow> instant) \<Rightarrow> (string \<times> 'w io) list \<Rightarrow> Cooldown \<Rightarrow>
    (string \<times> instant \<times> instant) list" where
  "granted_calls os clk [] c = []"
| "granted_calls os clk ((key, s) # calls) c =
     (case run_state (Allow os key c) s of
        ((ok, c'), s') \<Rightarrow>
          (if ok then [(key, clk (io_world s), clk (io_world s'))] else []) @ granted_calls os clk calls c')"

lemma granted_calls_path:
  fixes os :: "'w os"
  assumes "clock_ok os clk" and "0 \<le> cdDuration c"
  shows "\<exists>path. cooldown.runs TYPE('w) os clk (cdDuration c) c path \<and>
    (\<forall>k. cooldown.grants k path = map snd (filter (\<lambda>g. fst g = k) (granted_calls os clk calls c)))"
  using assms(2)
proof (induction calls arbitrary: c)
  case Nil
  show ?case by (rule exI [of _ "[]"]) simp
next
  case (Cons call calls)
  obtain key s where call: "call = (key, s)" by (cases call)
  obtain ok c1 s1 where r: "run_state (Allow os key c) s = ((ok, c1), s1)" by (metis prod.exhaust)
  then have d: "cdDuration c1 = cdDuration c" by (rule Allow_duration)
  with Cons obtain path where path: "cooldown.runs TYPE('w) os clk (cdDuration c) c1 path"
    "\<And>k. cooldown.grants k path = map snd (filter (\<lambda>g. fst g = k) (granted_calls os clk calls c1))"
    by metis
  let ?g = "if ok then Some (key, clk (io_world s), clk (io_world s1)) else None"
  have "allow_step os clk (cdDuration c) c c1 ?g"
    using assms(1) Cons.prems r unfolding allow_step_def by blast
  with path(1) have "cooldown.runs TYPE('w) os clk (cdDuration c) c ((c1, ?g) # path)" by simp
  moreover have "cooldown.grants k ((c1, ?g) # path) =
      map snd (filter (\<lambda>g. fst g = k) (granted_calls os clk (call # calls) c))" for k
    using path(2) [of k] r call by (cases ok) auto
  ultimately show ?case by blast
qed

text \<open>C4. However the keys come and however time passes, two calls for one key that are both answered with true are
  at least the configured cooldown apart: the later ends no sooner than the cooldown after the earlier began.\<close>

theorem cooldown_spacing:
  assumes "clock_ok os clk" and "0 \<le> cdDuration c"
  shows "sorted_wrt (\<lambda>(b, e) (b', e'). b + cdDuration c \<le> e')
    (map snd (filter (\<lambda>g. fst g = k) (granted_calls os clk calls c)))"
  using granted_calls_path [OF assms, of calls] cooldown.grants_spaced assms(2) by (metis max.absorb2)

text \<open>Keys do not interfere: a call for one key leaves the stamp of every other alone, a key never
  granted before is granted at once, and a refusal changes nothing.\<close>

lemma cooldown_keys:
  "case run_state (Allow os key c) s of ((b, c'), s') \<Rightarrow>
     (lastSent c')(key := None) = (lastSent c)(key := None) \<and> cdDuration c' = cdDuration c \<and>
     (b \<or> c' = c) \<and> (key \<notin> dom (lastSent c) \<longrightarrow> b) \<and> (b \<longrightarrow> key \<in> dom (lastSent c'))"
  by (auto simp: Allow_run Let_def case_prod_beta dom_def split: option.split)

end
