(* ===== verification/Notify.thy ===== *)
theory Notify
  imports Cooldown Json
begin

text \<open>
  \<open>internal/notify\<close>: the three channels a message goes out on (email.go, webhook.go), the texts of
  the messages (template.go), and the dispatcher that puts a cooldown in front of the channels
  (event.go). Every call of a channel's \<open>Send\<close> is an event \<open>EvSend\<close> of the trace.
\<close>

section \<open>Channels\<close>

datatype Notifier =
    EmailNotifier (mail_host: string) (mail_port: int) (mail_user: string) (mail_password: string)
      (mail_from: string) (mail_to: "string list")
  | WebhookNotifier (hook_name: string) (hook_url: string)
  | TelegramNotifier (hook_name: string) (hook_url: string) (chat: string)

definition NewSlackNotifier :: "string \<Rightarrow> Notifier" where
  "NewSlackNotifier webhookURL = WebhookNotifier ''slack'' webhookURL"

definition NewTelegramNotifier :: "string \<Rightarrow> string \<Rightarrow> Notifier" where
  "NewTelegramNotifier botToken chatID =
     TelegramNotifier ''telegram'' (''https://api.telegram.org/bot'' @ botToken @ ''/sendMessage'') chatID"

fun Notifier_Name :: "Notifier \<Rightarrow> string" where
  "Notifier_Name (EmailNotifier h p u pw f t) = ''email''"
| "Notifier_Name (WebhookNotifier n url) = n"
| "Notifier_Name (TelegramNotifier n url c) = n"

text \<open>\<open>%x\<close> of a number, and \<open>hex.EncodeToString\<close>.\<close>

function hex_digits :: "int \<Rightarrow> string" where
  "hex_digits n = (if n < 16 then [hex_digit (nat n)] else hex_digits (n div 16) @ [hex_digit (nat (n mod 16))])"
  by pat_completeness auto
termination
  by (relation "measure nat") auto

declare hex_digits.simps [simp del]

definition Format_hex :: "int \<Rightarrow> string" where
  "Format_hex n = (if n < 0 then CHR ''-'' # hex_digits (- n) else hex_digits n)"

definition EncodeToString :: "string \<Rightarrow> string" where
  "EncodeToString bs = concat (map (\<lambda>b. [hex_digit (of_char b div 16), hex_digit (of_char b mod 16)]) bs)"

definition unix_epoch :: instant where "unix_epoch = 62135596800 * second"

definition UnixNano :: "instant \<Rightarrow> int" where
  "UnixNano t = i64 (t - unix_epoch)"

definition RFC3339 :: string where "RFC3339 = ''2006-01-02T15:04:05Z07:00''"
definition RFC1123Z :: string where "RFC1123Z = ''Mon, 02 Jan 2006 15:04:05 -0700''"

definition crlf :: string where "crlf = [CHR 0x0D, CHR 0x0A]"
definition nl :: string where "nl = [CHR 0x0A]"

definition mail_headers :: "Notifier \<Rightarrow> string \<Rightarrow> string \<Rightarrow> string \<Rightarrow> (string \<times> string) list" where
  "mail_headers e subject date msgID =
     [(''From'', mail_from e), (''To'', Join (mail_to e) '', ''), (''Subject'', subject), (''Date'', date),
      (''Message-ID'', msgID), (''MIME-Version'', ''1.0''),
      (''Content-Type'', ''text/plain; charset='' @ [CHR 0x22] @ ''UTF-8'' @ [CHR 0x22]),
      (''Auto-Submitted'', ''auto-generated''), (''Precedence'', ''bulk''),
      (''X-Mailer'', ''dns-ha-agent''), (''X-Auto-Response-Suppress'', ''All'')]"

definition header_line :: "string \<times> string \<Rightarrow> string" where
  "header_line kv = fst kv @ '': '' @ snd kv @ crlf"

definition buildMessage :: "'w os \<Rightarrow> Notifier \<Rightarrow> string \<Rightarrow> string \<Rightarrow> ('w io, string) state" where
  "buildMessage os e subject body = do {
     (hostname, _) \<leftarrow> call (os_hostname os);
     now \<leftarrow> call (os_now os);
     rnd \<leftarrow> call (os_random os 4);
     let msgID = ''<'' @ Format_hex (UnixNano now) @ ''.'' @ EncodeToString rnd @ ''@'' @ hostname @ ''>'';
     hs \<leftarrow> call (os_range os (mail_headers e subject (os_format_time os RFC1123Z now) msgID));
     State_Monad.return (concat (map header_line hs) @ crlf @ body @ crlf)
   }"

text \<open>\<open>json.Marshal\<close> on a string: ASCII as in the heartbeat, U+2028 and U+2029 escaped, bytes that
  are not UTF-8 replaced.\<close>

fun json_chars :: "nat \<Rightarrow> string \<Rightarrow> string" where
  "json_chars 0 s = []"
| "json_chars (Suc n) [] = []"
| "json_chars (Suc n) (c # cs) =
     (if byte c < 0x80 then json_escape c @ json_chars n cs
      else (let k = utf8_len (c # cs) in
            if k = 0 then CHR 0x5C # ''ufffd'' @ json_chars n cs
            else if take k (c # cs) = [CHR 0xE2, CHR 0x80, CHR 0xA8] then CHR 0x5C # ''u2028'' @ json_chars n (drop k (c # cs))
            else if take k (c # cs) = [CHR 0xE2, CHR 0x80, CHR 0xA9] then CHR 0x5C # ''u2029'' @ json_chars n (drop k (c # cs))
            else take k (c # cs) @ json_chars n (drop k (c # cs))))"

definition marshal_string :: "string \<Rightarrow> string" where
  "marshal_string s = [CHR 0x22] @ json_chars (length s) s @ [CHR 0x22]"

definition slack_payload :: "string \<Rightarrow> string \<Rightarrow> string" where
  "slack_payload subject body = ''{'' @ json_field ''text'' (marshal_string (subject @ nl @ nl @ body)) @ ''}''"

definition telegram_text :: "string \<Rightarrow> string \<Rightarrow> string" where
  "telegram_text subject body =
     (let text = subject @ nl @ nl @ body
      in if length text > 4000 then take 4000 text @ nl @ ''...[truncated]'' else text)"

definition telegram_payload :: "string \<Rightarrow> string \<Rightarrow> string \<Rightarrow> string" where
  "telegram_payload chat_id subject body =
     ''{'' @ json_field ''chat_id'' (marshal_string chat_id) @ '','' @
     json_field ''text'' (marshal_string (telegram_text subject body)) @ ''}''"

definition postJSON :: "'w os \<Rightarrow> string \<Rightarrow> string \<Rightarrow> ('w io, goerr option) state" where
  "postJSON os url payload = do {
     r \<leftarrow> call (os_post os url payload (15 * second));
     State_Monad.return
       (case r of
          Inl e \<Rightarrow> Some e
        | Inr code \<Rightarrow> if code \<noteq> 200 then Some (OpaqueErr (''webhook returned HTTP '' @ Itoa code)) else None)
   }"

fun deliver :: "'w os \<Rightarrow> Notifier \<Rightarrow> string \<Rightarrow> string \<Rightarrow> ('w io, goerr option) state" where
  "deliver os (EmailNotifier h p u pw f t) subject body = do {
     msg \<leftarrow> buildMessage os (EmailNotifier h p u pw f t) subject body;
     call (os_smtp os (h @ '':'' @ Itoa p) (u, pw, h) f t msg)
   }"
| "deliver os (WebhookNotifier n url) subject body = postJSON os url (slack_payload subject body)"
| "deliver os (TelegramNotifier n url c) subject body = postJSON os url (telegram_payload c subject body)"

definition Send :: "'w os \<Rightarrow> Notifier \<Rightarrow> string \<Rightarrow> string \<Rightarrow> ('w io, goerr option) state" where
  "Send os n subject body = do {
     emit (EvSend (Notifier_Name n) subject body);
     deliver os n subject body
   }"

section \<open>Texts\<close>

definition text_lines :: "string list \<Rightarrow> string" where
  "text_lines ls = concat (map (\<lambda>l. l @ nl) ls)"

definition checkSymbol :: "bool \<Rightarrow> string" where
  "checkSymbol ok = (if ok then check_mark else cross_mark)"

definition generateReason :: "bool \<Rightarrow> bool \<Rightarrow> bool \<Rightarrow> bool \<Rightarrow> string" where
  "generateReason processOK tcpOK udpOK dnsOK =
     (let failed = (if processOK then [] else [''DNS process not running'']) @
                   (if tcpOK then [] else [''TCP :53 not responding'']) @
                   (if udpOK then [] else [''UDP :53 not responding'']) @
                   (if dnsOK then [] else [''DNS query failed''])
      in if failed = [] then ''all checks passed'' else ''Failed: '' @ Join failed '', '' @ ''.'')"

definition carp_arp_command :: string where
  "carp_arp_command = ''grep -E '' @ [CHR 0x27] @ ''carp:|arp:'' @ [CHR 0x27] @
     '' /var/log/messages 2>/dev/null | tail -10''"

definition getCarpArpLog :: "'w os \<Rightarrow> ('w io, string) state" where
  "getCarpArpLog os = do {
     res \<leftarrow> ExecTimeout os (2 * second) ''sh'' [''-c'', carp_arp_command];
     State_Monad.return
       (if Err res \<noteq> None \<or> Stdout res = [] then ''  (no recent CARP/ARP messages)''
        else ''  '' @ TrimSpace (ReplaceAll (Stdout res) (CHR 0x0A) (nl @ ''  '')))
   }"

definition rule2 :: string where "rule2 = box_line @ box_line"

definition log_heading :: string where
  "log_heading = ''Recent CARP/ARP messages from /var/log/messages:''"

definition signature_line :: string where
  "signature_line = ''This is an automated notification from dns-ha-agent.''"

definition RenderNotification :: "'w os \<Rightarrow> string \<Rightarrow> string \<Rightarrow> int \<Rightarrow> int \<Rightarrow> string \<Rightarrow> string \<Rightarrow> string \<Rightarrow>
    string \<Rightarrow> string \<Rightarrow> bool \<Rightarrow> bool \<Rightarrow> bool \<Rightarrow> bool \<Rightarrow> ('w io, string \<times> string) state" where
  "RenderNotification os newState oldState score demotion nodeIP vip carpState mgmtIface vipIface
     processOK tcpOK udpOK dnsOK = do {
     (hostname, _) \<leftarrow> call (os_hostname os);
     now \<leftarrow> call (os_now os);
     carpLog \<leftarrow> getCarpArpLog os;
     let subject = ''DNS HA: '' @ oldState @ '' '' @ arrow_right @ '' '' @ newState @ '' on '' @ hostname;
     let body = text_lines
       [''DNS HA Agent '' @ em_dash @ '' State Change'', [],
        ''Timestamp: '' @ os_format_time os RFC3339 now,
        ''Hostname:  '' @ hostname, [],
        rule2 @ '' Management Interface ('' @ mgmtIface @ '') '' @ rule2,
        ''Node IP:   '' @ nodeIP, [],
        rule2 @ '' VIP/CARP Interface ('' @ vipIface @ '') '' @ rule2,
        ''VIP:       '' @ vip,
        ''CARP:      '' @ carpState, [],
        ''State:     '' @ newState,
        ''Previous:  '' @ oldState, [],
        ''Checks:'',
        ''  Process:  '' @ checkSymbol processOK,
        ''  TCP :53:  '' @ checkSymbol tcpOK,
        ''  UDP :53:  '' @ checkSymbol udpOK,
        ''  DNS:      '' @ checkSymbol dnsOK,
        ''  Score:    '' @ Itoa score @ ''/100'',
        ''  Demotion: '' @ Itoa demotion, [],
        ''Reason: '' @ generateReason processOK tcpOK udpOK dnsOK, [],
        log_heading, carpLog, [], signature_line];
     State_Monad.return (subject, body)
   }"

definition RenderMasterLoss :: "'w os \<Rightarrow> string \<Rightarrow> int \<Rightarrow> string \<Rightarrow> string \<Rightarrow> ('w io, string \<times> string) state" where
  "RenderMasterLoss os reason localScore localCarp nodeIP = do {
     (hostname, _) \<leftarrow> call (os_hostname os);
     now \<leftarrow> call (os_now os);
     carpLog \<leftarrow> getCarpArpLog os;
     let subject = ''DNS HA: unexpected VIP loss on '' @ hostname;
     let body = text_lines
       [''DNS HA Agent '' @ em_dash @ '' Unexpected VIP Loss'', [],
        ''Timestamp: '' @ os_format_time os RFC3339 now,
        ''Hostname:  '' @ hostname, [],
        ''WARNING: This node lost the CARP MASTER state (the VIP) while HEALTHY, but no'',
        ''healthy peer with higher priority (lower effective advskew) was detected to'',
        ''justify the step-down. Possible causes:'', [],
        ''  - Another node/VM claimed the VIP without being configured as a peer'',
        ''  - CARP state desync / interface flap'',
        ''  - A peer agent is not running (heartbeat missing)'', [],
        rule2 @ '' This Node '' @ rule2,
        ''Node IP:   '' @ nodeIP,
        ''State:     HEALTHY'',
        ''Score:     '' @ Itoa localScore @ ''/100'',
        ''CARP:      '' @ localCarp,
        ''Reason:    '' @ reason, [],
        log_heading, carpLog, [], signature_line];
     State_Monad.return (subject, body)
   }"

record PeerProbeInfo =
  piDiagnosis :: string
  piLastCarp :: string
  piPing :: string
  piAgentProbe :: string
  piTCP53 :: string
  piUDP53 :: string

definition emptyProbeInfo :: PeerProbeInfo where
  "emptyProbeInfo = \<lparr>piDiagnosis = [], piLastCarp = [], piPing = [], piAgentProbe = [], piTCP53 = [], piUDP53 = []\<rparr>"

definition probe_line :: "string \<Rightarrow> string \<Rightarrow> string" where
  "probe_line label v = (if v \<noteq> [] then nl @ label @ v else [])"

definition formatProbes :: "PeerProbeInfo \<Rightarrow> string" where
  "formatProbes info =
     probe_line ''Agent HTTP:  '' (piAgentProbe info) @ probe_line ''ICMP:        '' (piPing info) @
     probe_line ''TCP :53:     '' (piTCP53 info) @ probe_line ''UDP :53:     '' (piUDP53 info)"

definition optional_line :: "string \<Rightarrow> string \<Rightarrow> string" where
  "optional_line label v = (if v \<noteq> [] then label @ v @ nl else [])"

definition RenderPeerNotification :: "'w os \<Rightarrow> string \<Rightarrow> string \<Rightarrow> string \<Rightarrow> string \<Rightarrow> int \<Rightarrow> string \<Rightarrow> string \<Rightarrow>
    string \<Rightarrow> PeerProbeInfo \<Rightarrow> ('w io, string \<times> string) state" where
  "RenderPeerNotification os peerStatus peerName peerIP errorMsg localScore localState localCarp nodeIP info = do {
     (hostname, _) \<leftarrow> call (os_hostname os);
     now \<leftarrow> call (os_now os);
     carpLog \<leftarrow> getCarpArpLog os;
     let subject = ''DNS HA: peer '' @ peerName @ '' '' @ peerStatus;
     let body = text_lines
       [''DNS HA Agent '' @ em_dash @ '' Peer Status'', [],
        ''Timestamp: '' @ os_format_time os RFC3339 now,
        ''Hostname:  '' @ hostname, [],
        rule2 @ '' This Node '' @ rule2,
        ''Node IP:   '' @ nodeIP,
        ''State:     '' @ localState,
        ''Score:     '' @ Itoa localScore @ ''/100'',
        ''CARP:      '' @ localCarp, [],
        rule2 @ '' Peer ('' @ peerName @ '') '' @ rule2,
        ''Peer IP:      '' @ peerIP,
        ''Status:       '' @ peerStatus] @
       optional_line ''Diagnosis:    '' (piDiagnosis info) @
       optional_line ''Last CARP:    '' (piLastCarp info) @
       optional_line ''Probes:'' (formatProbes info) @
       optional_line ''Error:        '' errorMsg @
       text_lines [[], log_heading, carpLog, [], signature_line];
     State_Monad.return (subject, body)
   }"

section \<open>The dispatcher\<close>

record EventDispatcher =
  notifiers :: "Notifier list"
  cooldown :: Cooldown

definition NewEventDispatcher :: "duration \<Rightarrow> EventDispatcher" where
  "NewEventDispatcher d = \<lparr>notifiers = [], cooldown = NewCooldown d\<rparr>"

definition AddNotifier :: "Notifier \<Rightarrow> EventDispatcher \<Rightarrow> EventDispatcher" where
  "AddNotifier n d = d\<lparr>notifiers := notifiers d @ [n]\<rparr>"

definition state_key :: "string \<Rightarrow> string \<Rightarrow> string" where
  "state_key oldState newState = oldState @ ''->'' @ newState"

definition peer_key :: "string \<Rightarrow> string \<Rightarrow> string" where
  "peer_key peerIP peerStatus = ''peer:'' @ peerIP @ '':'' @ peerStatus"

definition vip_loss_key :: string where "vip_loss_key = ''vip-loss''"

text \<open>The three dispatches. In each loop over the channels an error of one is logged and the next is tried.\<close>

definition Dispatch :: "'w os \<Rightarrow> string \<Rightarrow> string \<Rightarrow> int \<Rightarrow> int \<Rightarrow> string \<Rightarrow> string \<Rightarrow> string \<Rightarrow> string \<Rightarrow> string \<Rightarrow> bool \<Rightarrow> bool \<Rightarrow> bool \<Rightarrow> bool \<Rightarrow>
    EventDispatcher \<Rightarrow> ('w io, EventDispatcher) state" where
  "Dispatch os newState oldState score demotion nodeIP vip carpState mgmtIface vipIface
     processOK tcpOK udpOK dnsOK d = do {
     let key = state_key oldState newState;
     (ok, c) \<leftarrow> Allow os key (cooldown d);
     let d = d\<lparr>cooldown := c\<rparr>;
     if \<not> ok then State_Monad.return d
     else do {
       (subject, body) \<leftarrow> RenderNotification os newState oldState score demotion nodeIP vip carpState mgmtIface
         vipIface processOK tcpOK udpOK dnsOK;
       _ \<leftarrow> foldM (\<lambda>n _. do { _ \<leftarrow> Send os n subject body; State_Monad.return () }) (notifiers d) ();
       State_Monad.return d
     }
   }"

definition DispatchPeer :: "'w os \<Rightarrow> string \<Rightarrow> string \<Rightarrow> string \<Rightarrow> string \<Rightarrow> int \<Rightarrow> string \<Rightarrow> string \<Rightarrow> string \<Rightarrow> PeerProbeInfo \<Rightarrow>
    EventDispatcher \<Rightarrow> ('w io, EventDispatcher) state" where
  "DispatchPeer os peerStatus peerName peerIP errorMsg localScore localState localCarp nodeIP info d = do {
     let key = peer_key peerIP peerStatus;
     (ok, c) \<leftarrow> Allow os key (cooldown d);
     let d = d\<lparr>cooldown := c\<rparr>;
     if \<not> ok then State_Monad.return d
     else do {
       (subject, body) \<leftarrow> RenderPeerNotification os peerStatus peerName peerIP errorMsg localScore localState
         localCarp nodeIP info;
       _ \<leftarrow> foldM (\<lambda>n _. do { _ \<leftarrow> Send os n subject body; State_Monad.return () }) (notifiers d) ();
       State_Monad.return d
     }
   }"

definition DispatchMasterLoss :: "'w os \<Rightarrow> string \<Rightarrow> int \<Rightarrow> string \<Rightarrow> string \<Rightarrow>
    EventDispatcher \<Rightarrow> ('w io, EventDispatcher) state" where
  "DispatchMasterLoss os reason localScore localCarp nodeIP d = do {
     let key = vip_loss_key;
     (ok, c) \<leftarrow> Allow os key (cooldown d);
     let d = d\<lparr>cooldown := c\<rparr>;
     if \<not> ok then State_Monad.return d
     else do {
       (subject, body) \<leftarrow> RenderMasterLoss os reason localScore localCarp nodeIP;
       _ \<leftarrow> foldM (\<lambda>n _. do { _ \<leftarrow> Send os n subject body; State_Monad.return () }) (notifiers d) ();
       State_Monad.return d
     }
   }"

text \<open>What they have in common: the pattern of a dispatch, with the text to render left open.\<close>

definition send_all :: "'w os \<Rightarrow> Notifier list \<Rightarrow> string \<Rightarrow> string \<Rightarrow> ('w io, unit) state" where
  "send_all os ns subject body =
     foldM (\<lambda>n _. do { _ \<leftarrow> Send os n subject body; State_Monad.return () }) ns ()"

definition dispatch_with :: "'w os \<Rightarrow> string \<Rightarrow> ('w io, string \<times> string) state \<Rightarrow> EventDispatcher \<Rightarrow>
    ('w io, EventDispatcher) state" where
  "dispatch_with os key render d = do {
     (ok, c) \<leftarrow> Allow os key (cooldown d);
     let d = d\<lparr>cooldown := c\<rparr>;
     if \<not> ok then State_Monad.return d
     else do {
       (subject, body) \<leftarrow> render;
       _ \<leftarrow> send_all os (notifiers d) subject body;
       State_Monad.return d
     }
   }"

lemma dispatches:
  "Dispatch os newState oldState score demotion nodeIP vip carpState mgmtIface vipIface processOK tcpOK udpOK dnsOK d =
     dispatch_with os (state_key oldState newState)
       (RenderNotification os newState oldState score demotion nodeIP vip carpState mgmtIface vipIface
          processOK tcpOK udpOK dnsOK) d"
  "DispatchPeer os peerStatus peerName peerIP errorMsg localScore localState localCarp nodeIP info d =
     dispatch_with os (peer_key peerIP peerStatus)
       (RenderPeerNotification os peerStatus peerName peerIP errorMsg localScore localState localCarp nodeIP info) d"
  "DispatchMasterLoss os reason localScore localCarp nodeIP d =
     dispatch_with os vip_loss_key (RenderMasterLoss os reason localScore localCarp nodeIP) d"
  unfolding Dispatch_def DispatchPeer_def DispatchMasterLoss_def dispatch_with_def send_all_def Let_def
  by (rule refl)+

section \<open>What a dispatch does to the machine\<close>

context reading
begin

lemma keeps_buildMessage [effect_intros]: "keeps R (buildMessage os e subject body)"
  unfolding buildMessage_def by (intro effect_intros)

lemma keeps_postJSON [effect_intros]: "keeps R (postJSON os url payload)"
  unfolding postJSON_def by (intro effect_intros)

lemma keeps_deliver [effect_intros]: "keeps R (deliver os n subject body)"
  by (cases n) (auto intro!: effect_intros)

lemma keeps_getCarpArpLog [effect_intros]: "keeps R (getCarpArpLog os)"
  unfolding getCarpArpLog_def by (intro effect_intros) simp

lemma keeps_render [effect_intros]:
  "keeps R (RenderNotification os a b c d e f g h i j k l m)"
  "keeps R (RenderMasterLoss os reason n q r)"
  "keeps R (RenderPeerNotification os st pn pip em sc ls lc ni info)"
  unfolding RenderNotification_def RenderMasterLoss_def RenderPeerNotification_def
  by (intro effect_intros)+

end

context reporting
begin

lemma keeps_Send [effect_intros]: "keeps R (Send os n subject body)"
  unfolding Send_def by (intro effect_intros)

lemma keeps_dispatch_with: "keeps R render \<Longrightarrow> keeps R (dispatch_with os key render d)"
  unfolding dispatch_with_def send_all_def by (intro effect_intros)

lemma keeps_dispatch [effect_intros]:
  "keeps R (Dispatch os a b c d' e f g h i j k l m d)"
  "keeps R (DispatchPeer os st pn pip em sc ls lc ni info d)"
  "keeps R (DispatchMasterLoss os reason n q r d)"
  unfolding dispatches
  by (intro keeps_dispatch_with effect_intros)+

end

section \<open>A dispatch tries every channel\<close>

definition sends :: "'w io \<Rightarrow> event list" where
  "sends s = filter (\<lambda>e. case e of EvSend n t b \<Rightarrow> True | _ \<Rightarrow> False) (io_trace s)"

definition same_sends :: "'w io \<Rightarrow> 'w io \<Rightarrow> bool" where
  "same_sends s s' \<longleftrightarrow> sends s' = sends s"

lemma sends_world [simp]: "sends (s\<lparr>io_world := w\<rparr>) = sends s"
  by (simp add: sends_def)

interpretation silent: reading same_sends os for os :: "'w os"
  by unfold_locales (auto simp: same_sends_def keeps_def sends_def split: event.split)

lemma silentD: "keeps same_sends m \<Longrightarrow> sends (snd (run_state m s)) = sends s"
  by (simp add: keeps_def same_sends_def)

lemma sends_Send:
  "sends (snd (run_state (Send os n subject body) s)) = sends s @ [EvSend (Notifier_Name n) subject body]"
  using silentD [OF silent.keeps_deliver, of os n subject body]
  by (simp add: Send_def) (simp add: sends_def)

lemma sends_send_all:
  "sends (snd (run_state (send_all os ns subject body) s)) =
     sends s @ map (\<lambda>n. EvSend (Notifier_Name n) subject body) ns"
proof (induction ns arbitrary: s)
  case (Cons n ns)
  then show ?case
    using sends_Send [of os n subject body s] by (simp add: send_all_def case_prod_beta)
qed (simp add: send_all_def)

text \<open>
  What a dispatch owes: nothing to anybody if the cooldown refuses the key; otherwise the one text it
  rendered to every channel, once, in their order. Of the dispatcher only the cooldown changes.
\<close>

definition tells_all :: "'w os \<Rightarrow> string \<Rightarrow> ('w io, string \<times> string) state \<Rightarrow> EventDispatcher \<Rightarrow> 'w io \<Rightarrow>
    EventDispatcher \<times> 'w io \<Rightarrow> bool" where
  "tells_all os key render d s result \<longleftrightarrow>
     (case run_state (Allow os key (cooldown d)) s of ((ok, c), s1) \<Rightarrow>
      case fst (run_state render s1) of (subject, body) \<Rightarrow>
        sends (snd result) =
          sends s @ (if ok then map (\<lambda>n. EvSend (Notifier_Name n) subject body) (notifiers d) else []) \<and>
        fst result = d\<lparr>cooldown := c\<rparr>)"

lemma dispatch_with_tells_all:
  assumes "\<And>s. sends (snd (run_state render s)) = sends s"
  shows "tells_all os key render d s (run_state (dispatch_with os key render d) s)"
proof -
  have "sends (snd (run_state (Allow os key (cooldown d)) s)) = sends s"
    by (rule silentD) (rule effect_intros)
  then show ?thesis
    by (simp add: tells_all_def dispatch_with_def case_prod_beta Let_def sends_send_all assms)
qed

text \<open>C22. Each of the three dispatches (a change of this node's state, of a peer, the loss of the VIP), when the
  cooldown lets its key through, hands the text it rendered to every configured channel once, in their order,
  whether or not an earlier channel reports an error; one that is refused sends nothing.\<close>

theorem dispatch_reaches_every_channel:
  "tells_all os (state_key old new)
     (RenderNotification os new old score demotion node vip role mgmt iface p t u n) d s
     (run_state (Dispatch os new old score demotion node vip role mgmt iface p t u n d) s) \<and>
   tells_all os (peer_key ip st)
     (RenderPeerNotification os st name ip err score ls role node info) d s
     (run_state (DispatchPeer os st name ip err score ls role node info d) s) \<and>
   tells_all os vip_loss_key
     (RenderMasterLoss os reason score role node) d s
     (run_state (DispatchMasterLoss os reason score role node d) s)"
  unfolding dispatches
  by (intro conjI dispatch_with_tells_all silentD; rule effect_intros)

end
