(* ===== verification/Heartbeat.thy ===== *)
theory Heartbeat
  imports Carp Health Json
begin

text \<open>
  \<open>internal/peer/heartbeat.go\<close>: the server a node offers its peers. \<open>authMiddleware\<close> compares
  the request's token with the configured ones, the mux of \<open>net/http\<close> picks the page, and the two
  handlers print the last health result and the node's CARP figures as JSON and as Prometheus
  text. The part of the standard library the pages need is here too: the mux's path rule, the UTC
  form of RFC 3339, and \<open>%f\<close> on a number of seconds, with its two roundings to 53 bits.
\<close>

section \<open>Text of the standard library\<close>

text \<open>The civil date of a day counted from 1 January of the year 1, and \<open>RFC3339\<close> in UTC.\<close>

definition year_of_era :: "int \<Rightarrow> int" where
  "year_of_era doe = (doe - doe div 1460 + doe div 36524 - doe div 146096) div 365"

definition day_of_year :: "int \<Rightarrow> int" where
  "day_of_year doe = doe - (365 * year_of_era doe + year_of_era doe div 4 - year_of_era doe div 100)"

definition month_index :: "int \<Rightarrow> int" where
  "month_index doy = (5 * doy + 2) div 153"

definition civil_of_days :: "int \<Rightarrow> int \<times> int \<times> int" where
  "civil_of_days days =
     (let z = days + 306;
          doe = z mod 146097;
          doy = day_of_year doe;
          mp = month_index doy;
          d = doy - (153 * mp + 2) div 5 + 1;
          m = (if mp < 10 then mp + 3 else mp - 9);
          y = year_of_era doe + z div 146097 * 400 + (if m \<le> 2 then 1 else 0)
      in (y, m, d))"

definition pad_left :: "nat \<Rightarrow> string \<Rightarrow> string" where
  "pad_left n s = replicate (n - length s) (CHR ''0'') @ s"

definition Format_UTC_RFC3339 :: "instant \<Rightarrow> string" where
  "Format_UTC_RFC3339 t =
     (let secs = t div second;
          (y, m, d) = civil_of_days (secs div 86400);
          r = secs mod 86400;
          two = (\<lambda>n. pad_left 2 (udigits n))
      in pad_left 4 (udigits y) @ ''-'' @ two m @ ''-'' @ two d @ ''T'' @
         two (r div 3600) @ '':'' @ two (r div 60 mod 60) @ '':'' @ two (r mod 60) @ ''Z'')"

text \<open>
  A positive \<open>float64\<close> as \<open>m * 2 ^ e\<close>, given by a fraction and rounded half to even:
  \<open>ilog2 p\<close> is the exponent of the leading bit of \<open>p\<close>.
\<close>

function ilog2 :: "int \<Rightarrow> int" where
  "ilog2 p = (if p \<le> 1 then 0 else 1 + ilog2 (p div 2))"
  by pat_completeness auto
termination
  by (relation "measure nat") auto

declare ilog2.simps [simp del]

definition round_even :: "int \<Rightarrow> int \<Rightarrow> int" where
  "round_even p q =
     (let f = p div q; r = 2 * (p mod q)
      in if r > q \<or> (r = q \<and> odd f) then f + 1 else f)"

definition shift_frac :: "int \<Rightarrow> int \<Rightarrow> int \<Rightarrow> int \<times> int" where
  "shift_frac p q e = (if e \<ge> 0 then (p, q * 2 ^ nat e) else (p * 2 ^ nat (- e), q))"

definition float_of :: "int \<Rightarrow> int \<Rightarrow> int \<times> int" where
  "float_of p q =
     (if p = 0 then (0, 0)
      else (let e0 = ilog2 p - ilog2 q - 53;
                (a, b) = shift_frac p q e0;
                e = (if a div b \<ge> 2 ^ 53 then e0 + 1 else e0);
                (a, b) = shift_frac p q e
            in (round_even a b, e)))"

definition float_frac :: "int \<times> int \<Rightarrow> int \<times> int" where
  "float_frac x = (case x of (m, e) \<Rightarrow> if e \<ge> 0 then (m * 2 ^ nat e, 1) else (m, 2 ^ nat (- e)))"

text \<open>\<open>fmt.Sprintf("%f", d.Seconds())\<close>\<close>

definition Format_Seconds :: "duration \<Rightarrow> string" where
  "Format_Seconds d =
     (let u = \<bar>d\<bar>;
          (a, b) = float_frac (float_of (u mod second) second);
          (p, q) = float_frac (float_of (u div second * b + a) b);
          n = round_even (p * 1000000) q
      in (if d < 0 then ''-'' else []) @ udigits (n div 1000000) @ ''.'' @ pad_left 6 (udigits (n mod 1000000)))"

section \<open>The server\<close>

record HeartbeatServer =
  hsTokens :: "string \<rightharpoonup> bool"
  hsVIPIface :: string
  hsVhid :: int

definition add_token :: "string \<Rightarrow> (string \<rightharpoonup> bool) \<Rightarrow> (string \<rightharpoonup> bool)" where
  "add_token t tokens = (if t \<noteq> [] then tokens(t \<mapsto> True) else tokens)"

definition NewHeartbeatServer :: "string \<Rightarrow> string list \<Rightarrow> string \<Rightarrow> int \<Rightarrow> HeartbeatServer" where
  "NewHeartbeatServer token peerTokens vipIface vhid =
     \<lparr>hsTokens = fold add_token peerTokens (add_token token Map.empty),
      hsVIPIface = vipIface, hsVhid = vhid\<rparr>"

text \<open>
  A request: \<open>r.Header.Get\<close> (the empty text for a header that is absent), whether its method is
  CONNECT, and \<open>r.URL.Path\<close>.
\<close>

record http_request =
  rHeader :: "string \<Rightarrow> string"
  rConnect :: bool
  rPath :: string

datatype http_reply = Reply (status: int) (content_type: string) (body: string) | MovedPermanently string

definition request_token :: "http_request \<Rightarrow> string" where
  "request_token r =
     (let token = rHeader r ''X-DNS-HA-TOKEN''
      in if token = [] then
           (let auth = rHeader r ''Authorization''
            in if HasPrefix auth ''Bearer '' then TrimPrefix auth ''Bearer '' else token)
         else token)"

definition authorized :: "HeartbeatServer \<Rightarrow> http_request \<Rightarrow> bool" where
  "authorized s r = map_get False (hsTokens s) (request_token r)"

definition authMiddleware :: "HeartbeatServer \<Rightarrow> (http_request \<Rightarrow> ('w io, http_reply) state) \<Rightarrow>
    http_request \<Rightarrow> ('w io, http_reply) state" where
  "authMiddleware s next_handler r =
     (if \<not> authorized s r
      then State_Monad.return (Reply 401 ''text/plain; charset=utf-8'' ''unauthorized\<newline>'')
      else next_handler r)"

section \<open>The pages\<close>

definition carp_text :: "goerr + carp_state \<Rightarrow> string" where
  "carp_text r = (case r of Inl e \<Rightarrow> ''UNKNOWN'' | Inr cs \<Rightarrow> carp_String cs)"

definition handleHealth :: "'w os \<Rightarrow> HeartbeatServer \<Rightarrow> HealthResult \<Rightarrow> ('w io, http_reply) state" where
  "handleHealth os s h = do {
     cs \<leftarrow> ReadState os (hsVIPIface s) (hsVhid s);
     (advskew, _) \<leftarrow> GetAdvskew os (hsVIPIface s) (hsVhid s);
     (demotion, _) \<leftarrow> GetDemotion os;
     (preempt, _) \<leftarrow> GetPreempt os;
     now \<leftarrow> call (os_now os);
     State_Monad.return (Reply 200 ''application/json''
       (encode_heartbeat
          \<lparr>hbScore = hScore h, hbCarpState = carp_text cs, hbAdvskew = advskew,
           hbDemotion = demotion, hbPreempt = preempt\<rparr>
          (Format_UTC_RFC3339 now)))
   }"

definition dq :: string where "dq = [CHR 0x22]"
definition metric_nl :: string where "metric_nl = [CHR ''\<newline>'']"
definition bToI :: "bool \<Rightarrow> int" where "bToI b = (if b then 1 else 0)"

definition metric_head :: "string \<Rightarrow> string \<Rightarrow> string" where
  "metric_head name help =
     ''# HELP '' @ name @ '' '' @ help @ metric_nl @ ''# TYPE '' @ name @ '' gauge'' @ metric_nl"

definition carp_role_line :: "HeartbeatServer \<Rightarrow> string \<Rightarrow> int \<Rightarrow> string" where
  "carp_role_line s role v =
     ''dns_ha_carp_role{role='' @ dq @ role @ dq @ '',interface='' @ dq @ hsVIPIface s @ dq @
     '',vhid='' @ dq @ Itoa (hsVhid s) @ dq @ ''} '' @ Itoa v @ metric_nl"

definition check_status_line :: "string \<Rightarrow> bool \<Rightarrow> string" where
  "check_status_line name ok =
     ''dns_ha_check_status{check='' @ dq @ name @ dq @ ''} '' @ Itoa (bToI ok) @ metric_nl"

definition metrics_text :: "HeartbeatServer \<Rightarrow> HealthResult \<Rightarrow> goerr + carp_state \<Rightarrow> int \<Rightarrow> int \<Rightarrow> int \<Rightarrow> string" where
  "metrics_text s h cs advskew demotion preempt =
     metric_head ''dns_ha_health_score'' ''Current health score of local DNS node (0-100)'' @
     ''dns_ha_health_score '' @ Itoa (hScore h) @ metric_nl @ metric_nl @
     metric_head ''dns_ha_carp_role'' ''CARP role of node (1=Active role, 0=Inactive)'' @
     carp_role_line s ''MASTER'' (bToI (cs = Inr StateMaster)) @
     carp_role_line s ''BACKUP'' (bToI (cs = Inr StateBackup)) @ metric_nl @
     metric_head ''dns_ha_advskew'' ''CARP advskew configured on VIP interface'' @
     ''dns_ha_advskew{interface='' @ dq @ hsVIPIface s @ dq @ '',vhid='' @ dq @ Itoa (hsVhid s) @ dq @
       ''} '' @ Itoa advskew @ metric_nl @ metric_nl @
     metric_head ''dns_ha_demotion_factor'' ''Current CARP demotion counter'' @
     ''dns_ha_demotion_factor '' @ Itoa demotion @ metric_nl @ metric_nl @
     metric_head ''dns_ha_kernel_preempt'' ''FreeBSD net.inet.carp.preempt sysctl status'' @
     ''dns_ha_kernel_preempt '' @ Itoa preempt @ metric_nl @ metric_nl @
     metric_head ''dns_ha_check_status'' ''Health check pass status (1=OK, 0=FAIL)'' @
     check_status_line ''process'' (ProcessAlive h) @
     check_status_line ''tcp'' (TCPAlive h) @
     check_status_line ''udp'' (UDPAlive h) @
     check_status_line ''dns'' (DNSAlive h) @ metric_nl @
     (if Success (DNSDetail h) then
        metric_head ''dns_ha_check_rtt_seconds'' ''Latency of DNS health query in seconds'' @
        ''dns_ha_check_rtt_seconds{check='' @ dq @ ''dns'' @ dq @ ''} '' @
          Format_Seconds (RTT (DNSDetail h)) @ metric_nl @ metric_nl
      else [])"

definition handleMetrics :: "'w os \<Rightarrow> HeartbeatServer \<Rightarrow> HealthResult \<Rightarrow> ('w io, http_reply) state" where
  "handleMetrics os s h = do {
     cs \<leftarrow> ReadState os (hsVIPIface s) (hsVhid s);
     (advskew, _) \<leftarrow> GetAdvskew os (hsVIPIface s) (hsVhid s);
     (demotion, _) \<leftarrow> GetDemotion os;
     (preempt, _) \<leftarrow> GetPreempt os;
     State_Monad.return (Reply 200 ''text/plain; version=0.0.4; charset=utf-8''
       (metrics_text s h cs advskew demotion preempt))
   }"

text \<open>The mux: the path is cleaned first, and a request for another spelling is redirected.\<close>

fun path_step :: "string \<Rightarrow> string list \<Rightarrow> string list" where
  "path_step seg stk =
     (if seg = [] \<or> seg = ''.'' then stk else if seg = ''..'' then butlast stk else stk @ [seg])"

definition cleanPath :: "string \<Rightarrow> string" where
  "cleanPath p =
     (if p = [] then ''/''
      else (let p = (if hd p = CHR ''/'' then p else CHR ''/'' # p);
                np = CHR ''/'' # Join (fold path_step (Split p (CHR ''/'')) []) ''/''
            in if last p = CHR ''/'' \<and> np \<noteq> ''/'' then np @ ''/'' else np))"

definition mux :: "'w os \<Rightarrow> HeartbeatServer \<Rightarrow> HealthResult \<Rightarrow> http_request \<Rightarrow> ('w io, http_reply) state" where
  "mux os s h r =
     (if \<not> rConnect r \<and> cleanPath (rPath r) \<noteq> rPath r
      then State_Monad.return (MovedPermanently (cleanPath (rPath r)))
      else if rPath r = ''/health'' then handleHealth os s h
      else if rPath r = ''/metrics'' then handleMetrics os s h
      else State_Monad.return (Reply 404 ''text/plain; charset=utf-8'' ''404 page not found\<newline>''))"

definition Handler :: "'w os \<Rightarrow> HeartbeatServer \<Rightarrow> HealthResult \<Rightarrow> http_request \<Rightarrow> ('w io, http_reply) state" where
  "Handler os s h = authMiddleware s (mux os s h)"

section \<open>Lemmas\<close>

lemma tokens_fold:
  "map_get False (fold add_token ts m) t \<longleftrightarrow> map_get False m t \<or> t \<noteq> [] \<and> t \<in> set ts"
  by (induction ts arbitrary: m) (auto simp: add_token_def)

lemma authorized_iff:
  "authorized (NewHeartbeatServer token peerTokens vi v) r \<longleftrightarrow>
     request_token r \<noteq> [] \<and> request_token r \<in> set (token # peerTokens)"
  by (auto simp: authorized_def NewHeartbeatServer_def tokens_fold add_token_def)

context reading
begin

lemma keeps_pages [effect_intros]: "keeps R (handleHealth os s h)" "keeps R (handleMetrics os s h)"
  unfolding handleHealth_def handleMetrics_def by (intro effect_intros)+

lemma keeps_mux [effect_intros]: "keeps R (mux os s h r)"
  unfolding mux_def by (intro effect_intros)

lemma keeps_Handler [effect_intros]: "keeps R (Handler os s h r)"
  unfolding Handler_def authMiddleware_def by (intro effect_intros)

end

end
