(* ===== verification/Runner.thy ===== *)
theory Runner
  imports StateFile Tracker Notify Heartbeat
begin

text \<open>
  \<open>internal/agent/runner.go\<close>: the agent's state, one cycle (\<open>runOnce\<close>) and its steps in the order
  of the code, start-up, reload and shutdown. Each step of a cycle is a computation that returns the
  new \<open>Runner\<close>; a method's receiver is passed explicitly. Log calls are left out.
\<close>

section \<open>The agent's state\<close>

record Runner =
  rCfg :: Config
  reloadCh :: "Config option"
  lastHealth :: HealthResult
  lastState :: State
  lastDemotion :: int
  lastIfaceDown :: bool
  wasMaster :: bool
  confirmState :: State
  confirmCount :: int
  preemptCooldown :: instant
  kernelPreemptSince :: instant
  recoveryStreak :: int
  peers :: "peerTracker option"
  peerSrv :: HeartbeatServer
  notifier :: EventDispatcher

definition peerDownThreshold :: int where "peerDownThreshold = 2"
definition preemptCooldownPeriod :: duration where "preemptCooldownPeriod = 60 * second"
definition kernelPreemptGrace :: duration where "kernelPreemptGrace = 15 * second"

definition weightOrDefault :: "int \<Rightarrow> int \<Rightarrow> int" where
  "weightOrDefault configured default_weight = (if configured > 0 then configured else default_weight)"

definition demotionLevels :: "Config \<Rightarrow> DemotionLevels" where
  "demotionLevels cfg =
     \<lparr>dlHealthy = DemotionHealthy (cCARP cfg),
      dlDegraded = (if DemotionDegraded (cCARP cfg) = 0 then 50 else DemotionDegraded (cCARP cfg)),
      dlUnhealthy = (if DemotionUnhealthy (cCARP cfg) = 0 then 255 else DemotionUnhealthy (cCARP cfg))\<rparr>"

section \<open>Start\<close>

definition new_dispatcher :: "NotifyConfig \<Rightarrow> EventDispatcher" where
  "new_dispatcher n =
     (let d = NewEventDispatcher (nCooldown n);
          d = (if mEnabled (Email n) then AddNotifier (EmailNotifier (SMTPHost (Email n)) (SMTPPort (Email n))
                 (Username (Email n)) (Password (Email n)) (From (Email n)) (To (Email n))) d else d);
          d = (if sEnabled (Slack n) then AddNotifier (NewSlackNotifier (WebhookURL (Slack n))) d else d)
      in if gEnabled (Telegram n) then AddNotifier (NewTelegramNotifier (BotToken (Telegram n)) (ChatID (Telegram n))) d
         else d)"

definition restored_state :: "'w os \<Rightarrow> string \<Rightarrow> ('w io, State) state" where
  "restored_state os path =
     (if path \<noteq> [] then do {
        (loaded, ok) \<leftarrow> loadState os path;
        State_Monad.return (if ok then loaded else StateHealthy)
      }
      else State_Monad.return StateHealthy)"

definition NewRunner :: "'w os \<Rightarrow> Config \<Rightarrow> ('w io, Runner) state" where
  "NewRunner os cfg = do {
     st \<leftarrow> restored_state os (StateFile (cAgent cfg));
     State_Monad.return
       \<lparr>rCfg = cfg, reloadCh = None, lastHealth = zeroHealthResult, lastState = st, lastDemotion = -1,
        lastIfaceDown = False, wasMaster = False, confirmState = StateHealthy, confirmCount = 0,
        preemptCooldown = 0, kernelPreemptSince = 0, recoveryStreak = 0, peers = None,
        peerSrv = NewHeartbeatServer (Token (cPeer cfg)) (map eToken (Peers (cPeer cfg)))
          (VIPInterface (cAgent cfg)) (VHID (cAgent cfg)),
        notifier = new_dispatcher (cNotify cfg)\<rparr>
   }"

section \<open>What a cycle observes\<close>

definition health_config :: "Config \<Rightarrow> ProcessConfig" where
  "health_config cfg =
     (let h = cHealth cfg; q = hDNSQuery h; w = hWeights h
      in \<lparr>ProcessNames = ProcessList h,
          ProcessWeight = (if ProcessCheck h then weightOrDefault (cwProcess w) (wProcess DefaultWeights) else 0),
          TCPWeight = (if TCPCheck h then weightOrDefault (cwTCP w) (wTCP DefaultWeights) else 0),
          UDPWeight = (if UDPCheck h then weightOrDefault (cwUDP w) (wUDP DefaultWeights) else 0),
          DNSWeight = weightOrDefault (cwDNS w) (wDNS DefaultWeights),
          DNSEnabled = qEnabled q, DNSDomain = qDomain q, DNSDomains = DomainList q,
          DNSRecordType = Type q, DNSLatencyThreshold = qLatencyThreshold q,
          BindAddress = hBindAddress h, BindAddresses = BindAddressList h, Timeout = qTimeout q\<rparr>)"

definition peer_entries :: "Config \<Rightarrow> PeerEntry list" where
  "peer_entries cfg =
     map (\<lambda>p. \<lparr>eIP = eIP p, eName = eName p, eToken = TokenFor (cPeer cfg) p\<rparr>) (Peers (cPeer cfg))"

definition check_options :: "Config \<Rightarrow> CheckOptions" where
  "check_options cfg =
     \<lparr>oPort = PortNum (cPeer cfg), oTimeout = 3 * second, oPing = Ping (cPeer cfg),
      oTLS = tEnabled (TLS (cPeer cfg)), oDNSPort = DNSPort (cPeer cfg),
      oDNSDomain = qDomain (hDNSQuery (cHealth cfg))\<rparr>"

record observation =
  obsHealth :: HealthResult
  obsCarp :: carp_state
  obsPeers :: "PeerHealth list"

definition observe :: "'w os \<Rightarrow> (string \<Rightarrow> goerr) \<Rightarrow> Config \<Rightarrow> ('w io, observation) state" where
  "observe os json_err cfg = do {
     healthResult \<leftarrow> RunChecks os (health_config cfg);
     cs \<leftarrow> ReadState os (VIPInterface (cAgent cfg)) (VHID (cAgent cfg));
     let carpState = (case cs of Inl e \<Rightarrow> StateUnknown | Inr c \<Rightarrow> c);
     peerHealths \<leftarrow> (if pEnabled (cPeer cfg) then CheckAllPeers os json_err (peer_entries cfg) (check_options cfg)
                      else State_Monad.return []);
     State_Monad.return \<lparr>obsHealth = healthResult, obsCarp = carpState, obsPeers = peerHealths\<rparr>
   }"

section \<open>What it decides\<close>

definition recovery_confirm :: "Config \<Rightarrow> int" where
  "recovery_confirm cfg =
     (if RecoveryConfirm (cAgent cfg) = 0 then DefaultRecoveryConfirm else RecoveryConfirm (cAgent cfg))"

definition notify_confirm :: "Config \<Rightarrow> int" where
  "notify_confirm cfg = (if Confirm (cNotify cfg) = 0 then DefaultNotifyConfirm else Confirm (cNotify cfg))"

record verdict =
  vDecision :: PolicyDecision
  vHeld :: bool
  vState :: State
  vChanged :: bool
  vReady :: bool

text \<open>The policy's decision after the recovery hold: the decision, the streak, whether it is held.\<close>

definition held_decision :: "Runner \<Rightarrow> observation \<Rightarrow> PolicyDecision \<times> int \<times> bool" where
  "held_decision r obs =
     (let cfg = rCfg r; h = obsHealth obs; mode = ParsePolicyMode (cPolicyMode cfg)
      in applyRecoveryHold mode
           (EvaluatePolicy mode (hScore h) (obsCarp obs) (obsPeers obs) (demotionLevels cfg))
           (lastIfaceDown r) (RawScore h) (MaxScore h) (recovery_confirm cfg) (recoveryStreak r) (demotionLevels cfg))"

text \<open>The bookkeeping of the notification debounce.\<close>

definition debounce :: "State \<Rightarrow> Runner \<Rightarrow> Runner" where
  "debounce currentState r =
     (if currentState = confirmState r then r\<lparr>confirmCount := i64 (confirmCount r + 1)\<rparr>
      else r\<lparr>confirmState := currentState, confirmCount := 1\<rparr>)"

definition decide :: "Runner \<Rightarrow> observation \<Rightarrow> verdict \<times> Runner" where
  "decide r obs =
     (let (decision, streak, held) = held_decision r obs;
          currentState = (if held then StateUnhealthy else StateFromScore (hScore (obsHealth obs)));
          stateChanged = Transitioned currentState (lastState r);
          r = debounce currentState (r\<lparr>recoveryStreak := streak\<rparr>)
      in (\<lparr>vDecision = decision, vHeld = held, vState = currentState, vChanged = stateChanged,
           vReady = (confirmCount r \<ge> notify_confirm (rCfg r))\<rparr>, r))"

section \<open>Step 1: the interface and the demotion\<close>

definition vip_iface :: "Runner \<Rightarrow> string" where
  "vip_iface r = VIPInterface (cAgent (rCfg r))"

definition set_demotion_if_new :: "'w os \<Rightarrow> PolicyDecision \<Rightarrow> Runner \<Rightarrow> ('w io, unit) state" where
  "set_demotion_if_new os d r =
     (if DesiredDemotion d \<noteq> lastDemotion r
      then do { _ \<leftarrow> SetDemotion os (DesiredDemotion d); State_Monad.return () }
      else State_Monad.return ())"

definition apply_posture :: "'w os \<Rightarrow> PolicyDecision \<Rightarrow> Runner \<Rightarrow> ('w io, Runner) state" where
  "apply_posture os d r =
     (if DesiredIfaceDown d \<and> \<not> lastIfaceDown r then do {
        _ \<leftarrow> set_demotion_if_new os d r;
        _ \<leftarrow> InterfaceDown os (vip_iface r);
        State_Monad.return (r\<lparr>lastIfaceDown := True, lastDemotion := DesiredDemotion d\<rparr>)
      }
      else if \<not> DesiredIfaceDown d \<and> lastIfaceDown r then do {
        _ \<leftarrow> InterfaceUp os (vip_iface r);
        _ \<leftarrow> set_demotion_if_new os d r;
        State_Monad.return (r\<lparr>lastIfaceDown := False, lastDemotion := DesiredDemotion d\<rparr>)
      }
      else if DesiredDemotion d \<noteq> lastDemotion r then do {
        _ \<leftarrow> SetDemotion os (DesiredDemotion d);
        State_Monad.return (r\<lparr>lastDemotion := DesiredDemotion d\<rparr>)
      }
      else State_Monad.return r)"

definition actual_demotion :: "'w os \<Rightarrow> PolicyDecision \<Rightarrow> ('w io, int) state" where
  "actual_demotion os d = do {
     (demotion, err) \<leftarrow> GetDemotion os;
     State_Monad.return (if err = None then demotion else DesiredDemotion d)
   }"

section \<open>Step 2: stepping down for a peer of higher priority\<close>

definition effective :: "PeerHealth \<Rightarrow> int" where
  "effective ph = i64 (phAdvskew ph + phDemotion ph)"

definition step_down :: "'w os \<Rightarrow> Runner \<Rightarrow> ('w io, Runner) state" where
  "step_down os r = do {
     _ \<leftarrow> InterfaceDown os (vip_iface r);
     now \<leftarrow> call (os_now os);
     State_Monad.return (r\<lparr>lastIfaceDown := True, preemptCooldown := now\<rparr>)
   }"

definition start_timer :: "'w os \<Rightarrow> Runner \<Rightarrow> ('w io, Runner) state" where
  "start_timer os r =
     (if IsZero (kernelPreemptSince r)
      then do { now \<leftarrow> call (os_now os); State_Monad.return (r\<lparr>kernelPreemptSince := now\<rparr>) }
      else State_Monad.return r)"

text \<open>The step-down ends the loop with \<open>awaitingKernel\<close> false.\<close>

definition give_way :: "'w os \<Rightarrow> Runner \<Rightarrow> ('w io, Runner \<times> bool) state" where
  "give_way os r = do { r \<leftarrow> step_down os r; State_Monad.return (r, False) }"

text \<open>
  A peer whose kernel should reclaim the VIP by itself: within the grace period the loop goes on
  (\<open>continue\<close>) with \<open>awaitingKernel\<close> true; after it the agent steps down. The clock is read once
  more for the log line.
\<close>

definition defer_to_kernel :: "'w os \<Rightarrow> (Runner \<Rightarrow> ('w io, Runner \<times> bool) state) \<Rightarrow> Runner \<Rightarrow> ('w io, Runner \<times> bool) state" where
  "defer_to_kernel os continue r = do {
     r \<leftarrow> start_timer os r;
     now \<leftarrow> call (os_now os);
     if time_Sub now (kernelPreemptSince r) < kernelPreemptGrace then continue r
     else do {
       _ \<leftarrow> call (os_now os);
       give_way os r
     }
   }"

text \<open>The loop over the peers; the flag is \<open>awaitingKernel\<close>.\<close>

fun preempt_scan :: "'w os \<Rightarrow> int \<Rightarrow> PeerHealth list \<Rightarrow> Runner \<times> bool \<Rightarrow> ('w io, Runner \<times> bool) state" where
  "preempt_scan os myEffective [] ra = State_Monad.return ra"
| "preempt_scan os myEffective (ph # phs) (r, awaiting) =
     (if \<not> phOK ph \<or> phScore ph < 80 then preempt_scan os myEffective phs (r, awaiting)
      else if effective ph \<ge> myEffective then preempt_scan os myEffective phs (r, awaiting)
      else do {
        now \<leftarrow> call (os_now os);
        if time_Sub now (preemptCooldown r) \<le> preemptCooldownPeriod
        then preempt_scan os myEffective phs (r, awaiting)
        else if phPreempt ph = 1
        then defer_to_kernel os (\<lambda>r. preempt_scan os myEffective phs (r, True)) r
        else give_way os r
      })"

definition may_preempt :: "observation \<Rightarrow> verdict \<Rightarrow> Runner \<Rightarrow> bool" where
  "may_preempt obs v r \<longleftrightarrow>
     ParsePolicyMode (cPolicyMode (rCfg r)) = PolicyPreempt \<and> \<not> DesiredIfaceDown (vDecision v) \<and>
     obsCarp obs = StateMaster \<and> vState v = StateHealthy"

definition preempt_step :: "'w os \<Rightarrow> observation \<Rightarrow> verdict \<Rightarrow> int \<Rightarrow> Runner \<Rightarrow> ('w io, Runner) state" where
  "preempt_step os obs v actualDemotion r =
     (if may_preempt obs v r then do {
        (localAdvskew, _) \<leftarrow> GetAdvskew os (vip_iface r) (VHID (cAgent (rCfg r)));
        (r, awaiting) \<leftarrow> preempt_scan os (i64 (localAdvskew + actualDemotion)) (obsPeers obs) (r, False);
        State_Monad.return (if \<not> awaiting then r\<lparr>kernelPreemptSince := 0\<rparr> else r)
      }
      else State_Monad.return (r\<lparr>kernelPreemptSince := 0\<rparr>))"

section \<open>Steps 3 and 4: the CARP state that is reported\<close>

definition refresh_carp :: "'w os \<Rightarrow> observation \<Rightarrow> verdict \<Rightarrow> Runner \<Rightarrow> ('w io, carp_state) state" where
  "refresh_carp os obs v r =
     (if vChanged v \<or> lastIfaceDown r \<noteq> DesiredIfaceDown (vDecision v) then do {
        cs \<leftarrow> ReadState os (vip_iface r) (VHID (cAgent (rCfg r)));
        State_Monad.return (case cs of Inl e \<Rightarrow> obsCarp obs | Inr c \<Rightarrow> c)
      }
      else State_Monad.return (obsCarp obs))"

definition predict_carp :: "'w os \<Rightarrow> observation \<Rightarrow> verdict \<Rightarrow> int \<Rightarrow> carp_state \<Rightarrow> Runner \<Rightarrow> ('w io, carp_state) state" where
  "predict_carp os obs v actualDemotion carpState r =
     (if ParsePolicyMode (cPolicyMode (rCfg r)) = PolicyPreempt \<and> vState v = StateHealthy \<and> carpState = StateBackup
      then do {
        (localAdvskew, err) \<leftarrow> GetAdvskew os (vip_iface r) (VHID (cAgent (rCfg r)));
        let myEffective = i64 (localAdvskew + actualDemotion);
        State_Monad.return
          (if err = None \<and> \<not> list_ex (\<lambda>ph. phOK ph \<and> phScore ph \<ge> 80 \<and> effective ph \<le> myEffective) (obsPeers obs)
           then StateMaster else carpState)
      }
      else State_Monad.return carpState)"

section \<open>Alerts about peers\<close>

definition udpProbeString :: "bool \<Rightarrow> string" where
  "udpProbeString ok = (if ok then check_mark @ '' answering DNS queries'' else cross_mark @ '' not answering DNS queries'')"

definition pingProbeString :: "bool \<Rightarrow> string \<Rightarrow> string" where
  "pingProbeString ok detail =
     (if ok then (if detail \<noteq> [] then check_mark @ '' reply, '' @ detail else check_mark @ '' replying'')
      else if detail \<noteq> [] then cross_mark @ '' no reply '' @ em_dash @ '' '' @ detail
      else cross_mark @ '' no reply'')"

definition peer_status :: "PeerHealth \<Rightarrow> string" where
  "peer_status ph =
     (if phSeverity ph = SeverityNone then ''DOWN (unreachable)'' else Severity_String (phSeverity ph))"

definition probe_info :: "PeerHealth \<Rightarrow> peerTracker \<Rightarrow> PeerProbeInfo" where
  "probe_info ph t =
     \<lparr>piDiagnosis = phDiagnosis ph, piLastCarp = LastCarp (phIP ph) t,
      piPing = pingProbeString (phPingOK ph) (phPingDetail ph),
      piAgentProbe = Probe_String (phAgentProbe ph), piTCP53 = Probe_String (phTCP53 ph),
      piUDP53 = udpProbeString (phUDP53OK ph)\<rparr>"

text \<open>What the alerts say of this node.\<close>

record report =
  repScore :: int
  repState :: State
  repCarp :: carp_state
  repNodeIP :: string

definition send_peer_alert :: "'w os \<Rightarrow> report \<Rightarrow> string \<Rightarrow> string \<Rightarrow> PeerHealth \<Rightarrow> PeerProbeInfo \<Rightarrow>
    EventDispatcher \<Rightarrow> ('w io, EventDispatcher) state" where
  "send_peer_alert os rep st errorMsg ph info d =
     DispatchPeer os st (phName ph) (phIP ph) errorMsg (repScore rep) (State_String (repState rep))
       (carp_String (repCarp rep)) (repNodeIP rep) info d"

definition alert_peer :: "'w os \<Rightarrow> report \<Rightarrow> PeerHealth \<Rightarrow> peerTracker \<times> EventDispatcher \<Rightarrow>
    ('w io, peerTracker \<times> EventDispatcher) state" where
  "alert_peer os rep ph td =
     (let (t, d) = td;
          t = rememberCarp (phIP ph) (phCarp ph) t;
          ((wentDown, cameUp), t) = Update (phIP ph) (phOK ph) t;
          st = peer_status ph;
          info = probe_info ph t
      in if wentDown then do {
           d \<leftarrow> send_peer_alert os rep st (phError ph) ph info d;
           State_Monad.return (SetStatus (phIP ph) st t, d)
         }
         else if cameUp then do {
           d \<leftarrow> send_peer_alert os rep ''UP (recovered)'' [] ph emptyProbeInfo d;
           State_Monad.return (SetStatus (phIP ph) [] t, d)
         }
         else if \<not> phOK ph \<and> Status (phIP ph) t \<noteq> [] \<and> st \<noteq> Status (phIP ph) t then do {
           d \<leftarrow> send_peer_alert os rep st (phError ph) ph info d;
           State_Monad.return (SetStatus (phIP ph) st t, d)
         }
         else if \<not> phOK ph \<and> phSeverity ph = SeverityCritical then do {
           d \<leftarrow> send_peer_alert os rep st (phError ph) ph info d;
           State_Monad.return (t, d)
         }
         else State_Monad.return (t, d))"

definition peer_alerts :: "'w os \<Rightarrow> observation \<Rightarrow> verdict \<Rightarrow> carp_state \<Rightarrow> Runner \<Rightarrow> ('w io, Runner) state" where
  "peer_alerts os obs v notificationCarp r =
     (if pEnabled (cPeer (rCfg r)) then do {
        let t = (case peers r of None \<Rightarrow> newPeerTracker peerDownThreshold | Some t \<Rightarrow> t);
        (nodeIP, _) \<leftarrow> GetNodeIP os (Interface (cAgent (rCfg r)));
        let rep = \<lparr>repScore = hScore (obsHealth obs), repState = vState v, repCarp = notificationCarp, repNodeIP = nodeIP\<rparr>;
        (t, d) \<leftarrow> foldM (alert_peer os rep) (obsPeers obs) (t, notifier r);
        State_Monad.return (r\<lparr>peers := Some t, notifier := d\<rparr>)
      }
      else State_Monad.return r)"

section \<open>Alerts about this node\<close>

definition announce_state :: "'w os \<Rightarrow> observation \<Rightarrow> verdict \<Rightarrow> carp_state \<Rightarrow> Runner \<Rightarrow> ('w io, Runner) state" where
  "announce_state os obs v notificationCarp r =
     (if vChanged v \<and> vReady v then do {
        let a = cAgent (rCfg r);
        let h = obsHealth obs;
        (nodeIP, _) \<leftarrow> GetNodeIP os (Interface a);
        (vip, _) \<leftarrow> GetVIP os (VIPInterface a) (VHID a);
        d \<leftarrow> Dispatch os (State_String (vState v)) (State_String (lastState r)) (hScore h)
               (DesiredDemotion (vDecision v)) nodeIP vip (carp_String notificationCarp) (Interface a) (VIPInterface a)
               (ProcessAlive h) (TCPAlive h) (UDPAlive h) (DNSAlive h) (notifier r);
        let r = r\<lparr>notifier := d, lastState := vState v\<rparr>;
        _ \<leftarrow> (if StateFile a \<noteq> [] then saveState os (StateFile a) (lastState r) else State_Monad.return None);
        State_Monad.return r
      }
      else State_Monad.return r)"

definition vip_loss_alert :: "'w os \<Rightarrow> observation \<Rightarrow> verdict \<Rightarrow> int \<Rightarrow> carp_state \<Rightarrow> Runner \<Rightarrow> ('w io, Runner) state" where
  "vip_loss_alert os obs v actualDemotion notificationCarp r =
     (let a = cAgent (rCfg r)
      in if VIPLossAlert (cNotify (rCfg r)) \<and> ParsePolicyMode (cPolicyMode (rCfg r)) = PolicyPreempt \<and>
            wasMaster r \<and> notificationCarp = StateBackup \<and> vState v = StateHealthy
         then do {
           (localAdvskew, _) \<leftarrow> GetAdvskew os (VIPInterface a) (VHID a);
           let myEffective = i64 (localAdvskew + actualDemotion);
           if \<not> list_ex (\<lambda>ph. phOK ph \<and> phScore ph \<ge> 80 \<and> effective ph < myEffective) (obsPeers obs)
           then do {
             (nodeIP, _) \<leftarrow> GetNodeIP os (Interface a);
             d \<leftarrow> DispatchMasterLoss os ''lost without higher-priority peer'' (hScore (obsHealth obs))
                    (carp_String notificationCarp) nodeIP (notifier r);
             State_Monad.return (r\<lparr>notifier := d\<rparr>)
           }
           else State_Monad.return r
         }
         else State_Monad.return r)"

definition remember_master :: "verdict \<Rightarrow> carp_state \<Rightarrow> Runner \<Rightarrow> Runner" where
  "remember_master v notificationCarp r =
     (if vState v = StateHealthy then r\<lparr>wasMaster := (notificationCarp = StateMaster)\<rparr> else r)"

section \<open>A cycle\<close>

text \<open>The part that acts on the machine, and the part that tells people.\<close>

definition act :: "'w os \<Rightarrow> observation \<Rightarrow> verdict \<Rightarrow> Runner \<Rightarrow> ('w io, int \<times> Runner) state" where
  "act os obs v r = do {
     r \<leftarrow> apply_posture os (vDecision v) r;
     actualDemotion \<leftarrow> actual_demotion os (vDecision v);
     r \<leftarrow> preempt_step os obs v actualDemotion r;
     State_Monad.return (actualDemotion, r)
   }"

definition tell :: "'w os \<Rightarrow> observation \<Rightarrow> verdict \<Rightarrow> int \<Rightarrow> Runner \<Rightarrow> ('w io, Runner) state" where
  "tell os obs v actualDemotion r = do {
     carpState \<leftarrow> refresh_carp os obs v r;
     notificationCarp \<leftarrow> predict_carp os obs v actualDemotion carpState r;
     r \<leftarrow> peer_alerts os obs v notificationCarp r;
     r \<leftarrow> announce_state os obs v notificationCarp r;
     r \<leftarrow> vip_loss_alert os obs v actualDemotion notificationCarp r;
     State_Monad.return (remember_master v notificationCarp r)
   }"

definition react :: "'w os \<Rightarrow> observation \<Rightarrow> Runner \<Rightarrow> ('w io, Runner) state" where
  "react os obs r =
     (let (v, r) = decide (r\<lparr>lastHealth := obsHealth obs\<rparr>) obs
      in do {
        (actualDemotion, r) \<leftarrow> act os obs v r;
        tell os obs v actualDemotion r
      })"

definition runOnce :: "'w os \<Rightarrow> (string \<Rightarrow> goerr) \<Rightarrow> Runner \<Rightarrow> ('w io, Runner) state" where
  "runOnce os json_err r = do {
     obs \<leftarrow> observe os json_err (rCfg r);
     react os obs r
   }"

section \<open>Reload and shutdown\<close>

text \<open>The channel of pending configurations holds one.\<close>

definition Reload :: "Config \<Rightarrow> Runner \<Rightarrow> Runner" where
  "Reload newCfg r = (case reloadCh r of None \<Rightarrow> r\<lparr>reloadCh := Some newCfg\<rparr> | Some c \<Rightarrow> r)"

definition swap_config :: "Runner \<Rightarrow> Runner" where
  "swap_config r = (case reloadCh r of None \<Rightarrow> r | Some newCfg \<Rightarrow> r\<lparr>rCfg := newCfg, reloadCh := None\<rparr>)"

definition Stop :: "'w os \<Rightarrow> Runner \<Rightarrow> ('w io, Runner) state" where
  "Stop os r = do {
     r \<leftarrow> (if lastIfaceDown r then do {
              _ \<leftarrow> InterfaceUp os (vip_iface r);
              _ \<leftarrow> SetDemotion os 0;
              State_Monad.return (r\<lparr>lastIfaceDown := False\<rparr>)
            }
            else State_Monad.return r);
     _ \<leftarrow> (if StateFile (cAgent (rCfg r)) \<noteq> [] then saveState os (StateFile (cAgent (rCfg r))) (lastState r)
           else State_Monad.return None);
     State_Monad.return r
   }"

section \<open>What each step may do\<close>

context reading
begin

lemma keeps_restored_state [effect_intros]: "keeps R (restored_state os path)"
  unfolding restored_state_def by (intro effect_intros)

lemma keeps_NewRunner [effect_intros]: "keeps R (NewRunner os cfg)"
  unfolding NewRunner_def by (intro effect_intros)

lemma keeps_observe [effect_intros]: "keeps R (observe os json_err cfg)"
  unfolding observe_def by (intro effect_intros)

lemma keeps_estimates [effect_intros]:
  "keeps R (actual_demotion os d)" "keeps R (refresh_carp os obs v r)" "keeps R (predict_carp os obs v n c r)"
  unfolding actual_demotion_def refresh_carp_def predict_carp_def by (intro effect_intros)+

end

context reporting
begin

lemma keeps_alert_peer [effect_intros]: "keeps R (alert_peer os rep ph td)"
  unfolding alert_peer_def send_peer_alert_def case_prod_beta by (intro effect_intros)

lemma keeps_alerts [effect_intros]:
  "keeps R (peer_alerts os obs v c r)" "keeps R (announce_state os obs v c r)"
  "keeps R (vip_loss_alert os obs v n c r)"
  unfolding peer_alerts_def announce_state_def vip_loss_alert_def by (intro effect_intros)+

lemma keeps_tell [effect_intros]: "keeps R (tell os obs v n r)"
  unfolding tell_def by (intro effect_intros)

end

context acting
begin

lemma keeps_apply_posture [effect_intros]: "keeps R (apply_posture os d r)"
  unfolding apply_posture_def set_demotion_if_new_def by (intro effect_intros)

lemma keeps_step_down [effect_intros]: "keeps R (step_down os r)"
  unfolding step_down_def by (intro effect_intros)

lemma keeps_give_way [effect_intros]: "keeps R (give_way os r)"
  unfolding give_way_def by (intro effect_intros)

lemma keeps_defer_to_kernel [effect_intros]: "(\<And>r. keeps R (k r)) \<Longrightarrow> keeps R (defer_to_kernel os k r)"
  unfolding defer_to_kernel_def start_timer_def by (intro effect_intros)

lemma keeps_preempt_scan [effect_intros]: "keeps R (preempt_scan os my phs ra)"
proof (induction phs arbitrary: ra)
  case (Cons ph phs)
  obtain r aw where "ra = (r, aw)" by (cases ra)
  with Cons show ?case by (auto intro!: effect_intros)
next
  case Nil
  then show ?case by (auto intro: effect_intros)
qed

lemma keeps_act [effect_intros]: "keeps R (act os obs v r)"
  unfolding act_def preempt_step_def by (intro effect_intros)

lemma keeps_react [effect_intros]: "keeps R (react os obs r)"
  unfolding react_def by (intro effect_intros)

lemma keeps_runOnce [effect_intros]: "keeps R (runOnce os json_err r)"
  unfolding runOnce_def by (intro effect_intros)

lemma keeps_Stop [effect_intros]: "keeps R (Stop os r)"
  unfolding Stop_def by (intro effect_intros)

end

end
