(* ===== verification/Cycle.thy ===== *)
theory Cycle
  imports Runner
begin

text \<open>
  What one cycle of the agent does to the machine and to the agent's own state, for every outcome
  of its observations: the commands it runs and their order, when it takes the interface down, what
  it reports, and what it leaves alone.
\<close>

section \<open>Step 1\<close>

definition posture :: "PolicyDecision \<Rightarrow> Runner \<Rightarrow> Runner" where
  "posture d r = r\<lparr>lastIfaceDown := DesiredIfaceDown d, lastDemotion := DesiredDemotion d\<rparr>"

lemma apply_posture_result: "fst (run_state (apply_posture os d r) s) = posture d r"
  by (simp add: apply_posture_def posture_def case_prod_beta)

lemma commands_InterfaceDown [simp]:
  "commands (snd (run_state (InterfaceDown os i) s)) = commands s @ [ev_down i]"
  by (simp add: commands_actions) (simp add: ev_down_def)

lemma commands_InterfaceUp [simp]:
  "commands (snd (run_state (InterfaceUp os i) s)) = commands s @ [ev_up i]"
  by (simp add: commands_actions) (simp add: ev_up_def)

text \<open>
  What \<open>SetDemotion\<close> writes: the kernel adds what it is given, so the counter is read and the difference
  to the target written, nothing when there is none, and the target itself when the reading failed.
\<close>

definition demotion_writes :: "int \<times> goerr option \<Rightarrow> int \<Rightarrow> int list" where
  "demotion_writes answer target =
     (case answer of (current, err) \<Rightarrow>
        if err \<noteq> None then [target] else if current = target then [] else [i64 (target - current)])"

lemma demotion_writes_one: "length (demotion_writes answer target) \<le> 1"
  by (simp add: demotion_writes_def case_prod_beta)

lemma commands_writeDemotion [simp]:
  "commands (snd (run_state (writeDemotion os d) s)) = commands s @ [ev_demotion d]"
  by (simp add: commands_actions) (simp add: ev_demotion_def)

lemma commands_SetDemotion:
  "commands (snd (run_state (SetDemotion os target) s)) =
     commands s @ map ev_demotion (demotion_writes (fst (run_state (GetDemotion os) s)) target)"
proof -
  have "commands (snd (run_state (GetDemotion os) s)) = commands s"
    by (rule calmD) (rule effect_intros)
  then show ?thesis by (simp add: SetDemotion_def case_prod_beta demotion_writes_def)
qed

text \<open>
  The writes of a posture: none if the level is the one asked for last; otherwise they follow the counter
  as it is read at that moment, which is after the interface came up if the posture brings it up.
\<close>

definition posture_writes :: "'w os \<Rightarrow> PolicyDecision \<Rightarrow> Runner \<Rightarrow> 'w io \<Rightarrow> int list" where
  "posture_writes os d r s =
     (if DesiredDemotion d = lastDemotion r then []
      else demotion_writes
        (fst (run_state (GetDemotion os)
           (if \<not> DesiredIfaceDown d \<and> lastIfaceDown r then snd (run_state (InterfaceUp os (vip_iface r)) s) else s)))
        (DesiredDemotion d))"

lemma posture_writes_one:
  "length (posture_writes os d r s) \<le> 1 \<and> (DesiredDemotion d = lastDemotion r \<longrightarrow> posture_writes os d r s = [])"
  unfolding posture_writes_def using demotion_writes_one by simp

text \<open>The commands of a posture, around at most one write of the demotion.\<close>

definition posture_commands :: "string \<Rightarrow> bool \<Rightarrow> bool \<Rightarrow> event list \<Rightarrow> event list" where
  "posture_commands i was_down want_down ds =
     (if want_down \<and> \<not> was_down then ds @ [ev_down i]
      else if \<not> want_down \<and> was_down then ev_up i # ds
      else ds)"

lemma apply_posture_commands:
  "commands (snd (run_state (apply_posture os d r) s)) =
     commands s @ posture_commands (vip_iface r) (lastIfaceDown r) (DesiredIfaceDown d)
       (map ev_demotion (posture_writes os d r s))"
  by (auto simp: apply_posture_def set_demotion_if_new_def posture_commands_def posture_writes_def case_prod_beta
      commands_SetDemotion)

section \<open>Step 2\<close>

definition wait_base :: "('w \<Rightarrow> instant) \<Rightarrow> Runner \<Rightarrow> 'w io \<Rightarrow> instant" where
  "wait_base clk r s = (if IsZero (kernelPreemptSince r) then clk (io_world s) else kernelPreemptSince r)"

definition outranks :: "int \<Rightarrow> PeerHealth \<Rightarrow> bool" where
  "outranks my ph \<longleftrightarrow> phOK ph \<and> 80 \<le> phScore ph \<and> effective ph < my"

definition stepped :: "instant \<Rightarrow> instant \<Rightarrow> Runner \<Rightarrow> Runner" where
  "stepped k t r = r\<lparr>kernelPreemptSince := k, lastIfaceDown := True, preemptCooldown := t\<rparr>"

text \<open>What a scan leaves: nothing but the timer, or a step-down for a peer that allows it.\<close>

definition scan_post :: "'w os \<Rightarrow> ('w \<Rightarrow> instant) \<Rightarrow> int \<Rightarrow> PeerHealth list \<Rightarrow> Runner \<Rightarrow> 'w io \<Rightarrow>
    Runner \<times> bool \<Rightarrow> 'w io \<Rightarrow> bool" where
  "scan_post os clk my phs r s ra s' \<longleftrightarrow>
     (\<exists>k. fst ra = r\<lparr>kernelPreemptSince := k\<rparr> \<and> commands s' = commands s) \<or>
     (\<exists>k t ph. fst ra = stepped k t r \<and> commands s' = commands s @ [ev_down (vip_iface r)] \<and>
        ph \<in> set phs \<and> outranks my ph \<and>
        (clock_ok os clk \<longrightarrow> preemptCooldown r + preemptCooldownPeriod \<le> t \<and>
           clk (io_world s) \<le> t \<and> t \<le> clk (io_world s') \<and>
           (phPreempt ph = 1 \<longrightarrow> wait_base clk r s + kernelPreemptGrace \<le> t)))"

lemma scan_post_idle: "commands s' = commands s \<Longrightarrow> scan_post os clk my phs r s (r, aw) s'"
  unfolding scan_post_def by (rule disjI1) (auto intro: exI [of _ "kernelPreemptSince r"])

lemma scan_post_later:
  assumes "scan_post os clk my phs (r\<lparr>kernelPreemptSince := k2\<rparr>) s2 ra s'" and "commands s2 = commands s"
    and "clock_ok os clk \<Longrightarrow> clk (io_world s) \<le> clk (io_world s2)"
    and "clock_ok os clk \<Longrightarrow> wait_base clk r s \<le> wait_base clk (r\<lparr>kernelPreemptSince := k2\<rparr>) s2"
  shows "scan_post os clk my (ph # phs) r s ra s'"
proof -
  from assms(1) consider (idle) k where "fst ra = r\<lparr>kernelPreemptSince := k\<rparr>" "commands s' = commands s2"
    | (down) k t ph' where "fst ra = stepped k t r" "commands s' = commands s2 @ [ev_down (vip_iface r)]"
        "ph' \<in> set phs" "outranks my ph'"
        "clock_ok os clk \<longrightarrow> preemptCooldown r + preemptCooldownPeriod \<le> t \<and>
           clk (io_world s2) \<le> t \<and> t \<le> clk (io_world s') \<and>
           (phPreempt ph' = 1 \<longrightarrow> wait_base clk (r\<lparr>kernelPreemptSince := k2\<rparr>) s2 + kernelPreemptGrace \<le> t)"
    unfolding scan_post_def stepped_def vip_iface_def by auto
  then show ?thesis
  proof cases
    case idle
    with assms(2) show ?thesis unfolding scan_post_def by metis
  next
    case (down k t ph')
    have "clock_ok os clk \<longrightarrow> preemptCooldown r + preemptCooldownPeriod \<le> t \<and>
        clk (io_world s) \<le> t \<and> t \<le> clk (io_world s') \<and>
        (phPreempt ph' = 1 \<longrightarrow> wait_base clk r s + kernelPreemptGrace \<le> t)"
    proof
      assume ok: "clock_ok os clk"
      with down(5) assms(3) [OF ok] assms(4) [OF ok]
      show "preemptCooldown r + preemptCooldownPeriod \<le> t \<and> clk (io_world s) \<le> t \<and> t \<le> clk (io_world s') \<and>
          (phPreempt ph' = 1 \<longrightarrow> wait_base clk r s + kernelPreemptGrace \<le> t)"
        by linarith
    qed
    moreover have "commands s' = commands s @ [ev_down (vip_iface r)]" "ph' \<in> set (ph # phs)"
      using down(2,3) assms(2) by simp_all
    ultimately show ?thesis unfolding scan_post_def using down(1,4) by blast
  qed
qed

lemma scan_post_skip:
  "scan_post os clk my phs r s2 ra s' \<Longrightarrow> commands s2 = commands s \<Longrightarrow>
   (clock_ok os clk \<Longrightarrow> clk (io_world s) \<le> clk (io_world s2)) \<Longrightarrow>
   scan_post os clk my (ph # phs) r s ra s'"
  by (rule scan_post_later [where ?k2.0 = "kernelPreemptSince r" and ?s2.0 = s2]) (simp_all add: wait_base_def)

lemma wp_now:
  assumes "\<And>t s'. commands s' = commands s \<Longrightarrow>
      (clock_ok os clk \<Longrightarrow> clk (io_world s) \<le> t \<and> t \<le> clk (io_world s')) \<Longrightarrow> Q t s'"
  shows "wp (call (os_now os)) Q s"
  unfolding wp_call by (rule assms) (simp_all add: clock_now)

lemma later_InterfaceDown:
  "clock_ok os clk \<Longrightarrow> clk (io_world s) \<le> clk (io_world (snd (run_state (InterfaceDown os i) s)))"
  using keepsD [OF acting.keeps_carp_writers(1) [OF later_acting]] by (fastforce simp: later_def)

lemma wp_step_down:
  assumes "\<And>t s'. commands s' = commands s @ [ev_down (vip_iface r)] \<Longrightarrow>
      (clock_ok os clk \<Longrightarrow> clk (io_world s) \<le> t \<and> t \<le> clk (io_world s')) \<Longrightarrow>
      Q (r\<lparr>lastIfaceDown := True, preemptCooldown := t\<rparr>) s'"
  shows "wp (step_down os r) Q s"
  unfolding step_down_def wp_bind wp_return
proof (subst wp_fst_snd, rule wp_now [where clk = clk])
  let ?s1 = "snd (run_state (InterfaceDown os (vip_iface r)) s)"
  fix t s'
  assume c: "commands s' = commands ?s1"
    and t: "clock_ok os clk \<Longrightarrow> clk (io_world ?s1) \<le> t \<and> t \<le> clk (io_world s')"
  show "Q (r\<lparr>lastIfaceDown := True, preemptCooldown := t\<rparr>) s'"
    by (rule assms) (use c t later_InterfaceDown [of os clk s "vip_iface r"] in fastforce)+
qed

lemma scan_post_stepped:
  assumes "outranks my ph" and "commands s' = commands s @ [ev_down (vip_iface r)]"
    and "clock_ok os clk \<Longrightarrow> preemptCooldown r + preemptCooldownPeriod \<le> t \<and>
      clk (io_world s) \<le> t \<and> t \<le> clk (io_world s')"
    and "clock_ok os clk \<Longrightarrow> phPreempt ph = 1 \<Longrightarrow> wait_base clk r s + kernelPreemptGrace \<le> t"
  shows "scan_post os clk my (ph # phs) r s (stepped k t r, False) s'"
  unfolding scan_post_def using assms by (intro disjI2 exI [of _ k] exI [of _ t] exI [of _ ph]) simp

lemma cooled_down:
  "\<not> time_Sub now since \<le> preemptCooldownPeriod \<Longrightarrow> since + preemptCooldownPeriod \<le> now"
  using time_Sub_ge [of preemptCooldownPeriod now since] by (simp add: preemptCooldownPeriod_def second_def)

lemma grace_over:
  "\<not> time_Sub now since < kernelPreemptGrace \<Longrightarrow> since + kernelPreemptGrace \<le> now"
  using time_Sub_ge [of kernelPreemptGrace now since] by (simp add: kernelPreemptGrace_def second_def)

text \<open>The timer, read or started.\<close>

lemma wp_timer:
  assumes "\<And>k s'. commands s' = commands s \<Longrightarrow>
      (clock_ok os clk \<Longrightarrow> clk (io_world s) \<le> clk (io_world s') \<and> wait_base clk r s \<le> k \<and>
         wait_base clk r s \<le> wait_base clk (r\<lparr>kernelPreemptSince := k\<rparr>) s') \<Longrightarrow>
      Q (r\<lparr>kernelPreemptSince := k\<rparr>) s'"
  shows "wp (start_timer os r) Q s"
proof (cases "IsZero (kernelPreemptSince r)")
  case True
  then have base: "wait_base clk r s = clk (io_world s)" by (simp add: wait_base_def)
  show ?thesis
    unfolding start_timer_def wp_if wp_bind wp_return if_P [OF True]
  proof (rule wp_now [where clk = clk])
    fix t s'
    assume c: "commands s' = commands s"
      and t: "clock_ok os clk \<Longrightarrow> clk (io_world s) \<le> t \<and> t \<le> clk (io_world s')"
    show "Q (r\<lparr>kernelPreemptSince := t\<rparr>) s'"
      by (rule assms [OF c]) (use t base in \<open>auto simp: wait_base_def\<close>)
  qed
next
  case False
  then have "Q (r\<lparr>kernelPreemptSince := kernelPreemptSince r\<rparr>) s"
    by (intro assms) (simp_all add: wait_base_def)
  with False show ?thesis by (simp add: start_timer_def wp_return)
qed

lemma wp_give_way:
  assumes out: "outranks my ph" and cool: "preemptCooldown r + preemptCooldownPeriod \<le> now"
    and s2: "commands s2 = commands s" "clock_ok os clk \<Longrightarrow> clk (io_world s) \<le> now \<and> now \<le> clk (io_world s2)"
    and grace: "clock_ok os clk \<Longrightarrow> phPreempt ph = 1 \<Longrightarrow> wait_base clk r s + kernelPreemptGrace \<le> clk (io_world s2)"
  shows "wp (give_way os (r\<lparr>kernelPreemptSince := k\<rparr>)) (scan_post os clk my (ph # phs) r s) s2"
  unfolding give_way_def wp_bind
proof (rule wp_step_down [where clk = clk], unfold wp_return)
  fix t s3
  assume c: "commands s3 = commands s2 @ [ev_down (vip_iface (r\<lparr>kernelPreemptSince := k\<rparr>))]"
    and t: "clock_ok os clk \<Longrightarrow> clk (io_world s2) \<le> t \<and> t \<le> clk (io_world s3)"
  have "scan_post os clk my (ph # phs) r s (stepped k t r, False) s3"
    by (rule scan_post_stepped [OF out]) (use c s2 t cool grace in \<open>force simp: vip_iface_def\<close>)+
  then show "scan_post os clk my (ph # phs) r s
      ((r\<lparr>kernelPreemptSince := k\<rparr>)\<lparr>lastIfaceDown := True, preemptCooldown := t\<rparr>, False) s3"
    by (simp add: stepped_def)
qed

lemma wp_defer_to_kernel:
  assumes out: "outranks my ph" and cool: "preemptCooldown r + preemptCooldownPeriod \<le> now"
    and s1: "commands s1 = commands s"
    and now: "clock_ok os clk \<Longrightarrow> clk (io_world s) \<le> now \<and> now \<le> clk (io_world s1)"
    and IH: "\<And>r s. wp (continue r) (scan_post os clk my phs r s) s"
  shows "wp (defer_to_kernel os continue r) (scan_post os clk my (ph # phs) r s) s1"
  unfolding defer_to_kernel_def wp_bind
proof (rule wp_timer [where clk = clk], rule wp_now [where clk = clk])
  fix k s2 now2 s3
  let ?r2 = "r\<lparr>kernelPreemptSince := k\<rparr>"
  assume s2: "commands s2 = commands s1"
    and k: "clock_ok os clk \<Longrightarrow> clk (io_world s1) \<le> clk (io_world s2) \<and> wait_base clk r s1 \<le> k \<and>
      wait_base clk r s1 \<le> wait_base clk ?r2 s2"
    and s3: "commands s3 = commands s2"
    and now2: "clock_ok os clk \<Longrightarrow> clk (io_world s2) \<le> now2 \<and> now2 \<le> clk (io_world s3)"
  have base: "wait_base clk r s \<le> wait_base clk r s1" if "clock_ok os clk"
    using now [OF that] by (simp add: wait_base_def)
  have rec: "wp (continue ?r2) (scan_post os clk my (ph # phs) r s) s3"
  proof (rule wp_mono [OF IH])
    fix a s'
    assume post: "scan_post os clk my phs ?r2 s3 a s'"
    have later: "clk (io_world s) \<le> clk (io_world s3)" if "clock_ok os clk"
      using now [OF that] k [OF that] now2 [OF that] by linarith
    have "wait_base clk r s \<le> wait_base clk ?r2 s3" if "clock_ok os clk"
      using k [OF that] base [OF that] now2 [OF that] by (auto simp: wait_base_def split: if_splits)
    with post show "scan_post os clk my (ph # phs) r s a s'"
      using s1 s2 s3 later by (intro scan_post_later [where ?k2.0 = k and ?s2.0 = s3]) simp_all
  qed
  have fall: "wp (call (os_now os)) (\<lambda>_. wp (give_way os ?r2) (scan_post os clk my (ph # phs) r s)) s3"
    if g: "\<not> time_Sub now2 k < kernelPreemptGrace"
  proof (rule wp_now [where clk = clk])
    fix t s4
    assume s4: "commands s4 = commands s3"
      and t: "clock_ok os clk \<Longrightarrow> clk (io_world s3) \<le> t \<and> t \<le> clk (io_world s4)"
    show "wp (give_way os ?r2) (scan_post os clk my (ph # phs) r s) s4"
      by (rule wp_give_way [OF out cool])
        (use s1 s2 s3 s4 t now now2 k base grace_over [OF g] in fastforce)+
  qed
  show "wp (if time_Sub now2 (kernelPreemptSince ?r2) < kernelPreemptGrace then continue ?r2
      else do { _ \<leftarrow> call (os_now os); give_way os ?r2 }) (scan_post os clk my (ph # phs) r s) s3"
    using rec fall by (simp add: wp_bind)
qed

lemma scan_wp: "wp (preempt_scan os my phs (r, aw)) (scan_post os clk my phs r s) s"
proof (induction phs arbitrary: r aw s)
  case Nil
  show ?case by (simp add: wp_return scan_post_idle)
next
  case (Cons ph phs)
  have skip: "wp (preempt_scan os my phs (r, aw)) (scan_post os clk my (ph # phs) r s) s2"
    if "commands s2 = commands s" "clock_ok os clk \<Longrightarrow> clk (io_world s) \<le> clk (io_world s2)" for s2 aw
    using Cons.IH by (rule wp_mono) (rule scan_post_skip [OF _ that])
  show ?case
  proof (cases "outranks my ph")
    case False
    then show ?thesis using skip [of s] by (auto simp: outranks_def)
  next
    case out: True
    then have conds: "\<not> (\<not> phOK ph \<or> phScore ph < 80)" "\<not> my \<le> effective ph"
      by (auto simp: outranks_def)
    show ?thesis
      unfolding preempt_scan.simps if_not_P [OF conds(1)] if_not_P [OF conds(2)] wp_bind
    proof (rule wp_now [where clk = clk])
      fix now s1
      assume s1: "commands s1 = commands s"
        and now: "clock_ok os clk \<Longrightarrow> clk (io_world s) \<le> now \<and> now \<le> clk (io_world s1)"
      have here: "wp (preempt_scan os my phs (r, aw)) (scan_post os clk my (ph # phs) r s) s1"
        by (rule skip [OF s1]) (use now in fastforce)
      have kernel: "wp (defer_to_kernel os (\<lambda>r. preempt_scan os my phs (r, True)) r)
          (scan_post os clk my (ph # phs) r s) s1"
        if "\<not> time_Sub now (preemptCooldown r) \<le> preemptCooldownPeriod"
        by (rule wp_defer_to_kernel [OF out cooled_down [OF that] s1 now]) (simp_all add: Cons.IH)
      have plain: "wp (give_way os r) (scan_post os clk my (ph # phs) r s) s1"
        if "\<not> time_Sub now (preemptCooldown r) \<le> preemptCooldownPeriod" "phPreempt ph \<noteq> 1"
        using wp_give_way [OF out cooled_down [OF that(1)] s1, where clk = clk and os = os and
            k = "kernelPreemptSince r" and phs = phs] now that(2) by simp
      show "wp (if time_Sub now (preemptCooldown r) \<le> preemptCooldownPeriod then preempt_scan os my phs (r, aw)
          else if phPreempt ph = 1 then defer_to_kernel os (\<lambda>r. preempt_scan os my phs (r, True)) r
          else give_way os r) (scan_post os clk my (ph # phs) r s) s1"
        using here kernel plain by simp
    qed
  qed
qed

text \<open>The whole of step 2. The first disjunct leaves the machine alone.\<close>

definition preempted :: "'w os \<Rightarrow> ('w \<Rightarrow> instant) \<Rightarrow> observation \<Rightarrow> verdict \<Rightarrow> Runner \<Rightarrow> 'w io \<Rightarrow> int \<Rightarrow>
    instant \<Rightarrow> 'w io \<Rightarrow> bool" where
  "preempted os clk obs v r s my t s' \<longleftrightarrow>
     may_preempt obs v r \<and>
     (\<exists>ph. ph \<in> set (obsPeers obs) \<and> outranks my ph \<and>
        (clock_ok os clk \<longrightarrow> preemptCooldown r + preemptCooldownPeriod \<le> t \<and>
           clk (io_world s) \<le> t \<and> t \<le> clk (io_world s') \<and>
           (phPreempt ph = 1 \<longrightarrow> wait_base clk r s + kernelPreemptGrace \<le> t)))"

definition my_effective :: "'w os \<Rightarrow> int \<Rightarrow> Runner \<Rightarrow> 'w io \<Rightarrow> int" where
  "my_effective os n r s = i64 (fst (fst (run_state (GetAdvskew os (vip_iface r) (VHID (cAgent (rCfg r)))) s)) + n)"

lemma preempt_step_wp:
  "wp (preempt_step os obs v n r) (\<lambda>r' s'.
     (\<exists>k. r' = r\<lparr>kernelPreemptSince := k\<rparr>) \<and> commands s' = commands s \<or>
     (\<exists>k t. r' = stepped k t r \<and> commands s' = commands s @ [ev_down (vip_iface r)] \<and>
        preempted os clk obs v r s (my_effective os n r s) t s')) s"
proof (cases "may_preempt obs v r")
  case False
  then show ?thesis by (auto simp: preempt_step_def wp_return)
next
  case True
  let ?g = "GetAdvskew os (vip_iface r) (VHID (cAgent (rCfg r)))"
  let ?s1 = "snd (run_state ?g s)"
  let ?my = "i64 (fst (fst (run_state ?g s)) + n)"
  have c: "commands ?s1 = commands s" by (rule calmD) (rule effect_intros)
  have clk: "clk (io_world s) \<le> clk (io_world ?s1)" if "clock_ok os clk"
    using keepsD [OF reading.keeps_carp_readers(4) [OF later_reading [OF that]]] by (simp add: later_def)
  obtain r' aw s' where run: "run_state (preempt_scan os ?my (obsPeers obs) (r, False)) ?s1 = ((r', aw), s')"
    by (metis prod.exhaust)
  have post: "scan_post os clk ?my (obsPeers obs) r ?s1 (r', aw) s'"
    using wpD [OF scan_wp] run by (metis fst_conv snd_conv)
  let ?r2 = "if \<not> aw then r'\<lparr>kernelPreemptSince := 0\<rparr> else r'"
  have result: "run_state (preempt_step os obs v n r) s = (?r2, s')"
    using True run by (simp add: preempt_step_def case_prod_beta)
  have base: "wait_base clk r s \<le> wait_base clk r ?s1" if "clock_ok os clk"
    using clk [OF that] by (simp add: wait_base_def)
  from post consider (idle) k where "r' = r\<lparr>kernelPreemptSince := k\<rparr>" "commands s' = commands ?s1"
    | (down) k t ph where "r' = stepped k t r" "commands s' = commands ?s1 @ [ev_down (vip_iface r)]"
        "ph \<in> set (obsPeers obs)" "outranks ?my ph"
        "clock_ok os clk \<longrightarrow> preemptCooldown r + preemptCooldownPeriod \<le> t \<and>
           clk (io_world ?s1) \<le> t \<and> t \<le> clk (io_world s') \<and>
           (phPreempt ph = 1 \<longrightarrow> wait_base clk r ?s1 + kernelPreemptGrace \<le> t)"
    unfolding scan_post_def fst_conv by blast
  then show ?thesis
  proof cases
    case idle
    then have "\<exists>k. ?r2 = r\<lparr>kernelPreemptSince := k\<rparr>" by auto
    with idle(2) c show ?thesis unfolding wp_fst_snd result by simp
  next
    case (down k t ph)
    have "preempted os clk obs v r s (my_effective os n r s) t s'"
      unfolding preempted_def my_effective_def using True down(3-5) base clk by fastforce
    moreover have "?r2 = stepped (if aw then k else 0) t r" using down(1) by (simp add: stepped_def)
    ultimately show ?thesis unfolding wp_fst_snd result using down(2) c by auto
  qed
qed

section \<open>Telling people changes no control state\<close>

definition told :: "Runner \<Rightarrow> Runner \<Rightarrow> bool" where
  "told r r' \<longleftrightarrow>
     r' = r\<lparr>lastState := lastState r', wasMaster := wasMaster r', peers := peers r', notifier := notifier r'\<rparr>"

lemma told_trans: "told r r' \<Longrightarrow> told r' r'' \<Longrightarrow> told r r''"
  unfolding told_def by (cases r, cases r', cases r'') simp

lemma told_fields:
  "told r r' \<Longrightarrow> rCfg r' = rCfg r \<and> reloadCh r' = reloadCh r \<and> lastHealth r' = lastHealth r \<and>
     lastDemotion r' = lastDemotion r \<and> lastIfaceDown r' = lastIfaceDown r \<and> confirmState r' = confirmState r \<and>
     confirmCount r' = confirmCount r \<and> preemptCooldown r' = preemptCooldown r \<and>
     kernelPreemptSince r' = kernelPreemptSince r \<and> recoveryStreak r' = recoveryStreak r \<and> peerSrv r' = peerSrv r"
  unfolding told_def by (cases r, cases r') simp

lemma told_peer_alerts:
  "told r (fst (run_state (peer_alerts os obs v c r) s))"
  "lastState (fst (run_state (peer_alerts os obs v c r) s)) = lastState r"
  by (simp_all add: peer_alerts_def case_prod_beta Let_def told_def)

lemma told_announce_state:
  "told r (fst (run_state (announce_state os obs v c r) s))"
  "lastState (fst (run_state (announce_state os obs v c r) s)) =
     (if vChanged v \<and> vReady v then vState v else lastState r)"
  by (simp_all add: announce_state_def case_prod_beta Let_def told_def)

lemma told_vip_loss_alert:
  "told r (fst (run_state (vip_loss_alert os obs v n c r) s))"
  "lastState (fst (run_state (vip_loss_alert os obs v n c r) s)) = lastState r"
  by (simp_all add: vip_loss_alert_def case_prod_beta Let_def told_def)

lemma told_remember_master:
  "told r (remember_master v c r)" "lastState (remember_master v c r) = lastState r"
  by (simp_all add: remember_master_def told_def)

lemma told_tell:
  "told r (fst (run_state (tell os obs v n r) s)) \<and>
   lastState (fst (run_state (tell os obs v n r) s)) = (if vChanged v \<and> vReady v then vState v else lastState r)"
  unfolding tell_def
  by (simp add: case_prod_beta told_announce_state(2) told_peer_alerts(2) told_vip_loss_alert(2) told_remember_master(2))
    (meson told_trans told_peer_alerts(1) told_announce_state(1) told_vip_loss_alert(1) told_remember_master(1))

section \<open>A cycle\<close>

abbreviation decided :: "Runner \<Rightarrow> observation \<Rightarrow> verdict \<times> Runner" where
  "decided r obs \<equiv> decide (r\<lparr>lastHealth := obsHealth obs\<rparr>) obs"

lemma debounce_frame [simp]:
  "rCfg (debounce st r) = rCfg r" "reloadCh (debounce st r) = reloadCh r" "lastHealth (debounce st r) = lastHealth r"
  "lastDemotion (debounce st r) = lastDemotion r" "lastIfaceDown (debounce st r) = lastIfaceDown r"
  "preemptCooldown (debounce st r) = preemptCooldown r" "lastState (debounce st r) = lastState r"
  "kernelPreemptSince (debounce st r) = kernelPreemptSince r" "peerSrv (debounce st r) = peerSrv r"
  "peers (debounce st r) = peers r" "notifier (debounce st r) = notifier r" "wasMaster (debounce st r) = wasMaster r"
  "recoveryStreak (debounce st r) = recoveryStreak r" "confirmState (debounce st r) = st"
  "confirmCount (debounce st r) = (if st = confirmState r then i64 (confirmCount r + 1) else 1)"
  by (simp_all add: debounce_def)

lemma decide_runner:
  "snd (decide r obs) = debounce (vState (fst (decide r obs))) (r\<lparr>recoveryStreak := fst (snd (held_decision r obs))\<rparr>)"
  by (simp add: decide_def Let_def case_prod_beta)

lemma decide_verdict:
  "vDecision (fst (decide r obs)) = fst (held_decision r obs)"
  "vHeld (fst (decide r obs)) = snd (snd (held_decision r obs))"
  "vState (fst (decide r obs)) =
     (if snd (snd (held_decision r obs)) then StateUnhealthy else StateFromScore (hScore (obsHealth obs)))"
  "vChanged (fst (decide r obs)) \<longleftrightarrow> vState (fst (decide r obs)) \<noteq> lastState r"
  "vReady (fst (decide r obs)) \<longleftrightarrow> notify_confirm (rCfg r) \<le> confirmCount (snd (decide r obs))"
  by (simp_all add: decide_def Let_def case_prod_beta Transitioned_def)

lemma held_decision_health [simp]: "held_decision (r\<lparr>lastHealth := h\<rparr>) obs = held_decision r obs"
  by (simp add: held_decision_def)

text \<open>
  The effect of a cycle, given the verdict \<open>v\<close> and the runner \<open>r1\<close> of \<open>decide\<close>: \<open>down\<close> says whether step
  2 stepped down, at the instant \<open>t\<close>, and \<open>ds\<close> are the writes of the demotion (at most one).
\<close>

definition cycle_effect :: "'w os \<Rightarrow> ('w \<Rightarrow> instant) \<Rightarrow> observation \<Rightarrow> verdict \<Rightarrow> Runner \<Rightarrow> 'w io \<Rightarrow>
    Runner \<Rightarrow> 'w io \<Rightarrow> bool \<Rightarrow> instant \<Rightarrow> int list \<Rightarrow> bool" where
  "cycle_effect os clk obs v r1 s r' s' down t ds \<longleftrightarrow>
     length ds \<le> 1 \<and> (DesiredDemotion (vDecision v) = lastDemotion r1 \<longrightarrow> ds = []) \<and>
     commands s' = commands s @
       posture_commands (vip_iface r1) (lastIfaceDown r1) (DesiredIfaceDown (vDecision v)) (map ev_demotion ds) @
       (if down then [ev_down (vip_iface r1)] else []) \<and>
     (down \<longrightarrow> (\<exists>my. preempted os clk obs v r1 s my t s')) \<and>
     rCfg r' = rCfg r1 \<and> reloadCh r' = reloadCh r1 \<and> peerSrv r' = peerSrv r1 \<and>
     lastHealth r' = lastHealth r1 \<and> recoveryStreak r' = recoveryStreak r1 \<and>
     confirmState r' = confirmState r1 \<and> confirmCount r' = confirmCount r1 \<and>
     lastDemotion r' = DesiredDemotion (vDecision v) \<and>
     lastIfaceDown r' = (DesiredIfaceDown (vDecision v) \<or> down) \<and>
     preemptCooldown r' = (if down then t else preemptCooldown r1) \<and>
     lastState r' = (if vChanged v \<and> vReady v then vState v else lastState r1)"

lemma react_effect:
  fixes os :: "'w os"
  assumes v: "decided r obs = (v, r1)" and run: "run_state (react os obs r) s = (r', s')"
  shows "\<exists>down t. cycle_effect os clk obs v r1 s r' s' down t (posture_writes os (vDecision v) r1 s)"
proof -
  define d where "d = vDecision v"
  define p where "p = run_state (apply_posture os d r1) s"
  define a where "a = run_state (actual_demotion os d) (snd p)"
  define q where "q = run_state (preempt_step os obs v (fst a) (posture d r1)) (snd a)"
  have p1: "fst p = posture d r1" by (simp add: p_def apply_posture_result)
  have act: "run_state (act os obs v r1) s = ((fst a, fst q), snd q)"
    using p1 by (simp add: act_def case_prod_beta d_def p_def a_def q_def)
  have run': "run_state (tell os obs v (fst a) (fst q)) (snd q) = (r', s')"
    using run act by (simp add: react_def v case_prod_beta)
  have t: "told (fst q) r'" "lastState r' = (if vChanged v \<and> vReady v then vState v else lastState (fst q))"
    using told_tell [of "fst q" os obs v "fst a" "snd q"] run' by simp_all
  have c3: "commands s' = commands (snd q)"
    using calmD [OF calm.keeps_tell, of os obs v "fst a" "fst q" "snd q"] run' by simp
  have c2: "commands (snd a) = commands (snd p)"
    unfolding a_def by (rule calmD) (rule effect_intros)
  define ds where "ds = posture_writes os d r1 s"
  have ds: "length ds \<le> 1" "DesiredDemotion d = lastDemotion r1 \<longrightarrow> ds = []"
    "commands (snd p) = commands s @
       posture_commands (vip_iface r1) (lastIfaceDown r1) (DesiredIfaceDown d) (map ev_demotion ds)"
    using posture_writes_one [of os d r1 s] by (simp_all add: ds_def p_def apply_posture_commands)
  have later: "clk (io_world s) \<le> clk (io_world (snd a))" "clk (io_world (snd q)) \<le> clk (io_world s')"
    if "clock_ok os clk"
  proof -
    have "clk (io_world s) \<le> clk (io_world (snd p))"
      using keepsD [OF acting.keeps_apply_posture [OF later_acting [OF that]]] by (simp add: later_def p_def)
    also have "\<dots> \<le> clk (io_world (snd a))"
      using keepsD [OF reading.keeps_estimates(1) [OF later_reading [OF that]]] by (simp add: later_def a_def)
    finally show "clk (io_world s) \<le> clk (io_world (snd a))" .
    show "clk (io_world (snd q)) \<le> clk (io_world s')"
      using keepsD [OF reporting.keeps_tell [OF later_reporting [OF that]], of "snd q" obs v "fst a" "fst q"] run'
      by (simp add: later_def)
  qed
  note fields = told_fields [OF t(1)]
  from wpD [OF preempt_step_wp [where os = os and obs = obs and v = v and n = "fst a" and r = "posture d r1" and
        clk = clk and s = "snd a"]]
  consider (idle) k where "fst q = (posture d r1)\<lparr>kernelPreemptSince := k\<rparr>" "commands (snd q) = commands (snd a)"
    | (down) k t where "fst q = stepped k t (posture d r1)"
        "commands (snd q) = commands (snd a) @ [ev_down (vip_iface (posture d r1))]"
        "preempted os clk obs v (posture d r1) (snd a) (my_effective os (fst a) (posture d r1) (snd a)) t (snd q)"
    unfolding q_def [symmetric] by blast
  then show ?thesis
  proof cases
    case idle
    then have "cycle_effect os clk obs v r1 s r' s' False 0 ds"
      using ds c2 c3 t(2) fields by (simp add: cycle_effect_def d_def posture_def)
    then show ?thesis unfolding ds_def d_def by blast
  next
    case (down k t0)
    have "preempted os clk obs v r1 s (my_effective os (fst a) (posture d r1) (snd a)) t0 s'"
      using down(3) later unfolding preempted_def may_preempt_def wait_base_def posture_def
      by (fastforce split: if_splits)
    then have "cycle_effect os clk obs v r1 s r' s' True t0 ds"
      using down(1,2) ds c2 c3 t(2) fields
      by (auto simp: cycle_effect_def d_def posture_def stepped_def vip_iface_def)
    then show ?thesis unfolding ds_def d_def by blast
  qed
qed

end
