(* ===== verification/Safety.thy ===== *)
theory Safety
  imports Cycle
begin

text \<open>
  The properties of one cycle that hold on any machine: the order of the demotion and the interface, why
  an interface goes down, and the step-down's justification and grace.
\<close>

lemma decided_decision: "vDecision (fst (decided r obs)) = fst (held_decision r obs)"
  by (simp add: decide_verdict)

lemma posture_writes_cong:
  "lastDemotion r1 = lastDemotion r \<Longrightarrow> lastIfaceDown r1 = lastIfaceDown r \<Longrightarrow> vip_iface r1 = vip_iface r \<Longrightarrow>
     posture_writes os d r1 s = posture_writes os d r s"
  by (simp add: posture_writes_def)

lemma react_cases:
  fixes os :: "'w os" and clk :: "'w \<Rightarrow> instant"
  assumes "run_state (react os obs r) s = (r', s')"
  obtains v r1 down t ds where "decided r obs = (v, r1)" "cycle_effect os clk obs v r1 s r' s' down t ds"
    "vDecision v = fst (held_decision r obs)" "vHeld v = snd (snd (held_decision r obs))"
    "rCfg r1 = rCfg r" "lastHealth r1 = obsHealth obs" "lastDemotion r1 = lastDemotion r"
    "lastIfaceDown r1 = lastIfaceDown r" "preemptCooldown r1 = preemptCooldown r" "lastState r1 = lastState r"
    "kernelPreemptSince r1 = kernelPreemptSince r" "vip_iface r1 = vip_iface r"
    "recoveryStreak r1 = fst (snd (held_decision r obs))" "confirmState r1 = vState v"
    "confirmCount r1 = (if vState v = confirmState r then i64 (confirmCount r + 1) else 1)"
    "vState v = (if vHeld v then StateUnhealthy else StateFromScore (hScore (obsHealth obs)))"
    "vChanged v \<longleftrightarrow> vState v \<noteq> lastState r" "vReady v \<longleftrightarrow> notify_confirm (rCfg r) \<le> confirmCount r1"
    "ds = posture_writes os (fst (held_decision r obs)) r s"
proof -
  obtain v r1 where v: "decided r obs = (v, r1)" by (metis prod.exhaust)
  then have v': "v = fst (decided r obs)" and r1: "r1 = snd (decided r obs)" by simp_all
  obtain down t ds where e: "cycle_effect os clk obs v r1 s r' s' down t ds"
    and ds: "ds = posture_writes os (vDecision v) r1 s"
    using react_effect [OF v assms] by blast
  have "posture_writes os (vDecision v) r1 s = posture_writes os (fst (held_decision r obs)) r s"
    unfolding v' r1 by (simp add: decide_verdict, rule posture_writes_cong) (simp_all add: decide_runner vip_iface_def)
  with ds have w: "ds = posture_writes os (fst (held_decision r obs)) r s" by simp
  show thesis
    by (rule that [OF v e _ _ _ _ _ _ _ _ _ _ _ _ _ _ _ _ w])
      (unfold v' r1, simp_all add: decide_runner decide_verdict vip_iface_def)
qed

lemma held_decision_unhealthy:
  "hScore (obsHealth obs) < 40 \<Longrightarrow> DesiredIfaceDown (fst (held_decision r obs)) \<and>
     DesiredDemotion (fst (held_decision r obs)) = dlUnhealthy (demotionLevels (rCfg r)) \<and>
     snd (snd (held_decision r obs)) = False \<and> fst (snd (held_decision r obs)) = 0"
  by (simp add: held_decision_def Let_def hold_keeps_down EvaluatePolicy_down EvaluatePolicy_demotion)

lemma held_decision_down:
  "DesiredIfaceDown (fst (held_decision r obs)) \<longleftrightarrow>
     hScore (obsHealth obs) < 40 \<or> snd (snd (held_decision r obs))"
  by (simp add: held_decision_def Let_def hold_down EvaluatePolicy_down)

lemma held_needs_down:
  "snd (snd (held_decision r obs)) \<Longrightarrow> lastIfaceDown r \<and> ParsePolicyMode (cPolicyMode (rCfg r)) = PolicyPreempt"
  by (simp add: held_decision_def applyRecoveryHold_def Let_def split: if_splits)

lemma unhealthy_no_preempt:
  "preempted os clk obs v r1 s my t s' \<Longrightarrow> \<not> DesiredIfaceDown (vDecision v) \<and> vState v = StateHealthy \<and>
     obsCarp obs = StateMaster \<and> ParsePolicyMode (cPolicyMode (rCfg r1)) = PolicyPreempt"
  by (simp add: preempted_def may_preempt_def)

text \<open>C13. The order FreeBSD's bookkeeping needs: in every cycle the demotion is written before the interface
  goes down and after it comes up, at most one of each, and a step-down for a peer comes after both.\<close>

theorem command_order:
  "case run_state (react os obs r) s of (r', s') \<Rightarrow>
     \<exists>ds tail. length ds \<le> 1 \<and> tail \<in> {[], [ev_down (vip_iface r)]} \<and>
       commands s' = commands s @
         (if DesiredIfaceDown (fst (held_decision r obs)) \<and> \<not> lastIfaceDown r
          then map ev_demotion ds @ [ev_down (vip_iface r)]
          else if \<not> DesiredIfaceDown (fst (held_decision r obs)) \<and> lastIfaceDown r
          then ev_up (vip_iface r) # map ev_demotion ds
          else map ev_demotion ds) @ tail"
proof -
  obtain r' s' where run: "run_state (react os obs r) s = (r', s')" by (metis prod.exhaust)
  then show ?thesis
  proof (rule react_cases [where clk = "\<lambda>_. 0"])
    fix v r1 down t ds
    assume e: "cycle_effect os (\<lambda>_. 0) obs v r1 s r' s' down t ds"
      and d: "vDecision v = fst (held_decision r obs)"
      and same: "lastIfaceDown r1 = lastIfaceDown r" "vip_iface r1 = vip_iface r"
    show ?thesis
      unfolding run prod.case
      by (rule exI [of _ ds], rule exI [of _ "if down then [ev_down (vip_iface r)] else []"])
        (use e d same in \<open>auto simp: cycle_effect_def posture_commands_def\<close>)
  qed
qed

text \<open>C10. A node that serves is taken off the VIP for two reasons only: its score is below 40, or it is a
  healthy MASTER in preempt mode while a peer that answers scores 80 or more (C11 says what more the
  step-down demands of that peer).\<close>

theorem goes_down_for_a_reason:
  assumes "run_state (react os obs r) s = (r', s')" and "\<not> lastIfaceDown r" and "lastIfaceDown r'"
  shows "hScore (obsHealth obs) < 40 \<or>
    (80 \<le> hScore (obsHealth obs) \<and> obsCarp obs = StateMaster \<and>
     ParsePolicyMode (cPolicyMode (rCfg r)) = PolicyPreempt \<and>
     (\<exists>ph \<in> set (obsPeers obs). phOK ph \<and> 80 \<le> phScore ph))"
  using assms(1)
proof (rule react_cases [where clk = "\<lambda>_. 0"])
  fix v r1 down t ds
  assume e: "cycle_effect os (\<lambda>_. 0) obs v r1 s r' s' down t ds"
    and d: "vDecision v = fst (held_decision r obs)" "vHeld v = snd (snd (held_decision r obs))"
    and same: "rCfg r1 = rCfg r"
    and st: "vState v = (if vHeld v then StateUnhealthy else StateFromScore (hScore (obsHealth obs)))"
  have nh: "\<not> snd (snd (held_decision r obs))" using held_needs_down assms(2) by blast
  show ?thesis
  proof (cases "DesiredIfaceDown (vDecision v)")
    case True
    then show ?thesis using d nh by (simp add: held_decision_down)
  next
    case False
    with e assms(3) obtain my where "preempted os (\<lambda>_. 0) obs v r1 s my t s'"
      by (auto simp: cycle_effect_def)
    then show ?thesis
      using st d nh same unfolding preempted_def may_preempt_def outranks_def
      by (auto simp: node.band_good_iff)
  qed
qed

text \<open>C11. The step-down itself: step 2 runs a command only when the node is the healthy MASTER, in preempt
  mode and not about to go down, and some reachable peer scoring 80 or more has an effective advskew
  strictly below the node's own; the command is the one \<open>ifconfig down\<close>.\<close>

theorem step_down_justified:
  assumes "run_state (preempt_step os obs v n r) s = (r', s')" and "commands s' \<noteq> commands s"
  shows "commands s' = commands s @ [ev_down (vip_iface r)] \<and> lastIfaceDown r' \<and> may_preempt obs v r \<and>
    (\<exists>ph \<in> set (obsPeers obs). phOK ph \<and> 80 \<le> phScore ph \<and>
       effective ph < i64 (fst (fst (run_state (GetAdvskew os (vip_iface r) (VHID (cAgent (rCfg r)))) s)) + n))"
  using wpD [OF preempt_step_wp [where os = os and obs = obs and v = v and n = n and r = r and clk = "\<lambda>_. 0" and s = s]] assms
  by (auto simp: preempted_def outranks_def my_effective_def stepped_def)


end
