(* ===== verification/Kernel.thy ===== *)
theory Kernel
  imports Safety
begin

text \<open>
  The agent against the kernel it steers. \<open>carp(4)\<close> keeps one demotion counter: a value written to
  \<open>net.inet.carp.demotion\<close> is added to it, and an interface adds 240 while it is down. The agent
  never stores what the kernel did; it relies on the order of its own commands. The invariant
  \<open>in_step\<close> says that this works. Two properties of a cycle that name its commands and what the kernel
  makes of them, for an unhealthy node and for one in sticky mode, close the theory.
\<close>

section \<open>The kernel's law\<close>

definition same_view :: "('w \<Rightarrow> 'v) \<Rightarrow> 'w io \<Rightarrow> 'w io \<Rightarrow> bool" where
  "same_view f s s' \<longleftrightarrow> f (io_world s') = f (io_world s)"

definition down_view :: "int \<times> bool \<Rightarrow> int \<times> bool" where
  "down_view v = (if snd v then fst v + 240 else fst v, False)"

definition up_view :: "int \<times> bool \<Rightarrow> int \<times> bool" where
  "up_view v = (if snd v then fst v else fst v - 240, True)"

text \<open>
  \<open>view\<close> reads the counter and whether the interface \<open>i\<close> is up off the machine. Every call but the
  commands leaves both alone; the commands succeed and do what the manual says.
\<close>

definition carp_kernel :: "'w os \<Rightarrow> string \<Rightarrow> ('w \<Rightarrow> int \<times> bool) \<Rightarrow> bool" where
  "carp_kernel os i view \<longleftrightarrow>
     reading (same_view view) os \<and>
     (\<forall>w t. command_ok (fst (os_run os ''sysctl'' [''-n'', ''net.inet.carp.demotion''] t w)) \<and>
        cr_stdout (fst (os_run os ''sysctl'' [''-n'', ''net.inet.carp.demotion''] t w)) = Itoa (fst (view w)) @ ''\<newline>'') \<and>
     (\<forall>w t d. command_ok (fst (os_run os ''sysctl'' [''net.inet.carp.demotion='' @ Itoa d] t w)) \<and>
        view (snd (os_run os ''sysctl'' [''net.inet.carp.demotion='' @ Itoa d] t w)) = (fst (view w) + d, snd (view w))) \<and>
     (\<forall>w t. view (snd (os_run os ''ifconfig'' [i, ''down''] t w)) = down_view (view w)) \<and>
     (\<forall>w t. view (snd (os_run os ''ifconfig'' [i, ''up''] t w)) = up_view (view w))"

lemma same_view_reporting: "reading (same_view f) os \<Longrightarrow> reporting (same_view f) os"
  by (intro reporting.intro reporting_axioms.intro) (simp_all add: keeps_def same_view_def)

lemma carp_kernel_reading: "carp_kernel os i view \<Longrightarrow> reading (same_view view) os"
  by (simp add: carp_kernel_def)

lemma carp_kernel_additive:
  assumes "carp_kernel os i view"
  shows "additive_demotion os (\<lambda>w. fst (view w))"
proof -
  have r: "view (snd (os_run os ''sysctl'' [''-n'', ''net.inet.carp.demotion''] t w)) = view w" for t w
    using keepsD [OF reading.call_run [OF carp_kernel_reading [OF assms]],
        of "''sysctl''" "[''-n'', ''net.inet.carp.demotion'']" "\<lparr>io_world = w, io_trace = []\<rparr>" t]
    by (simp add: same_view_def)
  with assms show ?thesis
    unfolding additive_demotion_def carp_kernel_def by (auto simp: Let_def case_prod_beta)
qed

lemma view_keeps: "keeps (same_view view) m \<Longrightarrow> view (io_world (snd (run_state m s))) = view (io_world s)"
  by (simp add: keeps_def same_view_def)

lemma view_InterfaceDown:
  "carp_kernel os i view \<Longrightarrow> view (io_world (snd (run_state (InterfaceDown os i) s))) = down_view (view (io_world s))"
  by (simp add: carp_kernel_def InterfaceDown_def ExecTimeout_def Let_def case_prod_beta)

lemma view_InterfaceUp:
  "carp_kernel os i view \<Longrightarrow> view (io_world (snd (run_state (InterfaceUp os i) s))) = up_view (view (io_world s))"
  by (simp add: carp_kernel_def InterfaceUp_def ExecTimeout_def Let_def case_prod_beta)

lemma view_writeDemotion:
  "carp_kernel os i view \<Longrightarrow> view (io_world (snd (run_state (writeDemotion os d) s))) =
     (fst (view (io_world s)) + d, snd (view (io_world s)))"
  by (simp add: carp_kernel_def writeDemotion_def Exec_def ExecTimeout_def Let_def case_prod_beta)

lemma up_SetDemotion:
  assumes "carp_kernel os i view"
  shows "snd (view (io_world (snd (run_state (SetDemotion os target) s)))) = snd (view (io_world s))"
  using view_keeps [OF reading.keeps_carp_readers(6) [OF carp_kernel_reading [OF assms]], of s]
    view_writeDemotion [OF assms]
  by (simp add: SetDemotion_def case_prod_beta)

lemma view_SetDemotion:
  assumes "carp_kernel os i view" and "int64 (fst (view (io_world s)))" and "int64 (target - fst (view (io_world s)))"
  shows "view (io_world (snd (run_state (SetDemotion os target) s))) = (target, snd (view (io_world s)))"
proof -
  note a = carp_kernel_additive [OF assms(1)]
  from up_SetDemotion [OF assms(1), of target s] SetDemotion_additive(2) [OF a assms(2,3)] show ?thesis
    by (simp add: prod_eq_iff)
qed

section \<open>The invariant\<close>

definition levels_ok :: "DemotionLevels \<Rightarrow> bool" where
  "levels_ok dl \<longleftrightarrow> 0 \<le> dlHealthy dl \<and> dlHealthy dl \<le> 255 \<and> 0 \<le> dlDegraded dl \<and> dlDegraded dl \<le> 255 \<and>
     0 \<le> dlUnhealthy dl \<and> dlUnhealthy dl \<le> 255 \<and> dlHealthy dl \<noteq> dlUnhealthy dl \<and> dlDegraded dl \<noteq> dlUnhealthy dl"

text \<open>
  While the interface is up the counter is the demotion the agent last asked for. While it is down
  the counter is 240 above it, or (after the hold rewrote it) exactly the unhealthy level.
\<close>

definition in_step :: "int \<times> bool \<Rightarrow> Runner \<Rightarrow> bool" where
  "in_step v r \<longleftrightarrow>
     snd v = (\<not> lastIfaceDown r) \<and> 0 \<le> lastDemotion r \<and> lastDemotion r \<le> 255 \<and>
     (if lastIfaceDown r
      then fst v = lastDemotion r + 240 \<or>
        (fst v = lastDemotion r \<and> lastDemotion r = dlUnhealthy (demotionLevels (rCfg r)))
      else fst v = lastDemotion r)"

text \<open>An agent that has just started, on a node whose interface is up.\<close>

definition fresh :: "int \<times> bool \<Rightarrow> Runner \<Rightarrow> bool" where
  "fresh v r \<longleftrightarrow> snd v \<and> \<not> lastIfaceDown r \<and> lastDemotion r = -1 \<and> \<bar>fst v\<bar> < 2 ^ 62"

definition level_of :: "DemotionLevels \<Rightarrow> PolicyDecision \<Rightarrow> bool" where
  "level_of dl d \<longleftrightarrow> (if DesiredIfaceDown d then DesiredDemotion d = dlUnhealthy dl
     else DesiredDemotion d = dlHealthy dl \<or> DesiredDemotion d = dlDegraded dl)"

lemma held_decision_level: "level_of (demotionLevels (rCfg r)) (fst (held_decision r obs))"
proof (cases "snd (snd (held_decision r obs))")
  case True
  then show ?thesis
    by (simp add: level_of_def held_decision_def Let_def hold_demotion hold_down)
next
  case False
  then show ?thesis
    by (simp add: level_of_def held_decision_def Let_def hold_demotion hold_down EvaluatePolicy_down
        EvaluatePolicy_demotion)
qed

lemma small_int64: "\<bar>x\<bar> < 2 ^ 62 \<Longrightarrow> \<bar>y\<bar> < 2 ^ 62 \<Longrightarrow> int64 x \<and> int64 (y - x)"
  by (auto simp: int64_def)

lemma view_set_demotion_if_new:
  assumes "carp_kernel os i view" and "\<bar>fst (view (io_world s))\<bar> < 2 ^ 62" and "\<bar>DesiredDemotion d\<bar> < 2 ^ 62"
  shows "view (io_world (snd (run_state (set_demotion_if_new os d r) s))) =
    (if DesiredDemotion d \<noteq> lastDemotion r then (DesiredDemotion d, snd (view (io_world s))) else view (io_world s))"
  using view_SetDemotion [OF assms(1)] small_int64 [OF assms(2,3)]
  by (simp add: set_demotion_if_new_def case_prod_beta)

lemma apply_posture_in_step:
  assumes k: "carp_kernel os (vip_iface r) view" and l: "levels_ok (demotionLevels (rCfg r))"
    and d: "level_of (demotionLevels (rCfg r)) d"
    and start: "in_step (view (io_world s)) r \<or> fresh (view (io_world s)) r"
  shows "in_step (view (io_world (snd (run_state (apply_posture os d r) s)))) (posture d r)"
proof -
  let ?v = "view (io_world s)"
  have b: "\<bar>fst ?v\<bar> < 2 ^ 62" "\<bar>fst ?v\<bar> + 240 < 2 ^ 62 \<or> fresh ?v r"
    using start by (auto simp: in_step_def fresh_def split: if_splits)
  have D: "0 \<le> DesiredDemotion d" "DesiredDemotion d \<le> 255"
    using l d by (auto simp: levels_ok_def level_of_def split: if_splits)
  then have D': "\<bar>DesiredDemotion d\<bar> < 2 ^ 62" by simp
  consider (down) "DesiredIfaceDown d" "\<not> lastIfaceDown r" | (up) "\<not> DesiredIfaceDown d" "lastIfaceDown r"
    | (set) "DesiredIfaceDown d = lastIfaceDown r" by blast
  then show ?thesis
  proof cases
    case down
    then show ?thesis
      using view_InterfaceDown [OF k] view_set_demotion_if_new [OF k b(1) D'] start D
      by (auto simp: apply_posture_def case_prod_beta posture_def in_step_def fresh_def down_view_def)
  next
    case up
    let ?s1 = "snd (run_state (InterfaceUp os (vip_iface r)) s)"
    have v1: "view (io_world ?s1) = up_view ?v" by (rule view_InterfaceUp [OF k])
    have "in_step ?v r" using start up by (auto simp: fresh_def)
    moreover from this have "\<bar>fst (view (io_world ?s1))\<bar> < 2 ^ 62"
      unfolding v1 by (auto simp: in_step_def up_view_def split: if_splits)
    ultimately show ?thesis
      using view_set_demotion_if_new [OF k _ D', of ?s1 r] v1 up D l d
      by (auto simp: apply_posture_def case_prod_beta posture_def in_step_def up_view_def levels_ok_def level_of_def
          split: if_splits)
  next
    case set
    then show ?thesis
      using view_SetDemotion [OF k] small_int64 [OF b(1) D'] start D d
      by (auto simp: apply_posture_def case_prod_beta posture_def in_step_def fresh_def level_of_def split: if_splits)
  qed
qed

section \<open>Step 2 and the whole cycle\<close>

text \<open>A step down is seen by the kernel exactly when the agent notes it.\<close>

definition seen_down :: "(int \<times> bool) \<Rightarrow> int \<times> bool \<Rightarrow> Runner \<Rightarrow> Runner \<Rightarrow> bool" where
  "seen_down v v' r r' \<longleftrightarrow>
     rCfg r' = rCfg r \<and> lastDemotion r' = lastDemotion r \<and>
     (if lastIfaceDown r' = lastIfaceDown r then v' = v else lastIfaceDown r' \<and> v' = down_view v)"

lemma wp_view_now:
  assumes "carp_kernel os i view" and "\<And>t s'. view (io_world s') = view (io_world s) \<Longrightarrow> Q t s'"
  shows "wp (call (os_now os)) Q s"
  using assms(2) view_keeps [OF reading.call_now [OF carp_kernel_reading [OF assms(1)]], of s]
  by (simp add: wp_fst_snd)

lemma wp_view_give_way:
  assumes k: "carp_kernel os (vip_iface r) view" and "\<not> lastIfaceDown r"
    and "view (io_world s1) = view (io_world s)" and "rCfg r = rCfg r0" "lastDemotion r = lastDemotion r0" "\<not> lastIfaceDown r0"
  shows "wp (give_way os r) (\<lambda>ra s'. seen_down (view (io_world s)) (view (io_world s')) r0 (fst ra)) s1"
proof -
  have "wp (call (os_now os)) (\<lambda>t s'. seen_down (view (io_world s)) (view (io_world s')) r0
      (r\<lparr>lastIfaceDown := True, preemptCooldown := t\<rparr>)) (snd (run_state (InterfaceDown os (vip_iface r)) s1))"
    by (rule wp_view_now [OF k])
      (use assms view_InterfaceDown [OF k, of s1] in \<open>simp add: seen_down_def\<close>)
  then show ?thesis
    unfolding give_way_def step_down_def wp_bind wp_return
    by (subst wp_fst_snd) simp
qed

lemma seen_down_same: "seen_down v v r r"
  by (simp add: seen_down_def)

definition like :: "('w \<Rightarrow> 'v) \<Rightarrow> Runner \<Rightarrow> 'w io \<Rightarrow> Runner \<Rightarrow> 'w io \<Rightarrow> bool" where
  "like view r0 s r s1 \<longleftrightarrow> view (io_world s1) = view (io_world s) \<and> rCfg r = rCfg r0 \<and>
     lastDemotion r = lastDemotion r0 \<and> \<not> lastIfaceDown r"

lemma like_timer: "like view r0 s r s1 \<Longrightarrow> like view r0 s (r\<lparr>kernelPreemptSince := t\<rparr>) s1"
  by (simp add: like_def)

lemma like_now:
  assumes "carp_kernel os (vip_iface r0) view" and "like view r0 s r s1" and "\<And>t s2. like view r0 s r s2 \<Longrightarrow> Q t s2"
  shows "wp (call (os_now os)) Q s1"
  by (rule wp_view_now [OF assms(1)]) (use assms(2,3) in \<open>simp add: like_def\<close>)

lemma wp_view_defer:
  assumes k: "carp_kernel os (vip_iface r0) view"
    and cont: "\<And>r s1. like view r0 s r s1 \<Longrightarrow> wp (continue r) Q s1"
    and give: "\<And>r s1. like view r0 s r s1 \<Longrightarrow> wp (give_way os r) Q s1"
    and l: "like view r0 s r s1"
  shows "wp (defer_to_kernel os continue r) Q s1"
proof -
  have rest: "wp (call (os_now os)) (\<lambda>now. wp (
      if time_Sub now (kernelPreemptSince r) < kernelPreemptGrace then continue r
      else do { _ \<leftarrow> call (os_now os); give_way os r }) Q) s1" if l: "like view r0 s r s1" for r s1
  proof (rule like_now [OF k l])
    fix t s2
    assume l2: "like view r0 s r s2"
    have "wp (call (os_now os)) (\<lambda>_. wp (give_way os r) Q) s2"
      by (rule like_now [OF k l2]) (rule give)
    with cont [OF l2] show "wp (if time_Sub t (kernelPreemptSince r) < kernelPreemptGrace then continue r
        else do { _ \<leftarrow> call (os_now os); give_way os r }) Q s2"
      by (simp add: wp_bind)
  qed
  show ?thesis
  proof (cases "IsZero (kernelPreemptSince r)")
    case True
    show ?thesis
      unfolding defer_to_kernel_def start_timer_def if_P [OF True] wp_bind wp_return
      by (rule like_now [OF k l]) (rule rest [OF like_timer])
  next
    case False
    show ?thesis
      unfolding defer_to_kernel_def start_timer_def if_not_P [OF False] wp_bind wp_return
      by (rule rest [OF l])
  qed
qed

lemma scan_view:
  assumes "carp_kernel os (vip_iface r0) view" and "\<not> lastIfaceDown r0"
  shows "like view r0 s r s1 \<Longrightarrow>
    wp (preempt_scan os my phs (r, aw)) (\<lambda>ra s'. seen_down (view (io_world s)) (view (io_world s')) r0 (fst ra)) s1"
proof (induction phs arbitrary: r aw s1)
  case Nil
  then show ?case using assms(2) by (simp add: wp_return seen_down_def like_def)
next
  case (Cons ph phs)
  let ?Q = "\<lambda>ra s'. seen_down (view (io_world s)) (view (io_world s')) r0 (fst ra)"
  have give: "wp (give_way os r) ?Q s1" if "like view r0 s r s1" for r s1
    by (rule wp_view_give_way) (use that assms in \<open>simp_all add: like_def vip_iface_def\<close>)
  have waiting: "wp (defer_to_kernel os (\<lambda>r. preempt_scan os my phs (r, True)) r) ?Q s1" if "like view r0 s r s1" for s1
    by (rule wp_view_defer [OF assms(1) Cons.IH give that])
  show ?case
    unfolding preempt_scan.simps wp_if wp_bind
    using Cons.IH [OF Cons.prems] Cons.IH give waiting
    by (auto intro!: like_now [OF assms(1) Cons.prems])
qed

lemma preempt_step_view:
  assumes "carp_kernel os (vip_iface r) view" and "DesiredIfaceDown (vDecision v) = lastIfaceDown r"
  shows "wp (preempt_step os obs v n r) (\<lambda>r' s'. seen_down (view (io_world s)) (view (io_world s')) r r') s"
proof (cases "may_preempt obs v r")
  case False
  then show ?thesis by (simp add: preempt_step_def wp_return seen_down_def)
next
  case True
  then have up: "\<not> lastIfaceDown r" using assms(2) by (simp add: may_preempt_def)
  let ?g = "GetAdvskew os (vip_iface r) (VHID (cAgent (rCfg r)))"
  have g: "view (io_world (snd (run_state ?g s))) = view (io_world s)"
    by (rule view_keeps [OF reading.keeps_carp_readers(4) [OF carp_kernel_reading [OF assms(1)]]])
  show ?thesis
    unfolding preempt_step_def if_P [OF True] wp_bind wp_prod wp_return
    by (subst wp_fst_snd, rule wp_mono [OF scan_view [OF assms(1) up]])
      (use g up in \<open>auto simp: seen_down_def like_def split: if_splits\<close>)
qed

text \<open>What the kernel sees of a cycle: step 1, then at most a step-down.\<close>

lemma react_view:
  assumes "carp_kernel os (vip_iface r) view" and "run_state (react os obs r) s = (r', s')"
  obtains r1 where "rCfg r1 = rCfg r" "lastIfaceDown r1 = lastIfaceDown r" "lastDemotion r1 = lastDemotion r"
    "vip_iface r1 = vip_iface r"
    "seen_down (view (io_world (snd (run_state (apply_posture os (fst (held_decision r obs)) r1) s))))
       (view (io_world s')) (posture (fst (held_decision r obs)) r1) r'"
proof -
  obtain v r1 where v: "decided r obs = (v, r1)" by (metis prod.exhaust)
  define d where "d = vDecision v"
  have d': "d = fst (held_decision r obs)" using decided_decision [where r = r and obs = obs] v by (simp add: d_def)
  have r1: "rCfg r1 = rCfg r" "lastIfaceDown r1 = lastIfaceDown r" "lastDemotion r1 = lastDemotion r" "vip_iface r1 = vip_iface r"
    using decide_runner [where r = "r\<lparr>lastHealth := obsHealth obs\<rparr>" and obs = obs] v by (simp_all add: vip_iface_def)
  define p where "p = run_state (apply_posture os d r1) s"
  define a where "a = run_state (actual_demotion os d) (snd p)"
  define q where "q = run_state (preempt_step os obs v (fst a) (posture d r1)) (snd a)"
  have k: "carp_kernel os (vip_iface (posture d r1)) view"
    using assms(1) r1 by (simp add: vip_iface_def posture_def)
  have 1: "view (io_world (snd a)) = view (io_world (snd p))"
    unfolding a_def by (rule view_keeps [OF reading.keeps_estimates(1) [OF carp_kernel_reading [OF assms(1)]]])
  have 2: "seen_down (view (io_world (snd a))) (view (io_world (snd q))) (posture d r1) (fst q)"
    using wpD [OF preempt_step_view [OF k, where v = v and obs = obs and n = "fst a" and s = "snd a"]] by (simp add: q_def posture_def d_def)
  have tell: "run_state (tell os obs v (fst a) (fst q)) (snd q) = (r', s')"
    using assms(2) by (simp add: react_def v act_def case_prod_beta apply_posture_result d_def p_def a_def q_def)
  have "view (io_world (snd (run_state (tell os obs v (fst a) (fst q)) (snd q)))) = view (io_world (snd q))"
    by (rule view_keeps [OF reporting.keeps_tell [OF same_view_reporting [OF carp_kernel_reading [OF assms(1)]]]])
  then have 3: "view (io_world s') = view (io_world (snd q))" using tell by simp
  have 4: "rCfg r' = rCfg (fst q)" "lastIfaceDown r' = lastIfaceDown (fst q)" "lastDemotion r' = lastDemotion (fst q)"
    using told_fields [OF conjunct1 [OF told_tell [of "fst q" os obs v "fst a" "snd q"]]] tell by simp_all
  from 1 2 3 4 have "seen_down (view (io_world (snd p))) (view (io_world s')) (posture d r1) r'"
    by (auto simp: seen_down_def split: if_splits)
  with r1 that show ?thesis by (simp add: p_def d')
qed

lemma react_in_step:
  assumes "carp_kernel os (vip_iface r) view" and "levels_ok (demotionLevels (rCfg r))"
    and "in_step (view (io_world s)) r \<or> fresh (view (io_world s)) r"
    and "run_state (react os obs r) s = (r', s')"
  shows "in_step (view (io_world s')) r' \<and> lastDemotion r' = DesiredDemotion (fst (held_decision r obs))"
proof -
  obtain r1 where r1: "rCfg r1 = rCfg r" "lastIfaceDown r1 = lastIfaceDown r" "lastDemotion r1 = lastDemotion r"
      "vip_iface r1 = vip_iface r"
    and seen: "seen_down (view (io_world (snd (run_state (apply_posture os (fst (held_decision r obs)) r1) s))))
       (view (io_world s')) (posture (fst (held_decision r obs)) r1) r'"
    using react_view [OF assms(1,4)] by blast
  have "in_step (view (io_world s)) r1 = in_step (view (io_world s)) r" "fresh (view (io_world s)) r1 = fresh (view (io_world s)) r"
    using r1 by (simp_all add: in_step_def fresh_def)
  then have "in_step (view (io_world (snd (run_state (apply_posture os (fst (held_decision r obs)) r1) s))))
      (posture (fst (held_decision r obs)) r1)"
    by (intro apply_posture_in_step)
      (use assms(1-3) r1 held_decision_level [where r = r and obs = obs] in simp_all)
  with seen show ?thesis
    unfolding in_step_def seen_down_def posture_def down_view_def
    by (auto split: if_splits)
qed

text \<open>A cycle that wants the interface down gets it down, whatever the counter is.\<close>

lemma react_takes_down:
  assumes "carp_kernel os (vip_iface r) view" and "run_state (react os obs r) s = (r', s')"
    and "hScore (obsHealth obs) < 40" and "\<not> lastIfaceDown r"
  shows "\<not> snd (view (io_world s'))"
proof -
  let ?d = "fst (held_decision r obs)"
  have d: "DesiredIfaceDown ?d"
    using assms(3) by (simp add: held_decision_def Let_def hold_down EvaluatePolicy_down)
  obtain r1 where r1: "lastIfaceDown r1 = lastIfaceDown r" "vip_iface r1 = vip_iface r"
    and seen: "seen_down (view (io_world (snd (run_state (apply_posture os ?d r1) s)))) (view (io_world s'))
       (posture ?d r1) r'"
    using react_view [OF assms(1,2)] by blast
  have "\<not> snd (view (io_world (snd (run_state (apply_posture os ?d r1) s))))"
    using d r1 assms(4) view_InterfaceDown [OF assms(1)]
    by (simp add: apply_posture_def case_prod_beta down_view_def)
  with seen show ?thesis by (auto simp: seen_down_def down_view_def split: if_splits)
qed

text \<open>C17. The closed loop: against a kernel that adds what is written and 240 for an interface that is down,
  every cycle keeps the interface as the agent believes it to be, and whenever the interface is up the
  kernel's demotion counter is exactly the level the policy asked for. It is established by the first
  cycle of an agent that starts with its interface up, wherever the counter stands.\<close>

theorem kernel_in_step:
  assumes "carp_kernel os (vip_iface r) view" and "levels_ok (demotionLevels (rCfg r))"
    and "in_step (view (io_world s)) r \<or> fresh (view (io_world s)) r"
    and "run_state (react os obs r) s = (r', s')"
  shows "in_step (view (io_world s')) r' \<and> lastDemotion r' = DesiredDemotion (fst (held_decision r obs))"
  using assms by (rule react_in_step)

section \<open>An unhealthy node, and a node in sticky mode\<close>

text \<open>The writes of a cycle whose decision is known.\<close>

lemma posture_writes_of:
  "DesiredDemotion d = l \<Longrightarrow> DesiredIfaceDown d = b \<Longrightarrow> posture_writes os d r s =
     (if lastDemotion r = l then []
      else demotion_writes (fst (run_state (GetDemotion os)
        (if \<not> b \<and> lastIfaceDown r then snd (run_state (InterfaceUp os (vip_iface r)) s) else s))) l)"
  by (auto simp: posture_writes_def)

text \<open>C2. Fail-safe: whatever the mode, the peers, the hold and the debounce say, a cycle that scores the node below 40
  runs these commands and no other: first the write that brings the demotion to the unhealthy level (unless it was
  the last level asked for, or the counter is read to be there already), then, unless an earlier cycle ran it,
  \<open>ifconfig down\<close>. On a machine whose kernel and commands work as documented, the interface is then down and the
  kernel's counter at the unhealthy level or above.\<close>

theorem unhealthy_leaves_vip:
  assumes "run_state (react os obs r) s = (r', s')" and "hScore (obsHealth obs) < 40"
  defines "unhealthy \<equiv> dlUnhealthy (demotionLevels (rCfg r))"
  shows "commands s' = commands s @
      (if lastDemotion r = unhealthy then []
       else map ev_demotion (demotion_writes (fst (run_state (GetDemotion os) s)) unhealthy)) @
      (if lastIfaceDown r then [] else [ev_down (vip_iface r)]) \<and>
    lastIfaceDown r' \<and> lastDemotion r' = unhealthy \<and>
    (carp_kernel os (vip_iface r) view \<and> levels_ok (demotionLevels (rCfg r)) \<and>
       (in_step (view (io_world s)) r \<or> fresh (view (io_world s)) r) \<longrightarrow>
     \<not> snd (view (io_world s')) \<and> unhealthy \<le> fst (view (io_world s')))"
  using assms(1)
proof (rule react_cases [where clk = "\<lambda>_. 0"])
  fix v r1 down t ds
  assume e: "cycle_effect os (\<lambda>_. 0) obs v r1 s r' s' down t ds"
    and d: "vDecision v = fst (held_decision r obs)" and ds: "ds = posture_writes os (fst (held_decision r obs)) r s"
    and same: "lastIfaceDown r1 = lastIfaceDown r" "vip_iface r1 = vip_iface r"
  note u = held_decision_unhealthy [OF assms(2), of r]
  from e u d have "\<not> down" using unhealthy_no_preempt unfolding cycle_effect_def by metis
  with e u d same have 1: "lastIfaceDown r'" "lastDemotion r' = unhealthy"
    "commands s' = commands s @ map ev_demotion ds @ (if lastIfaceDown r then [] else [ev_down (vip_iface r)])"
    by (auto simp: cycle_effect_def posture_commands_def unhealthy_def)
  have "ds = (if lastDemotion r = unhealthy then []
      else demotion_writes (fst (run_state (GetDemotion os) s)) unhealthy)"
    unfolding ds using u posture_writes_of [of "fst (held_decision r obs)" unhealthy True os r s] by (simp add: unhealthy_def)
  moreover have "\<not> snd (view (io_world s')) \<and> unhealthy \<le> fst (view (io_world s'))"
    if "carp_kernel os (vip_iface r) view" "levels_ok (demotionLevels (rCfg r))"
      "in_step (view (io_world s)) r \<or> fresh (view (io_world s)) r"
    using react_in_step [OF that assms(1)] 1(1,2) by (auto simp: in_step_def)
  ultimately show ?thesis using 1 by auto
qed

text \<open>C27. In sticky mode a node that scores 40 or more serves at the level of its own score, whatever the peers
  report: if it had taken its interface down the cycle runs \<open>ifconfig up\<close> at once, then it writes the demotion (as
  in C2), and it runs nothing else, in particular no \<open>ifconfig down\<close>. On a machine whose kernel and commands work
  as documented, the interface is then up and the kernel's counter exactly that level.\<close>

theorem sticky_ignores_peers:
  assumes "run_state (react os obs r) s = (r', s')"
    and "cPolicyMode (rCfg r) \<noteq> ''preempt''" and "40 \<le> hScore (obsHealth obs)"
  defines "level \<equiv> (if hScore (obsHealth obs) < 80 then dlDegraded (demotionLevels (rCfg r))
      else dlHealthy (demotionLevels (rCfg r)))"
    and "s1 \<equiv> (if lastIfaceDown r then snd (run_state (InterfaceUp os (vip_iface r)) s) else s)"
  shows "commands s' = commands s @
      (if lastIfaceDown r then [ev_up (vip_iface r)] else []) @
      (if lastDemotion r = level then []
       else map ev_demotion (demotion_writes (fst (run_state (GetDemotion os) s1)) level)) \<and>
    \<not> lastIfaceDown r' \<and> lastDemotion r' = level \<and>
    (carp_kernel os (vip_iface r) view \<and> levels_ok (demotionLevels (rCfg r)) \<and>
       (in_step (view (io_world s)) r \<or> fresh (view (io_world s)) r) \<longrightarrow>
     view (io_world s') = (level, True))"
  using assms(1)
proof (rule react_cases [where clk = "\<lambda>_. 0"])
  fix v r1 down t ds
  assume e: "cycle_effect os (\<lambda>_. 0) obs v r1 s r' s' down t ds"
    and d: "vDecision v = fst (held_decision r obs)" and ds: "ds = posture_writes os (fst (held_decision r obs)) r s"
    and same: "rCfg r1 = rCfg r" "lastIfaceDown r1 = lastIfaceDown r" "vip_iface r1 = vip_iface r"
  from assms(2) have mode: "ParsePolicyMode (cPolicyMode (rCfg r)) = PolicySticky"
    by (simp add: ParsePolicyMode_def)
  then have nh: "\<not> snd (snd (held_decision r obs))" using held_needs_down by fastforce
  have down: "\<not> down" using e mode same unfolding cycle_effect_def preempted_def may_preempt_def by auto
  have up: "\<not> DesiredIfaceDown (fst (held_decision r obs))" using nh assms(3) by (simp add: held_decision_down)
  have lv: "DesiredDemotion (fst (held_decision r obs)) = level"
    using nh assms(3) mode unfolding held_decision_def Let_def level_def
    by (simp add: hold_demotion EvaluatePolicy_demotion)
  have 1: "\<not> lastIfaceDown r'" "lastDemotion r' = level"
    "commands s' = commands s @ (if lastIfaceDown r then [ev_up (vip_iface r)] else []) @ map ev_demotion ds"
    using e down up lv d same by (auto simp: cycle_effect_def posture_commands_def)
  have "ds = (if lastDemotion r = level then [] else demotion_writes (fst (run_state (GetDemotion os) s1)) level)"
    unfolding ds s1_def using up posture_writes_of [OF lv, of False os r s] by simp
  moreover have "view (io_world s') = (level, True)"
    if "carp_kernel os (vip_iface r) view" "levels_ok (demotionLevels (rCfg r))"
      "in_step (view (io_world s)) r \<or> fresh (view (io_world s)) r"
    using react_in_step [OF that assms(1)] 1(1,2) by (auto simp: in_step_def prod_eq_iff)
  ultimately show ?thesis using 1 by auto
qed

end
