(* ===== verification/History.thy ===== *)
theory History
  imports Safety
begin

text \<open>
  Runs of many cycles under one configuration. A log keeps, newest first, the runner after each
  cycle and the commands the cycle ran. The recovery hold and the notification
  debounce are statements about such logs; the spacing of step-downs is one about the clock around each
  cycle and the commands it ran.
\<close>

section \<open>Logs\<close>

type_synonym log = "(Runner \<times> event list) list"

definition latest :: "Runner \<Rightarrow> log \<Rightarrow> Runner" where
  "latest r log = (case log of [] \<Rightarrow> r | x # _ \<Rightarrow> fst x)"

lemma latest_simps [simp]: "latest r [] = r" "latest r (x # log) = fst x"
  by (simp_all add: latest_def)

fun cycles :: "'w os \<Rightarrow> (string \<Rightarrow> goerr) \<Rightarrow> nat \<Rightarrow> Runner \<Rightarrow> ('w io, log) state" where
  "cycles os json_err 0 r = State_Monad.return []"
| "cycles os json_err (Suc n) r = do {
     log \<leftarrow> cycles os json_err n r;
     s \<leftarrow> State_Monad.get;
     r' \<leftarrow> runOnce os json_err (latest r log);
     s' \<leftarrow> State_Monad.get;
     State_Monad.return ((r', drop (length (commands s)) (commands s')) # log)
   }"

lemma cycles_Suc:
  "run_state (cycles os json_err (Suc n) r) s =
     (let (log, s1) = run_state (cycles os json_err n r) s;
          (r', s2) = run_state (runOnce os json_err (latest r log)) s1
      in ((r', drop (length (commands s1)) (commands s2)) # log, s2))"
  by (simp add: case_prod_beta Let_def State_Monad.get_def)

text \<open>A cycle, seen from outside: the observation it made and its effect.\<close>

definition cycle_of :: "'w os \<Rightarrow> ('w \<Rightarrow> instant) \<Rightarrow> Runner \<Rightarrow> 'w io \<Rightarrow> Runner \<Rightarrow> 'w io \<Rightarrow> observation \<Rightarrow> verdict \<Rightarrow> Runner \<Rightarrow>
    bool \<Rightarrow> instant \<Rightarrow> int list \<Rightarrow> bool" where
  "cycle_of os clk r s r' s' obs v r1 down t ds \<longleftrightarrow>
     decided r obs = (v, r1) \<and>
     cycle_effect os clk obs v r1 s r' s' down t ds \<and>
     lastHealth r' = obsHealth obs \<and> rCfg r' = rCfg r \<and>
     (weights_ok (effective_weights (health_config (rCfg r))) \<longrightarrow> scored_by (health_config (rCfg r)) (obsHealth obs))"

lemma observe_scored:
  assumes "weights_ok (effective_weights (health_config cfg))"
  shows "scored_by (health_config cfg) (obsHealth (fst (run_state (observe os json_err cfg) s)))"
  using wpD [OF RunChecks_wp [OF assms, of os s]] by (simp add: observe_def case_prod_beta Let_def)

lemma cycle_effect_start:
  assumes "cycle_effect os clk obs v r1 s1 r' s' down t ds" and "commands s1 = commands s"
    and "clock_ok os clk \<Longrightarrow> clk (io_world s) \<le> clk (io_world s1)"
  shows "cycle_effect os clk obs v r1 s r' s' down t ds"
proof -
  have "wait_base clk r1 s \<le> wait_base clk r1 s1" if "clock_ok os clk"
    using assms(3) [OF that] by (simp add: wait_base_def)
  then have "preempted os clk obs v r1 s my t s'" if "preempted os clk obs v r1 s1 my t s'" for my
    using that assms(3) unfolding preempted_def by (metis add_le_cancel_right order_trans)
  then show ?thesis
    using assms(1,2) unfolding cycle_effect_def by auto
qed

lemma runOnce_cycle:
  assumes "run_state (runOnce os json_err r) s = (r', s')"
  obtains obs v r1 down t ds where "cycle_of os clk r s r' s' obs v r1 down t ds"
proof -
  let ?o = "run_state (observe os json_err (rCfg r)) s"
  from assms have run: "run_state (react os (fst ?o) r) (snd ?o) = (r', s')"
    by (simp add: runOnce_def case_prod_beta)
  obtain v r1 where v: "decided r (fst ?o) = (v, r1)" by (metis prod.exhaust)
  obtain down t ds where e: "cycle_effect os clk (fst ?o) v r1 (snd ?o) r' s' down t ds"
    using react_effect [OF v run] by blast
  have "commands (snd ?o) = commands s" by (rule calmD) (rule effect_intros)
  moreover have "clk (io_world s) \<le> clk (io_world (snd ?o))" if "clock_ok os clk"
    using keepsD [OF reading.keeps_observe [OF later_reading [OF that]]] by (simp add: later_def)
  ultimately have e': "cycle_effect os clk (fst ?o) v r1 s r' s' down t ds"
    by (rule cycle_effect_start [OF e])
  have "cycle_of os clk r s r' s' (fst ?o) v r1 down t ds"
    unfolding cycle_of_def
    using v e' observe_scored decide_runner [of "r\<lparr>lastHealth := obsHealth (fst ?o)\<rparr>" "fst ?o"]
    by (auto simp: cycle_effect_def)
  then show thesis by (rule that)
qed

lemma cycle_of_fields:
  assumes "cycle_of os clk r s r' s' obs v r1 down t ds"
  shows "vDecision v = fst (held_decision r obs)" "vHeld v = snd (snd (held_decision r obs))"
    "recoveryStreak r' = fst (snd (held_decision r obs))"
    "lastIfaceDown r' \<longleftrightarrow> DesiredIfaceDown (fst (held_decision r obs)) \<or> down"
    "vState v = (if vHeld v then StateUnhealthy else StateFromScore (hScore (obsHealth obs)))"
    "confirmState r' = vState v"
    "confirmCount r' = (if vState v = confirmState r then i64 (confirmCount r + 1) else 1)"
    "lastState r' = (if vState v \<noteq> lastState r \<and> notify_confirm (rCfg r) \<le> confirmCount r' then vState v else lastState r)"
    "commands s' = commands s @
       posture_commands (vip_iface r) (lastIfaceDown r) (DesiredIfaceDown (fst (held_decision r obs))) (map ev_demotion ds) @
       (if down then [ev_down (vip_iface r)] else [])"
    "vip_iface r' = vip_iface r"
proof -
  from assms have v: "v = fst (decided r obs)" and r1: "r1 = snd (decided r obs)"
    and e: "cycle_effect os clk obs v r1 s r' s' down t ds" and cfg: "rCfg r' = rCfg r"
    by (simp_all add: cycle_of_def)
  note d = decide_verdict [of "r\<lparr>lastHealth := obsHealth obs\<rparr>" obs, folded v r1, simplified]
  note r = decide_runner [of "r\<lparr>lastHealth := obsHealth obs\<rparr>" obs, folded v r1, simplified]
  show "vDecision v = fst (held_decision r obs)" "vHeld v = snd (snd (held_decision r obs))"
    "vState v = (if vHeld v then StateUnhealthy else StateFromScore (hScore (obsHealth obs)))"
    using d by simp_all
  show "recoveryStreak r' = fst (snd (held_decision r obs))"
    "lastIfaceDown r' \<longleftrightarrow> DesiredIfaceDown (fst (held_decision r obs)) \<or> down"
    "confirmState r' = vState v"
    "confirmCount r' = (if vState v = confirmState r then i64 (confirmCount r + 1) else 1)"
    "lastState r' = (if vState v \<noteq> lastState r \<and> notify_confirm (rCfg r) \<le> confirmCount r' then vState v else lastState r)"
    "commands s' = commands s @
       posture_commands (vip_iface r) (lastIfaceDown r) (DesiredIfaceDown (fst (held_decision r obs))) (map ev_demotion ds) @
       (if down then [ev_down (vip_iface r)] else [])"
    using e d r by (simp_all add: cycle_effect_def vip_iface_def)
  show "vip_iface r' = vip_iface r" using cfg by (simp add: vip_iface_def)
qed

text \<open>The rule for a property of logs.\<close>

lemma cycles_invariant:
  assumes start: "P []"
    and step: "\<And>log s r' s' obs v r1 down t ds. P log \<Longrightarrow> rCfg (latest r log) = rCfg r \<Longrightarrow> length log < n \<Longrightarrow>
      cycle_of os clk (latest r log) s r' s' obs v r1 down t ds \<Longrightarrow>
      P ((r', drop (length (commands s)) (commands s')) # log)"
  shows "P (fst (run_state (cycles os json_err n r) s0))"
proof -
  have "P (fst (run_state (cycles os json_err m r) s0)) \<and>
      rCfg (latest r (fst (run_state (cycles os json_err m r) s0))) = rCfg r \<and>
      length (fst (run_state (cycles os json_err m r) s0)) = m" if "m \<le> n" for m
    using that
  proof (induction m)
    case 0
    then show ?case by (simp add: start)
  next
    case (Suc m)
    obtain log s where l: "run_state (cycles os json_err m r) s0 = (log, s)" by (metis prod.exhaust)
    obtain r' s' where run: "run_state (runOnce os json_err (latest r log)) s = (r', s')" by (metis prod.exhaust)
    then obtain obs v r1 down t ds where c: "cycle_of os clk (latest r log) s r' s' obs v r1 down t ds"
      by (rule runOnce_cycle)
    have IH: "P log" "rCfg (latest r log) = rCfg r" "length log = m" using Suc l by simp_all
    have "P ((r', drop (length (commands s)) (commands s')) # log)"
      by (rule step [OF IH(1,2) _ c]) (use IH Suc in simp)
    moreover have "rCfg r' = rCfg r" using c IH by (simp add: cycle_of_def)
    ultimately show ?case
      unfolding cycles_Suc l prod.case Let_def run using IH by simp
  qed
  then show ?thesis by blast
qed

section \<open>The recovery hold\<close>

definition fully_healthy :: "Runner \<Rightarrow> bool" where
  "fully_healthy r \<longleftrightarrow> 0 < MaxScore (lastHealth r) \<and> MaxScore (lastHealth r) \<le> RawScore (lastHealth r)"

definition last_full :: "nat \<Rightarrow> log \<Rightarrow> bool" where
  "last_full k log \<longleftrightarrow> k \<le> length log \<and> (\<forall>x \<in> set (take k log). fully_healthy (fst x))"

lemma last_full_mono: "last_full k log \<Longrightarrow> j \<le> k \<Longrightarrow> last_full j log"
  using set_take_subset_set_take [of j k log] by (auto simp: last_full_def)

definition streak_inv :: "Runner \<Rightarrow> log \<Rightarrow> bool" where
  "streak_inv r log \<longleftrightarrow> 0 \<le> recoveryStreak (latest r log) \<and> last_full (nat (recoveryStreak (latest r log))) log"

lemma streak_step:
  assumes "streak_inv r log" and "int (length log) < 2 ^ 62"
    and c: "cycle_of os clk (latest r log) s r' s' obs v r1 down t ds"
  shows "streak_inv r ((r', cmds) # log)"
proof -
  let ?k = "recoveryStreak (latest r log)"
  have k: "0 \<le> ?k" "nat ?k \<le> length log" using assms(1) by (simp_all add: streak_inv_def last_full_def)
  then have i: "i64 (?k + 1) = ?k + 1" using assms(2) by (intro i64_id) (simp add: int64_def)
  have h: "lastHealth r' = obsHealth obs" using c by (simp add: cycle_of_def)
  have "recoveryStreak r' = 0 \<or> recoveryStreak r' = ?k + 1 \<and> fully_healthy r'"
    unfolding cycle_of_fields(3) [OF c]
    by (auto simp: held_decision_def applyRecoveryHold_def Let_def i fully_healthy_def h)
  then show ?thesis
    using assms(1) k by (auto simp: streak_inv_def last_full_def nat_add_distrib)
qed

lemma up_released:
  assumes c: "cycle_of os clk x s r' s' obs v r1 down t ds"
    and mode: "ParsePolicyMode (cPolicyMode (rCfg x)) = PolicyPreempt" and "0 < recovery_confirm (rCfg x)"
    and up: "ev_up (vip_iface x) \<in> set (drop (length (commands s)) (commands s'))"
  shows "recovery_confirm (rCfg x) \<le> recoveryStreak r'"
proof -
  have p: "lastIfaceDown x" "\<not> DesiredIfaceDown (fst (held_decision x obs))"
    using up unfolding cycle_of_fields(9) [OF c]
    by (auto simp: posture_commands_def ev_defs split: if_splits)
  then show ?thesis
    using assms(3) unfolding cycle_of_fields(3) [OF c]
    by (auto simp: held_decision_def applyRecoveryHold_def Let_def mode split: if_splits)
qed

text \<open>C3. The recovery hold: in preempt mode, whenever a cycle brings the interface up, that cycle and the
  ones before it, \<open>recovery_confirm\<close> in all, each saw every enabled check pass in full.\<close>

theorem recovery_needs_confirmation:
  assumes "cPolicyMode (rCfg r) = ''preempt''" and "0 < recovery_confirm (rCfg r)"
    and "recoveryStreak r = 0" and "int n < 2 ^ 62"
    and "log = fst (run_state (cycles os json_err n r) s0)"
    and "i < length log" and "ev_up (vip_iface r) \<in> set (snd (log ! i))"
  shows "last_full (nat (recovery_confirm (rCfg r))) (drop i log)"
proof -
  let ?P = "\<lambda>log. streak_inv r log \<and>
    (\<forall>i < length log. ev_up (vip_iface r) \<in> set (snd (log ! i)) \<longrightarrow>
       last_full (nat (recovery_confirm (rCfg r))) (drop i log))"
  have mode: "ParsePolicyMode (cPolicyMode (rCfg r)) = PolicyPreempt"
    using assms(1) by (simp add: ParsePolicyMode_def)
  have "?P (fst (run_state (cycles os json_err n r) s0))"
  proof (rule cycles_invariant [where clk = "\<lambda>_. 0"])
    show "?P []" using assms(3) by (simp add: streak_inv_def last_full_def)
    fix log s r' s' obs v r1 down t ds
    assume P: "?P log" and cfg: "rCfg (latest r log) = rCfg r" and n: "length log < n"
      and c: "cycle_of os (\<lambda>_. 0) (latest r log) s r' s' obs v r1 down t ds"
    let ?new = "(r', drop (length (commands s)) (commands s')) # log"
    have "int (length log) < 2 ^ 62" using n assms(4) by linarith
    then have inv: "streak_inv r ?new" using P c streak_step by blast
    have "last_full (nat (recovery_confirm (rCfg r))) ?new"
      if "ev_up (vip_iface r) \<in> set (snd (hd ?new))"
    proof -
      have vi: "vip_iface (latest r log) = vip_iface r" using cfg by (simp add: vip_iface_def)
      have "recovery_confirm (rCfg r) \<le> recoveryStreak r'"
        using up_released [OF c] mode assms(2) that by (simp add: cfg vi)
      with inv have "nat (recovery_confirm (rCfg r)) \<le> nat (recoveryStreak r')" "last_full (nat (recoveryStreak r')) ?new"
        by (simp_all add: streak_inv_def nat_mono)
      then show ?thesis using last_full_mono by blast
    qed
    then show "?P ?new" using P inv by (auto simp: nth_Cons split: nat.splits)
  qed
  then show ?thesis using assms(5-7) by blast
qed

text \<open>The hold does end: a fully healthy node is released after exactly that many cycles.\<close>

lemma full_score:
  assumes "weights_ok (effective_weights cfg)" and "scored_by cfg h" and "0 < MaxScore h" and "MaxScore h \<le> RawScore h"
  shows "hScore h = 100"
proof -
  let ?w = "effective_weights cfg"
  have m: "MaxScore h = wProcess ?w + wTCP ?w + wUDP ?w + wDNS ?w"
    using assms(1,2) by (simp add: scored_by_def max_of_weights_ok)
  have r: "RawScore h = raw_of ?w h" using assms(2) by (simp add: scored_by_def)
  have "raw_of ?w h \<le> wProcess ?w + wTCP ?w + wUDP ?w + wDNS ?w" "0 \<le> raw_of ?w h"
    using assms(1) by (auto simp: raw_of_def weights_ok_def)
  moreover have "MaxScore h \<le> 400" using m assms(1) by (simp add: weights_ok_def)
  ultimately have "normalized_score (RawScore h) (MaxScore h) = 100"
    using normalized_score_full [of "MaxScore h" "RawScore h"] m r assms(3,4) by simp
  then show ?thesis using assms(2) by (simp add: scored_by_def)
qed

lemma held_or_released:
  assumes c: "cycle_of os clk x s r' s' obs v r1 down t ds"
    and mode: "ParsePolicyMode (cPolicyMode (rCfg x)) = PolicyPreempt" and "0 < recovery_confirm (rCfg x)"
    and w: "weights_ok (effective_weights (health_config (rCfg x)))" and full: "fully_healthy r'"
    and down: "lastIfaceDown x" and k: "0 \<le> recoveryStreak x" "recoveryStreak x < 2 ^ 62"
  shows "ev_up (vip_iface x) \<in> set (drop (length (commands s)) (commands s')) \<or>
    lastIfaceDown r' \<and> recoveryStreak r' = recoveryStreak x + 1 \<and> recoveryStreak r' < recovery_confirm (rCfg x)"
proof -
  have h: "lastHealth r' = obsHealth obs" and sc: "scored_by (health_config (rCfg x)) (obsHealth obs)"
    using c w by (simp_all add: cycle_of_def)
  have f: "0 < MaxScore (obsHealth obs)" "MaxScore (obsHealth obs) \<le> RawScore (obsHealth obs)"
    using full h by (simp_all add: fully_healthy_def)
  have "hScore (obsHealth obs) = 100" using full_score [OF w sc f] .
  then have up: "\<not> DesiredIfaceDown (EvaluatePolicy PolicyPreempt (hScore (obsHealth obs)) (obsCarp obs) (obsPeers obs)
      (demotionLevels (rCfg x)))"
    by (simp add: EvaluatePolicy_down)
  have i: "i64 (recoveryStreak x + 1) = recoveryStreak x + 1" using k by (intro i64_id) (simp add: int64_def)
  show ?thesis
  proof (cases "recovery_confirm (rCfg x) \<le> recoveryStreak x + 1")
    case True
    then have "held_decision x obs = (EvaluatePolicy PolicyPreempt (hScore (obsHealth obs)) (obsCarp obs) (obsPeers obs)
        (demotionLevels (rCfg x)), recoveryStreak x + 1, False)"
      using f down up i assms(3) by (simp add: held_decision_def applyRecoveryHold_def Let_def mode)
    then show ?thesis
      using up down unfolding cycle_of_fields(9) [OF c] by (simp add: posture_commands_def)
  next
    case False
    then have "snd (snd (held_decision x obs))" "fst (snd (held_decision x obs)) = recoveryStreak x + 1"
      using f down up i assms(3) by (simp_all add: held_decision_def applyRecoveryHold_def Let_def mode)
    then show ?thesis
      using False unfolding cycle_of_fields(3,4) [OF c] by (simp add: held_decision_down)
  qed
qed

text \<open>C14. The hold ends: if an agent in preempt mode holds its interface down and every one of the next
  \<open>recovery_confirm\<close> cycles finds all enabled checks passing, one of them brings the interface up.\<close>

theorem recovery_is_granted:
  assumes "cPolicyMode (rCfg r) = ''preempt''" and "0 < recovery_confirm (rCfg r)" and "recovery_confirm (rCfg r) < 2 ^ 62"
    and "weights_ok (effective_weights (health_config (rCfg r)))"
    and "lastIfaceDown r" and "0 \<le> recoveryStreak r" and "recoveryStreak r < recovery_confirm (rCfg r)"
    and "log = fst (run_state (cycles os json_err (nat (recovery_confirm (rCfg r))) r) s0)"
    and "\<forall>x \<in> set log. fully_healthy (fst x)"
  shows "\<exists>x \<in> set log. ev_up (vip_iface r) \<in> set (snd x)"
proof -
  let ?k = "recovery_confirm (rCfg r)"
  let ?P = "\<lambda>log. (\<forall>x \<in> set log. fully_healthy (fst x)) \<longrightarrow>
    (\<exists>x \<in> set log. ev_up (vip_iface r) \<in> set (snd x)) \<or>
    lastIfaceDown (latest r log) \<and> int (length log) \<le> recoveryStreak (latest r log) \<and> recoveryStreak (latest r log) < ?k"
  have mode: "ParsePolicyMode (cPolicyMode (rCfg r)) = PolicyPreempt"
    using assms(1) by (simp add: ParsePolicyMode_def)
  have P: "?P (fst (run_state (cycles os json_err (nat ?k) r) s0))"
  proof (rule cycles_invariant [where clk = "\<lambda>_. 0"])
    show "?P []" using assms(5-7) by simp
    fix log s r' s' obs v r1 down t ds
    assume IH: "?P log" and cfg: "rCfg (latest r log) = rCfg r" and n: "length log < nat ?k"
      and c: "cycle_of os (\<lambda>_. 0) (latest r log) s r' s' obs v r1 down t ds"
    let ?x = "latest r log"
    let ?new = "(r', drop (length (commands s)) (commands s')) # log"
    have vi: "vip_iface ?x = vip_iface r" using cfg by (simp add: vip_iface_def)
    show "?P ?new"
    proof (rule impI)
      assume full: "\<forall>x \<in> set ?new. fully_healthy (fst x)"
      consider (up) "\<exists>x \<in> set log. ev_up (vip_iface r) \<in> set (snd x)"
        | (wait) "lastIfaceDown ?x" "int (length log) \<le> recoveryStreak ?x" "recoveryStreak ?x < ?k"
        using IH full by auto
      then show "(\<exists>x \<in> set ?new. ev_up (vip_iface r) \<in> set (snd x)) \<or>
          lastIfaceDown (latest r ?new) \<and> int (length ?new) \<le> recoveryStreak (latest r ?new) \<and>
          recoveryStreak (latest r ?new) < ?k"
      proof cases
        case wait
        then have "0 \<le> recoveryStreak ?x" "recoveryStreak ?x < 2 ^ 62" using assms(3) by linarith+
        with held_or_released [OF c] mode assms(2,4) full wait show ?thesis
          by (auto simp: cfg vi)
      qed auto
    qed
  qed
  have "length (fst (run_state (cycles os json_err m r) s0)) = m" for m
    by (induction m) (simp, simp only: cycles_Suc Let_def case_prod_beta fst_conv length_Cons)
  then have "int (length log) = ?k" using assms(2,8) by simp
  with P assms(8,9) show ?thesis by fastforce
qed

section \<open>The notification debounce\<close>

definition last_same :: "nat \<Rightarrow> State \<Rightarrow> log \<Rightarrow> bool" where
  "last_same k st log \<longleftrightarrow> k \<le> length log \<and> (\<forall>x \<in> set (take k log). confirmState (fst x) = st)"

lemma last_same_mono: "last_same k st log \<Longrightarrow> j \<le> k \<Longrightarrow> last_same j st log"
  using set_take_subset_set_take [of j k log] by (auto simp: last_same_def)

definition confirm_inv :: "Runner \<Rightarrow> log \<Rightarrow> bool" where
  "confirm_inv r log \<longleftrightarrow> 0 \<le> confirmCount (latest r log) \<and>
     last_same (nat (confirmCount (latest r log))) (confirmState (latest r log)) log"

lemma confirm_step:
  assumes "confirm_inv r log" and "int (length log) < 2 ^ 62"
    and c: "cycle_of os clk (latest r log) s r' s' obs v r1 down t ds"
  shows "confirm_inv r ((r', cmds) # log)"
proof -
  let ?k = "confirmCount (latest r log)"
  have k: "0 \<le> ?k" "nat ?k \<le> length log" using assms(1) by (simp_all add: confirm_inv_def last_same_def)
  then have i: "i64 (?k + 1) = ?k + 1" using assms(2) by (intro i64_id) (simp add: int64_def)
  show ?thesis
    using assms(1) k i cycle_of_fields(6,7) [OF c]
    by (auto simp: confirm_inv_def last_same_def nat_add_distrib)
qed

text \<open>C15. The debounce: a state is announced (and becomes the last announced state) only when it has been
  the node's state in \<open>notify_confirm\<close> consecutive cycles, the announcing one included.\<close>

theorem announcement_is_confirmed:
  assumes "0 < notify_confirm (rCfg r)" and "confirmCount r = 0" and "int n < 2 ^ 62"
    and "log = fst (run_state (cycles os json_err n r) s0)" and "i < length log"
    and "lastState (fst (log ! i)) \<noteq> lastState (latest r (drop (Suc i) log))"
  shows "last_same (nat (notify_confirm (rCfg r))) (lastState (fst (log ! i))) (drop i log)"
proof -
  let ?k = "nat (notify_confirm (rCfg r))"
  let ?P = "\<lambda>log. confirm_inv r log \<and>
    (\<forall>i < length log. lastState (fst (log ! i)) \<noteq> lastState (latest r (drop (Suc i) log)) \<longrightarrow>
       last_same ?k (lastState (fst (log ! i))) (drop i log))"
  have "?P (fst (run_state (cycles os json_err n r) s0))"
  proof (rule cycles_invariant [where clk = "\<lambda>_. 0"])
    show "?P []" using assms(2) by (simp add: confirm_inv_def last_same_def)
    fix log s r' s' obs v r1 down t ds
    assume P: "?P log" and cfg: "rCfg (latest r log) = rCfg r" and n: "length log < n"
      and c: "cycle_of os (\<lambda>_. 0) (latest r log) s r' s' obs v r1 down t ds"
    let ?new = "(r', drop (length (commands s)) (commands s')) # log"
    have "int (length log) < 2 ^ 62" using n assms(3) by linarith
    then have inv: "confirm_inv r ?new" using P c confirm_step by blast
    have "last_same ?k (lastState r') ?new" if "lastState r' \<noteq> lastState (latest r log)"
    proof -
      have "lastState r' = confirmState r'" "nat (notify_confirm (rCfg r)) \<le> nat (confirmCount r')"
        using that cycle_of_fields(6,8) [OF c] cfg by (auto split: if_splits)
      with inv show ?thesis
        unfolding confirm_inv_def latest_simps fst_conv using last_same_mono by metis
    qed
    then show "?P ?new" using P inv by (auto simp: nth_Cons split: nat.splits)
  qed
  then show ?thesis using assms(4-6) by blast
qed

section \<open>Step-downs are spaced\<close>

text \<open>
  A cycle that steps down, seen from outside: it ran \<open>ifconfig down\<close> although the score it found is 40
  or more. What the agent notes of it plays no part.
\<close>

definition steps_down :: "Runner \<times> 'w io \<Rightarrow> Runner \<times> 'w io \<Rightarrow> bool" where
  "steps_down x y \<longleftrightarrow>
     ev_down (vip_iface (fst x)) \<in> set (drop (length (commands (snd x))) (commands (snd y))) \<and>
     40 \<le> hScore (lastHealth (fst y))"

lemma cycle_steps_down:
  assumes "cycle_of os clk r s r' s' obs v r1 down t ds"
  shows "steps_down (r, s) (r', s') \<longleftrightarrow> down"
proof -
  note c = cycle_of_fields(9) [OF assms]
  have h: "lastHealth r' = obsHealth obs" using assms by (simp add: cycle_of_def)
  show ?thesis
  proof (cases down)
    case True
    have "vDecision v = fst (held_decision r obs)" by (rule cycle_of_fields(1) [OF assms])
    moreover have "\<not> DesiredIfaceDown (vDecision v)"
      using True assms by (auto simp: cycle_of_def cycle_effect_def preempted_def may_preempt_def)
    ultimately have "40 \<le> hScore (lastHealth r')" using h by (simp add: held_decision_down)
    with True c show ?thesis by (simp add: steps_down_def)
  next
    case False
    have "ev_down (vip_iface r) \<notin> set (drop (length (commands s)) (commands s'))" if "40 \<le> hScore (obsHealth obs)"
    proof -
      have "lastIfaceDown r" if "DesiredIfaceDown (fst (held_decision r obs))"
        using that \<open>40 \<le> hScore (obsHealth obs)\<close> held_needs_down by (auto simp: held_decision_down)
      with c False show ?thesis by (auto simp: posture_commands_def ev_defs)
    qed
    with False h show ?thesis by (auto simp: steps_down_def)
  qed
qed

text \<open>
  The runner as a limiter with one key, whose stamp is \<open>preemptCooldown\<close>. A use is a cycle, on the machine
  and under the configuration of that moment.
\<close>

definition cycle_step :: "'w os \<Rightarrow> (string \<Rightarrow> goerr) \<Rightarrow> ('w \<Rightarrow> instant) \<Rightarrow> Runner \<Rightarrow> Runner \<Rightarrow>
    (unit \<times> instant \<times> instant) option \<Rightarrow> bool" where
  "cycle_step os json_err clk r r' g \<longleftrightarrow> clock_ok os clk \<and>
     (\<exists>cfg s s'. run_state (runOnce os json_err (r\<lparr>rCfg := cfg\<rparr>)) s = (r', s') \<and>
        g = (if steps_down (r\<lparr>rCfg := cfg\<rparr>, s) (r', s') then Some ((), clk (io_world s), clk (io_world s')) else None))"

lemma cycle_stamp:
  assumes "run_state (runOnce os json_err r) s = (r', s')" and "clock_ok os clk"
  shows "if steps_down (r, s) (r', s')
    then preemptCooldown r + preemptCooldownPeriod \<le> preemptCooldown r' \<and>
      clk (io_world s) \<le> preemptCooldown r' \<and> preemptCooldown r' \<le> clk (io_world s')
    else preemptCooldown r' = preemptCooldown r"
proof -
  obtain obs v r1 down t ds where c: "cycle_of os clk r s r' s' obs v r1 down t ds"
    using assms(1) by (rule runOnce_cycle)
  have "preemptCooldown r1 = preemptCooldown r"
    using c decide_runner [of "r\<lparr>lastHealth := obsHealth obs\<rparr>" obs] by (auto simp: cycle_of_def)
  with c assms(2) show ?thesis
    unfolding cycle_steps_down [OF c] by (auto simp: cycle_of_def cycle_effect_def preempted_def)
qed

interpretation step_downs: spaced "cycle_step os json_err clk" "\<lambda>r _. Some (preemptCooldown r)" preemptCooldownPeriod
  for os :: "'w os" and json_err clk
proof unfold_locales
  fix r r' :: Runner and k :: unit and b e
  show "(\<lambda>_::unit. Some (preemptCooldown r')) = (\<lambda>_. Some (preemptCooldown r))"
    if "cycle_step os json_err clk r r' None"
    using that unfolding cycle_step_def by (auto dest: cycle_stamp split: if_splits)
  show "\<exists>t. (\<lambda>_. Some (preemptCooldown r')) = (\<lambda>_. Some (preemptCooldown r))(k \<mapsto> t) \<and> b \<le> t \<and> t \<le> e \<and>
      (\<forall>t0. Some (preemptCooldown r) = Some t0 \<longrightarrow> t0 + preemptCooldownPeriod \<le> t)"
    if "cycle_step os json_err clk r r' (Some (k, b, e))"
    using that unfolding cycle_step_def
    by (intro exI [of _ "preemptCooldown r'"]) (auto simp: fun_eq_iff dest: cycle_stamp split: if_splits)
qed (simp add: preemptCooldownPeriod_def second_def)

text \<open>
  A run of cycles, each on the machine and under the configuration of its own moment (whatever happened in
  between): for each that steps down, the clock at its start and at its end, oldest first.
\<close>

fun step_down_spans :: "'w os \<Rightarrow> (string \<Rightarrow> goerr) \<Rightarrow> ('w \<Rightarrow> instant) \<Rightarrow> (Config \<times> 'w io) list \<Rightarrow> Runner \<Rightarrow>
    (instant \<times> instant) list" where
  "step_down_spans os json_err clk [] r = []"
| "step_down_spans os json_err clk ((cfg, s) # moments) r =
     (case run_state (runOnce os json_err (r\<lparr>rCfg := cfg\<rparr>)) s of (r', s') \<Rightarrow>
        (if steps_down (r\<lparr>rCfg := cfg\<rparr>, s) (r', s') then [(clk (io_world s), clk (io_world s'))] else []) @
        step_down_spans os json_err clk moments r')"

lemma step_down_path:
  fixes os :: "'w os"
  assumes "clock_ok os clk"
  shows "\<exists>path. step_downs.runs TYPE('w) os json_err clk r path \<and>
    step_downs.grants () path = step_down_spans os json_err clk moments r"
proof (induction moments arbitrary: r)
  case Nil
  show ?case by (rule exI [of _ "[]"]) simp
next
  case (Cons m moments)
  obtain cfg s where m: "m = (cfg, s)" by (cases m)
  let ?r = "r\<lparr>rCfg := cfg\<rparr>"
  obtain r' s' where run: "run_state (runOnce os json_err ?r) s = (r', s')" by (metis prod.exhaust)
  obtain path where p: "step_downs.runs TYPE('w) os json_err clk r' path"
    "step_downs.grants () path = step_down_spans os json_err clk moments r'"
    using Cons.IH by blast
  let ?g = "if steps_down (?r, s) (r', s') then Some ((), clk (io_world s), clk (io_world s')) else None"
  have "cycle_step os json_err clk r r' ?g"
    unfolding cycle_step_def using assms run by blast
  with p run m show ?case
    by (intro exI [of _ "(r', ?g) # path"]) simp
qed

text \<open>C16. However long the agent runs, and whatever reloads come, two cycles that take the interface of a serving
  node down for a peer are at least 60 seconds apart: the later ends no sooner than 60 seconds after the earlier
  began.\<close>

theorem step_downs_spaced:
  assumes "clock_ok os clk"
  shows "sorted_wrt (\<lambda>(b, e) (b', e'). b + 60 * second \<le> e') (step_down_spans os json_err clk moments r)"
proof -
  obtain path where p: "step_downs.runs TYPE(_) os json_err clk r path"
    "step_downs.grants () path = step_down_spans os json_err clk moments r"
    using step_down_path [OF assms] by blast
  show ?thesis
    using step_downs.grants_spaced [OF p(1), where k = "()"] unfolding p(2) preemptCooldownPeriod_def .
qed

end
