(* ===== verification/Load.thy ===== *)
theory Load
  imports Config Regexp
begin

text \<open>
  The way from a file to a configuration (config.go): the check for unknown keys on the YAML tree,
  the expansion of \<open>${NAME}\<close>, \<open>Load\<close> and the \<open>CheckConfig\<close> behind \<open>-t\<close>. The parser and the decoder
  of \<open>gopkg.in/yaml.v3\<close> are parameters, and so are the environment and the order in which Go ranges
  over a map.
\<close>

section \<open>The YAML tree\<close>

datatype yaml_kind = ZeroNode | DocumentNode | SequenceNode | MappingNode | ScalarNode | AliasNode

datatype yaml_node = YamlNode (yKind: yaml_kind) (yLine: int) (yValue: string) (yContent: "yaml_node list")

record yaml_library =
  yaml_parse :: "string \<Rightarrow> goerr + yaml_node"
  yaml_decode :: "string \<Rightarrow> goerr + Config"
  map_order :: "string list \<Rightarrow> string list"

fun key_pairs :: "'a list \<Rightarrow> ('a \<times> 'a) list" where
  "key_pairs (k # v # rest) = (k, v) # key_pairs rest"
| "key_pairs rest = []"

section \<open>Unknown keys\<close>

definition knownKeys :: "string \<rightharpoonup> string list" where
  "knownKeys =
     [''agent'' \<mapsto> [''interval'', ''interface'', ''vip_interface'', ''vhid'', ''state_file'', ''recovery_confirm''],
      ''log_file'' \<mapsto> [],
      ''log_level'' \<mapsto> [],
      ''health'' \<mapsto> [''process_check'', ''process_name'', ''process_names'', ''tcp_check'', ''udp_check'',
                    ''dns_query'', ''bind_address'', ''bind_addresses'', ''weights''],
      ''carp'' \<mapsto> [''demotion_healthy'', ''demotion_degraded'', ''demotion_unhealthy''],
      ''peer'' \<mapsto> [''enabled'', ''bind'', ''port'', ''token'', ''ping'', ''tls'', ''peers'', ''dns_port''],
      ''policy'' \<mapsto> [''mode''],
      ''notify'' \<mapsto> [''email'', ''slack'', ''telegram'', ''cooldown'', ''confirm'', ''vip_loss_alert'',
                    ''master_loss_alert'']]"

definition nestedKeys :: "string \<rightharpoonup> string list" where
  "nestedKeys =
     [''dns_query'' \<mapsto> [''enabled'', ''domain'', ''domains'', ''record_type'', ''timeout'', ''latency_threshold''],
      ''email'' \<mapsto> [''enabled'', ''smtp_host'', ''smtp_port'', ''username'', ''password'', ''from'', ''to''],
      ''weights'' \<mapsto> [''process'', ''tcp'', ''udp'', ''dns''],
      ''tls'' \<mapsto> [''enabled'', ''cert_file'', ''key_file''],
      ''slack'' \<mapsto> [''enabled'', ''webhook_url''],
      ''telegram'' \<mapsto> [''enabled'', ''bot_token'', ''chat_id''],
      ''peer.peers'' \<mapsto> [''ip'', ''name'', ''token'']]"

definition unknown_under :: "yaml_node \<Rightarrow> string \<Rightarrow> string \<Rightarrow> string" where
  "unknown_under k context valid =
     ''  line '' @ Itoa (yLine k) @ '': unknown key '' @ Quote (yValue k) @ '' under '' @ sq @ context @ '':'' @ sq @
     '' '' @ em_dash @ '' valid: '' @ valid"

definition checkMappingKeys :: "(string list \<Rightarrow> string list) \<Rightarrow> yaml_node \<Rightarrow> string \<Rightarrow> string list" where
  "checkMappingKeys order node context =
     (if yKind node \<noteq> MappingNode then []
      else (case nestedKeys context of
              None \<Rightarrow> []
            | Some valid \<Rightarrow>
                concat (map (\<lambda>p. check (yValue (fst p) \<notin> set valid)
                    (unknown_under (fst p) context (Join (order valid) '', '')))
                  (key_pairs (yContent node)))))"

definition checkPeerEntries :: "(string list \<Rightarrow> string list) \<Rightarrow> yaml_node \<Rightarrow> string list" where
  "checkPeerEntries order node =
     (if yKind node \<noteq> SequenceNode then []
      else concat (map (\<lambda>item. if yKind item = MappingNode then checkMappingKeys order item ''peer.peers'' else [])
             (yContent node)))"

text \<open>The keys a message lists, in the order of the code.\<close>

definition section_help :: "string \<Rightarrow> string" where
  "section_help prefix =
     (if prefix = ''agent'' then ''interval, interface, vip_interface, vhid, state_file, recovery_confirm''
      else if prefix = ''health'' then
        ''process_check, process_name, process_names, tcp_check, udp_check, dns_query, bind_address, weights''
      else if prefix = ''carp'' then ''demotion_healthy, demotion_degraded, demotion_unhealthy''
      else if prefix = ''peer'' then ''enabled, bind, port, token, ping, tls, peers, dns_port''
      else if prefix = ''policy'' then ''mode''
      else ''email, slack, telegram, cooldown, confirm, vip_loss_alert'')"

definition nested_errors :: "(string list \<Rightarrow> string list) \<Rightarrow> string \<Rightarrow> string \<Rightarrow> yaml_node \<Rightarrow> string list" where
  "nested_errors order prefix key val =
     (if prefix = ''health'' \<and> key \<in> {''dns_query'', ''weights''} \<and> yKind val = MappingNode
      then checkMappingKeys order val key
      else if prefix = ''peer'' \<and> key = ''peers'' \<and> yKind val = SequenceNode then checkPeerEntries order val
      else if prefix = ''peer'' \<and> key = ''tls'' \<and> yKind val = MappingNode then checkMappingKeys order val ''tls''
      else if prefix = ''notify'' \<and> key \<in> {''email'', ''slack'', ''telegram''} \<and> yKind val = MappingNode
      then checkMappingKeys order val key
      else [])"

definition section_errors :: "(string list \<Rightarrow> string list) \<Rightarrow> string \<Rightarrow> yaml_node \<Rightarrow> yaml_node \<Rightarrow> string list" where
  "section_errors order prefix k val =
     (if prefix \<in> {''agent'', ''health'', ''carp'', ''peer'', ''policy'', ''notify''} then
        (if yValue k \<notin> set (map_get [] knownKeys prefix)
         then [unknown_under k prefix (section_help prefix)]
         else nested_errors order prefix (yValue k) val)
      else [])"

definition top_level_error :: "yaml_node \<Rightarrow> string" where
  "top_level_error k =
     ''  line '' @ Itoa (yLine k) @ '': unknown top-level key '' @ Quote (yValue k) @ '' '' @ em_dash @
     '' valid: agent, health, carp, peer, policy, notify, log_file, log_level''"

lemma key_pairs_mem: "p \<in> set (key_pairs xs) \<Longrightarrow> fst p \<in> set xs \<and> snd p \<in> set xs"
  by (induction xs rule: key_pairs.induct) auto

lemma key_pairs_smaller: "p \<in> set (key_pairs xs) \<Longrightarrow> size (snd p) < Suc (size_list size xs)"
  using key_pairs_mem [of p xs] size_list_estimation' [of "snd p" xs "size (snd p)" size] by simp

function checkUnknownKeys :: "(string list \<Rightarrow> string list) \<Rightarrow> yaml_node \<Rightarrow> string \<Rightarrow> string list" where
  "checkUnknownKeys order (YamlNode kind line v content) prefix =
     (if kind = DocumentNode \<and> content \<noteq> [] then checkUnknownKeys order (hd content) prefix
      else if kind \<noteq> MappingNode then []
      else concat (map (\<lambda>p.
             if prefix = [] then
               (if yValue (fst p) \<notin> dom knownKeys then [top_level_error (fst p)]
                else if yKind (snd p) = MappingNode then checkUnknownKeys order (snd p) (yValue (fst p))
                else [])
             else section_errors order prefix (fst p) (snd p))
           (key_pairs content)))"
  by pat_completeness auto
termination
proof (relation "measure (\<lambda>(order, node, prefix). size node)", goal_cases)
  case (2 order kind line v content prefix)
  then show ?case using size_list_estimation' [of "hd content" content "size (hd content)" size] by simp
next
  case (3 order kind line v content prefix p)
  then show ?case using key_pairs_smaller [of p content] by simp
qed simp

declare checkUnknownKeys.simps [simp del]

section \<open>The environment\<close>

text \<open>\<open>ReplaceAllFunc\<close> of the library: every match of the pattern, from the left.\<close>

function ReplaceAllFunc :: "regex \<Rightarrow> (string \<Rightarrow> string) \<Rightarrow> string \<Rightarrow> string" where
  "ReplaceAllFunc re f s =
     (case find_match re s of
        None \<Rightarrow> s
      | Some (c, m, rest) \<Rightarrow>
          if length rest < length s
          then take (length s - length (m @ rest)) s @ f m @ ReplaceAllFunc re f rest
          else s)"
  by pat_completeness auto
termination
  by (relation "measure (\<lambda>(re, f, s). length s)") auto

declare ReplaceAllFunc.simps [simp del]

definition not_brace :: "char \<Rightarrow> bool" where
  "not_brace c \<longleftrightarrow> c \<noteq> CHR ''}''"

definition envPattern :: regex where
  "envPattern = SeqL [Lit ''${'', Cap (PlusC not_brace), Lit ''}'']"

definition expand_one :: "(string \<Rightarrow> string) \<Rightarrow> string \<Rightarrow> string" where
  "expand_one getenv m =
     (let envVar = take (length m - 3) (drop 2 m); val = getenv envVar in if val = [] then m else val)"

definition expandEnv :: "(string \<Rightarrow> string) \<Rightarrow> string \<Rightarrow> string" where
  "expandEnv getenv data = ReplaceAllFunc envPattern (expand_one getenv) data"

section \<open>Loading and checking\<close>

definition decode_config :: "yaml_library \<Rightarrow> (string \<Rightarrow> string) \<Rightarrow> string \<Rightarrow> goerr + Config" where
  "decode_config yaml getenv data =
     (case yaml_decode yaml (expandEnv getenv data) of
        Inl e \<Rightarrow> Inl e
      | Inr cfg \<Rightarrow> Inr (applyDeprecatedAliases cfg))"

definition parse_config :: "yaml_library \<Rightarrow> (string \<Rightarrow> string) \<Rightarrow> string \<Rightarrow> goerr + Config" where
  "parse_config yaml getenv data =
     (case yaml_parse yaml data of
        Inl e \<Rightarrow> Inl (OpaqueErr (''YAML syntax error: '' @ Error e))
      | Inr rawNode \<Rightarrow>
          (let errs = checkUnknownKeys (map_order yaml) rawNode []
           in if errs \<noteq> [] then Inl (OpaqueErr (Join errs ''\<newline>''))
              else (case decode_config yaml getenv data of
                      Inl e \<Rightarrow> Inl (WrapErr ''parse config: '' e [])
                    | Inr cfg \<Rightarrow>
                        if Validate cfg \<noteq> [] then Inl (OpaqueErr (Join (Validate cfg) ''\<newline>''))
                        else Inr cfg)))"

definition Load :: "'w os \<Rightarrow> yaml_library \<Rightarrow> (string \<Rightarrow> string) \<Rightarrow> string \<Rightarrow> ('w io, goerr + Config) state" where
  "Load os yaml getenv path = do {
     r \<leftarrow> call (os_read_file os path);
     State_Monad.return
       (case r of
          Inl e \<Rightarrow> Inl (WrapErr ''read config: '' e [])
        | Inr data \<Rightarrow> parse_config yaml getenv data)
   }"

definition nonempty :: "string list \<Rightarrow> string list" where
  "nonempty ls = filter (\<lambda>l. l \<noteq> []) ls"

definition config_errors :: "yaml_library \<Rightarrow> (string \<Rightarrow> string) \<Rightarrow> string \<Rightarrow> string list" where
  "config_errors yaml getenv data =
     (case yaml_parse yaml data of
        Inl e \<Rightarrow> [''YAML syntax error: '' @ Error e]
      | Inr rawNode \<Rightarrow>
          checkUnknownKeys (map_order yaml) rawNode [] @
          (case decode_config yaml getenv data of
             Inl e \<Rightarrow> [''parse config: '' @ Error e]
           | Inr cfg \<Rightarrow>
               if Validate cfg \<noteq> [] then nonempty (Split (Join (Validate cfg) ''\<newline>'') (CHR ''\<newline>'')) else []))"

definition CheckConfig :: "'w os \<Rightarrow> yaml_library \<Rightarrow> (string \<Rightarrow> string) \<Rightarrow> string \<Rightarrow> ('w io, string list) state" where
  "CheckConfig os yaml getenv path = do {
     r \<leftarrow> call (os_read_file os path);
     State_Monad.return
       (case r of
          Inl e \<Rightarrow> [''read config: '' @ Error e]
        | Inr data \<Rightarrow> config_errors yaml getenv data)
   }"

section \<open>Every message says something\<close>

definition worded :: "string \<Rightarrow> bool" where
  "worded m \<longleftrightarrow> (\<exists>x \<in> set m. x \<noteq> CHR ''\<newline>'')"

lemma worded_append [simp]: "worded (s @ t) \<longleftrightarrow> worded s \<or> worded t"
  by (auto simp: worded_def)

lemma worded_Cons [simp]: "worded (c # s) \<longleftrightarrow> c \<noteq> CHR ''\<newline>'' \<or> worded s"
  by (auto simp: worded_def)

lemma worded_check: "list_all worded (check b m) \<longleftrightarrow> (b \<longrightarrow> worded m)"
  by (simp add: check_def)

lemma worded_concat: "(\<And>x. x \<in> set xs \<Longrightarrow> list_all worded (f x)) \<Longrightarrow> list_all worded (concat (map f xs))"
  by (auto simp: list_all_iff)

lemma worded_parts:
  "list_all worded (validate_agent a)" "list_all worded (validate_dns_query d)"
  "list_all worded (validate_bind_addresses h)" "list_all worded (validate_weights w)"
  "list_all worded (validate_process_names h)" "list_all worded (validate_tls t)"
  "list_all worded (validate_carp c)" "list_all worded (validate_peer p)"
  "list_all worded (validate_policy m)" "list_all worded (validate_notify n)"
  unfolding validate_agent_def validate_dns_query_def validate_bind_addresses_def validate_weights_def validateWeight_def
    validate_process_names_def validate_tls_def validate_carp_def validate_peer_def validate_policy_def validate_notify_def
  by (auto simp: worded_check intro!: worded_concat)

lemma worded_Validate: "m \<in> set (Validate cfg) \<Longrightarrow> worded m"
  using worded_parts unfolding Validate_def by (auto simp: list_all_iff)

lemma worded_Join: "m \<in> set ms \<Longrightarrow> worded m \<Longrightarrow> worded (Join ms sep)"
  by (induction ms sep rule: Join.induct) auto

lemma worded_Split: "worded s \<Longrightarrow> nonempty (Split s (CHR ''\<newline>'')) \<noteq> []"
  by (induction s) (auto simp: nonempty_def worded_def split: list.splits)

lemma messages_survive: "Validate cfg \<noteq> [] \<Longrightarrow> nonempty (Split (Join (Validate cfg) ''\<newline>'') (CHR ''\<newline>'')) \<noteq> []"
  by (rule worded_Split) (meson worded_Join worded_Validate list.set_intros(1) neq_Nil_conv hd_in_set)

section \<open>What loads\<close>

lemma parse_config_valid: "parse_config yaml getenv data = Inr cfg \<Longrightarrow> Validate cfg = []"
  by (auto simp: parse_config_def Let_def split: sum.splits if_splits)

lemma config_errors_iff: "config_errors yaml getenv data = [] \<longleftrightarrow> (\<exists>cfg. parse_config yaml getenv data = Inr cfg)"
  using messages_survive
  by (auto simp: config_errors_def parse_config_def Let_def split: sum.split)

text \<open>C19. The test of a configuration (\<open>-t\<close>) and the loading of it agree: no message is printed exactly when
  the agent would start with the file, and what it would start with satisfies every rule of \<open>Validate\<close>.\<close>

theorem check_agrees_with_load:
  "fst (run_state (CheckConfig os yaml getenv path) s) = [] \<longleftrightarrow>
     (\<exists>cfg. fst (run_state (Load os yaml getenv path) s) = Inr cfg \<and> Validate cfg = [])"
  using parse_config_valid config_errors_iff
  by (auto simp: CheckConfig_def Load_def split: sum.split)

lemma same_if:
  "(b \<Longrightarrow> (x = []) = (x' = [])) \<Longrightarrow> (\<not> b \<Longrightarrow> (y = []) = (y' = [])) \<Longrightarrow>
     ((if b then x else y) = []) = ((if b then x' else y') = [])"
  by simp

lemma same_concat:
  "(\<And>p. p \<in> set ps \<Longrightarrow> (f p = []) = (g p = [])) \<Longrightarrow> (concat (map f ps) = []) = (concat (map g ps) = [])"
  by simp

lemma checkMappingKeys_order: "(checkMappingKeys f n c = []) = (checkMappingKeys g n c = [])"
  by (auto simp: checkMappingKeys_def split: option.split)

lemma checkPeerEntries_order: "(checkPeerEntries f n = []) = (checkPeerEntries g n = [])"
  unfolding checkPeerEntries_def by (intro same_if same_concat refl checkMappingKeys_order)

lemma section_errors_order: "(section_errors f p k v = []) = (section_errors g p k v = [])"
  unfolding section_errors_def nested_errors_def
  by (intro same_if refl checkMappingKeys_order checkPeerEntries_order)

lemma checkUnknownKeys_order: "(checkUnknownKeys f n p = []) = (checkUnknownKeys g n p = [])"
proof (induction f n p rule: checkUnknownKeys.induct)
  case (1 f kind line v content prefix)
  show ?case
    unfolding checkUnknownKeys.simps [of f] checkUnknownKeys.simps [of g]
    by (intro same_if same_concat refl section_errors_order) (rule 1; simp)+
qed

text \<open>C29. Go ranges over a map in a random order, which reaches the text of an error; whether a file loads and
  the configuration it gives do not depend on it.\<close>

theorem load_ignores_map_order:
  "fst (run_state (Load os yaml getenv path) s) = Inr cfg \<longleftrightarrow>
     fst (run_state (Load os (yaml\<lparr>map_order := order\<rparr>) getenv path) s) = Inr cfg"
proof -
  have "checkUnknownKeys (map_order yaml) n [] = [] \<longleftrightarrow> checkUnknownKeys order n [] = []" for n
    by (rule checkUnknownKeys_order)
  then show ?thesis
    by (auto simp: Load_def parse_config_def decode_config_def Let_def split: sum.split)
qed

section \<open>Placeholders\<close>

lemma spans_head: "list_all p n \<Longrightarrow> \<not> p c \<Longrightarrow> \<exists>tl. spans p (n @ c # b) = (n, c # b) # tl"
proof (induction n)
  case (Cons a n)
  then obtain tl where "spans p (n @ c # b) = (n, c # b) # tl" by auto
  with Cons.prems show ?case by simp
qed simp

lemma matches_placeholder:
  assumes "n \<noteq> []" and "CHR ''}'' \<notin> set n"
  shows "\<exists>tl. matches envPattern (''${'' @ n @ ''}'' @ b) = ([n], ''${'' @ n @ ''}'', b) # tl"
proof -
  obtain a m where n: "n = a # m" using assms(1) by (cases n) auto
  have p: "list_all not_brace m" "not_brace a" "\<not> not_brace (CHR ''}'')"
    using assms(2) n by (auto simp: not_brace_def list_all_iff)
  from spans_head [OF p(1,3), of b] obtain tl where "spans not_brace (m @ ''}'' @ b) = (m, ''}'' @ b) # tl" by auto
  with p(2) show ?thesis by (simp add: envPattern_def PlusC_def n)
qed

lemma matches_env_skip: "CHR ''$'' \<noteq> c \<Longrightarrow> matches envPattern (c # s) = []"
  by (simp add: envPattern_def)

lemma find_placeholder:
  assumes "CHR ''$'' \<notin> set a" and "n \<noteq> []" and "CHR ''}'' \<notin> set n"
  shows "find_match envPattern (a @ ''${'' @ n @ ''}'' @ b) = Some ([n], ''${'' @ n @ ''}'', b)"
  using assms(1)
proof (induction a)
  case Nil
  then show ?case using matches_placeholder [OF assms(2,3), of b] find_match_hit by fastforce
next
  case (Cons x a)
  then show ?case
    using find_match_skip [OF matches_env_skip [of x]] by simp
qed

text \<open>C30. The first \<open>${NAME}\<close> of a text becomes the value of the variable, or stays as it is when the variable
  is unset or empty, and the expansion goes on behind it; a value is not expanded again.\<close>

theorem placeholder_is_expanded:
  assumes "CHR ''$'' \<notin> set a" and "n \<noteq> []" and "CHR ''}'' \<notin> set n"
  shows "expandEnv getenv (a @ ''${'' @ n @ ''}'' @ b) =
    a @ (if getenv n = [] then ''${'' @ n @ ''}'' else getenv n) @ expandEnv getenv b"
  using find_placeholder [OF assms, of b]
  by (simp add: expandEnv_def ReplaceAllFunc.simps [of envPattern _ "a @ _"] expand_one_def)

end
