(* ===== verification/Settings.thy ===== *)
theory Settings
  imports Runner Load
begin

text \<open>
  What a configuration that passed \<open>Validate\<close> gives the agent: the weights of the score, the demotion
  levels and the thresholds are in the ranges the properties of the other theories ask for.
\<close>

lemma Validate_nilD:
  assumes "Validate cfg = []"
  shows "validate_agent (cAgent cfg) = []" "validate_weights (hWeights (cHealth cfg)) = []"
    "validate_carp (cCARP cfg) = []" "validate_notify (cNotify cfg) = []" "validate_policy (cPolicyMode cfg) = []"
    "validate_peer (cPeer cfg) = []"
  using assms by (simp_all add: Validate_def)

lemma weightOrDefault_range: "0 \<le> w \<Longrightarrow> w \<le> 100 \<Longrightarrow> 0 \<le> weightOrDefault w 25 \<and> weightOrDefault w 25 \<le> 100"
  by (simp add: weightOrDefault_def)

lemma valid_weights: "Validate cfg = [] \<Longrightarrow> weights_ok (effective_weights (health_config cfg))"
proof -
  assume "Validate cfg = []"
  then have "validate_weights (hWeights (cHealth cfg)) = []" by (rule Validate_nilD)
  then show ?thesis
    using weightOrDefault_range
    by (simp add: validate_weights_def validateWeight_def weights_ok_def effective_weights_def health_config_def
        Let_def DefaultWeights_def)
qed

lemma valid_levels:
  assumes "Validate cfg = []"
  shows "0 \<le> dlHealthy (demotionLevels cfg) \<and> dlHealthy (demotionLevels cfg) \<le> dlDegraded (demotionLevels cfg) \<and>
    dlDegraded (demotionLevels cfg) \<le> 255 \<and> 0 < dlUnhealthy (demotionLevels cfg) \<and>
    dlUnhealthy (demotionLevels cfg) \<le> 255 \<and>
    dlHealthy (demotionLevels cfg) < dlUnhealthy (demotionLevels cfg) \<and>
    (DemotionDegraded (cCARP cfg) = 0 \<or> dlDegraded (demotionLevels cfg) < dlUnhealthy (demotionLevels cfg))"
  using Validate_nilD(3) [OF assms] by (auto simp: validate_carp_def demotionLevels_def)

lemma valid_thresholds:
  assumes "Validate cfg = []"
  shows "0 < recovery_confirm cfg" "0 < notify_confirm cfg" "0 < Interval (cAgent cfg)" "0 < nCooldown (cNotify cfg)"
    "VIPInterface (cAgent cfg) \<noteq> []" "ParsePolicyMode (cPolicyMode cfg) = PolicyPreempt \<longleftrightarrow> cPolicyMode cfg = ''preempt''"
  using Validate_nilD [OF assms]
  by (auto simp: recovery_confirm_def notify_confirm_def DefaultRecoveryConfirm_def DefaultNotifyConfirm_def
      validate_agent_def validate_notify_def ParsePolicyMode_def)

text \<open>C20. A configuration that \<open>Validate\<close> accepts puts everything the decisions use in range: weights of 0 to 100,
  positive thresholds, interval and cooldown, and demotion levels within a byte with healthy below unhealthy.
  Degraded lies between them whenever the file gives it.\<close>

theorem validated_settings:
  assumes "Validate cfg = []"
  shows "weights_ok (effective_weights (health_config cfg)) \<and>
    0 < recovery_confirm cfg \<and> 0 < notify_confirm cfg \<and> 0 < Interval (cAgent cfg) \<and> 0 < nCooldown (cNotify cfg) \<and>
    0 \<le> dlHealthy (demotionLevels cfg) \<and> dlHealthy (demotionLevels cfg) < dlUnhealthy (demotionLevels cfg) \<and>
    dlUnhealthy (demotionLevels cfg) \<le> 255 \<and>
    dlHealthy (demotionLevels cfg) \<le> dlDegraded (demotionLevels cfg) \<and> dlDegraded (demotionLevels cfg) \<le> 255 \<and>
    (DemotionDegraded (cCARP cfg) = 0 \<or> dlDegraded (demotionLevels cfg) < dlUnhealthy (demotionLevels cfg))"
  using valid_weights [OF assms] valid_levels [OF assms] valid_thresholds [OF assms] by blast

section \<open>Healthier nodes advertise less\<close>

lemma hasHealthierPeer_mono: "hasHealthierPeer m phs \<Longrightarrow> n \<le> m \<Longrightarrow> hasHealthierPeer n phs"
  by (auto simp: hasHealthierPeer_def list_ex_iff)

text \<open>C21. With a valid configuration that gives the degraded level, the demotion a node advertises never grows
  with its score, all else being equal: a healthier node never looks worse to CARP.\<close>

theorem healthier_advertises_less:
  assumes "Validate cfg = []" and "DemotionDegraded (cCARP cfg) \<noteq> 0" and "n \<le> m"
  shows "DesiredDemotion (EvaluatePolicy mode m carp phs (demotionLevels cfg)) \<le>
    DesiredDemotion (EvaluatePolicy mode n carp phs (demotionLevels cfg))"
  using valid_levels [OF assms(1)] assms(2,3) hasHealthierPeer_mono [of m phs n]
  by (auto simp: EvaluatePolicy_demotion)

end
