(* ===== verification/Loop.thy ===== *)
theory Loop
  imports Kernel History Settings
begin

text \<open>
  The process: \<open>main\<close> (cmd/dns-ha-agent/main.go) and \<open>Run\<close>, \<open>Reload\<close>, \<open>Stop\<close> (runner.go). Two
  goroutines act on the runner, the loop of \<open>Run\<close> and the handler of signals; a step of the relation
  below is one pass of either. A pass is taken as a whole, so two passes never overlap: the mutexes
  of the code guard single fields only, and what the code leaves to chance when \<open>Stop\<close> runs during a
  cycle is not modelled. The select of the loop is: whatever is ready may be picked, so a tick that
  is due may be taken after \<open>done\<close> was closed.
\<close>

section \<open>The process\<close>

datatype stage = Starting | Looping | Ended

record agent =
  aRunner :: Runner
  aStage :: stage
  aStopped :: bool
  aPeriod :: duration

text \<open>What surrounds it: the machine, the wording of JSON errors, the YAML library, the environment and
  the path of the configuration.\<close>

record 'w site =
  machine_of :: "'w os"
  json_error :: "string \<Rightarrow> goerr"
  yaml_of :: yaml_library
  environment :: "string \<Rightarrow> string"
  config_path :: string

definition load_config :: "'w site \<Rightarrow> ('w io, goerr + Config) state" where
  "load_config x = Load (machine_of x) (yaml_of x) (environment x) (config_path x)"

definition new_agent :: "Config \<Rightarrow> Runner \<Rightarrow> agent" where
  "new_agent cfg r = \<lparr>aRunner = r, aStage = Starting, aStopped = False, aPeriod = Interval (cAgent cfg)\<rparr>"

text \<open>The start of \<open>main\<close>; \<open>None\<close> is its exit with an error.\<close>

definition boot :: "'w site \<Rightarrow> ('w io, agent option) state" where
  "boot x = do {
     loaded \<leftarrow> load_config x;
     case loaded of
       Inl e \<Rightarrow> State_Monad.return None
     | Inr cfg \<Rightarrow> do {
         r \<leftarrow> NewRunner (machine_of x) cfg;
         State_Monad.return (Some (new_agent cfg r))
       }
   }"

text \<open>The first cycle of \<open>Run\<close>, or a tick.\<close>

definition do_cycle :: "'w site \<Rightarrow> agent \<Rightarrow> ('w io, agent) state" where
  "do_cycle x a = do {
     r \<leftarrow> runOnce (machine_of x) (json_error x) (aRunner a);
     State_Monad.return (a\<lparr>aRunner := r, aStage := Looping\<rparr>)
   }"

definition take_config :: "agent \<Rightarrow> agent" where
  "take_config a =
     (case reloadCh (aRunner a) of
        None \<Rightarrow> a
      | Some newCfg \<Rightarrow>
          (let old = rCfg (aRunner a);
               a = a\<lparr>aRunner := swap_config (aRunner a)\<rparr>
           in if Interval (cAgent old) \<noteq> Interval (cAgent newCfg) then a\<lparr>aPeriod := Interval (cAgent newCfg)\<rparr>
              else a))"

text \<open>SIGHUP, and SIGTERM or SIGINT.\<close>

definition take_loaded :: "goerr + Config \<Rightarrow> agent \<Rightarrow> agent" where
  "take_loaded loaded a =
     (case loaded of Inl e \<Rightarrow> a | Inr newCfg \<Rightarrow> a\<lparr>aRunner := Reload newCfg (aRunner a)\<rparr>)"

definition terminate :: "'w site \<Rightarrow> agent \<Rightarrow> ('w io, agent) state" where
  "terminate x a = do {
     r \<leftarrow> Stop (machine_of x) (aRunner a);
     State_Monad.return (a\<lparr>aRunner := r, aStopped := True\<rparr>)
   }"

text \<open>
  \<open>step x ok\<close> is one pass; \<open>ok\<close> restricts the configurations that a reload finds, for the properties
  that depend on them (\<open>\<lambda>_. True\<close> is the program).
\<close>

inductive step :: "'w site \<Rightarrow> (Config \<Rightarrow> bool) \<Rightarrow> agent \<times> 'w io \<Rightarrow> agent \<times> 'w io \<Rightarrow> bool"
  for x :: "'w site" and ok :: "Config \<Rightarrow> bool" where
  cycle: "aStage a \<noteq> Ended \<Longrightarrow> run_state (do_cycle x a) s = (a', s') \<Longrightarrow> step x ok (a, s) (a', s')"
| swap: "aStage a = Looping \<Longrightarrow> reloadCh (aRunner a) \<noteq> None \<Longrightarrow> step x ok (a, s) (take_config a, s)"
| hangup: "\<not> aStopped a \<Longrightarrow> run_state (load_config x) s = (loaded, s') \<Longrightarrow> (\<And>c. loaded = Inr c \<Longrightarrow> ok c) \<Longrightarrow>
    step x ok (a, s) (take_loaded loaded a, s')"
| stop: "\<not> aStopped a \<Longrightarrow> run_state (terminate x a) s = (a', s') \<Longrightarrow> step x ok (a, s) (a', s')"
| finish: "aStage a = Looping \<Longrightarrow> aStopped a \<Longrightarrow> step x ok (a, s) (a\<lparr>aStage := Ended\<rparr>, s)"

inductive_cases step_cases: "step x ok (a, s) y"

inductive reaches :: "'w site \<Rightarrow> (Config \<Rightarrow> bool) \<Rightarrow> agent \<times> 'w io \<Rightarrow> agent \<times> 'w io \<Rightarrow> bool"
  for x :: "'w site" and ok :: "Config \<Rightarrow> bool" and y :: "agent \<times> 'w io" where
  here: "reaches x ok y y"
| more: "reaches x ok y z \<Longrightarrow> step x ok z z' \<Longrightarrow> reaches x ok y z'"

text \<open>An invariant of every step holds of everything that is reached.\<close>

lemma reaches_invariant:
  assumes "reaches x ok y z" and "I y" and "\<And>z z'. I z \<Longrightarrow> step x ok z z' \<Longrightarrow> I z'"
  shows "I z"
  using assms by (induction rule: reaches.induct) auto

lemma ended_or_not: "step x ok (a, s) (a', s') \<Longrightarrow> aStage a = Ended \<Longrightarrow> aStage a' = Ended"
  by (auto elim!: step_cases simp: take_loaded_def terminate_def case_prod_beta split: sum.split)

section \<open>What a cycle never changes\<close>

lemma runOnce_frame:
  assumes "run_state (runOnce os json_err r) s = (r', s')"
  shows "rCfg r' = rCfg r" "reloadCh r' = reloadCh r" "peerSrv r' = peerSrv r"
proof -
  obtain obs v r1 down t ds where c: "cycle_of os (\<lambda>_. 0) r s r' s' obs v r1 down t ds"
    using runOnce_cycle [OF assms] by blast
  then have "r1 = snd (decided r obs)" by (simp add: cycle_of_def)
  with c show "rCfg r' = rCfg r" "reloadCh r' = reloadCh r" "peerSrv r' = peerSrv r"
    using decide_runner [of "r\<lparr>lastHealth := obsHealth obs\<rparr>" obs]
    by (simp_all add: cycle_of_def cycle_effect_def)
qed

text \<open>The channels of the notifier and its cooldown: only the stamps of a dispatcher ever change.\<close>

definition channels :: "EventDispatcher \<Rightarrow> Notifier list \<times> duration" where
  "channels d = (notifiers d, cdDuration (cooldown d))"

lemma channels_dispatch_with: "channels (fst (run_state (dispatch_with os key render d) s)) = channels d"
  by (simp add: dispatch_with_def case_prod_beta Let_def channels_def Allow_def split: option.split)

lemma channels_alert_peer: "channels (snd (fst (run_state (alert_peer os rep ph td) s))) = channels (snd td)"
  by (simp add: alert_peer_def case_prod_beta Let_def send_peer_alert_def dispatches channels_dispatch_with)

lemma channels_alerts: "channels (snd (fst (run_state (foldM (alert_peer os rep) phs td) s))) = channels (snd td)"
  by (induction phs arbitrary: td s) (simp_all add: case_prod_beta channels_alert_peer)

lemma channels_tell: "channels (notifier (fst (run_state (tell os obs v n r) s))) = channels (notifier r)"
proof -
  have p: "channels (notifier (fst (run_state (peer_alerts os obs v c r) s))) = channels (notifier r)" for c r s
    by (simp add: peer_alerts_def case_prod_beta Let_def channels_alerts)
  have a: "channels (notifier (fst (run_state (announce_state os obs v c r) s))) = channels (notifier r)" for c r s
    by (simp add: announce_state_def case_prod_beta Let_def dispatches channels_dispatch_with)
  have l: "channels (notifier (fst (run_state (vip_loss_alert os obs v n c r) s))) = channels (notifier r)" for c r s
    by (simp add: vip_loss_alert_def case_prod_beta Let_def dispatches channels_dispatch_with)
  show ?thesis by (simp add: tell_def case_prod_beta p a l remember_master_def)
qed

lemma notifier_act: "notifier (snd (fst (run_state (act os obs v r) s))) = notifier r"
proof -
  have "notifier (fst (run_state (preempt_step os obs v n r) s)) = notifier r" for n r s
    using wpD [OF preempt_step_wp [where clk = "\<lambda>_. 0" and os = os and obs = obs and v = v and n = n and r = r and s = s]]
    by (auto simp: stepped_def)
  then show ?thesis by (simp add: act_def case_prod_beta apply_posture_result posture_def)
qed

lemma channels_runOnce: "channels (notifier (fst (run_state (runOnce os json_err r) s))) = channels (notifier r)"
  by (simp add: runOnce_def react_def case_prod_beta channels_tell notifier_act decide_runner)

lemma Stop_frame:
  "rCfg (fst (run_state (Stop os r) s)) = rCfg r" "reloadCh (fst (run_state (Stop os r) s)) = reloadCh r"
  "peerSrv (fst (run_state (Stop os r) s)) = peerSrv r" "notifier (fst (run_state (Stop os r) s)) = notifier r"
  "lastHealth (fst (run_state (Stop os r) s)) = lastHealth r" "lastState (fst (run_state (Stop os r) s)) = lastState r"
  by (simp_all add: Stop_def case_prod_beta)

section \<open>Invariants of the process\<close>

lemma scored_range:
  assumes "weights_ok (effective_weights cfg)" and "scored_by cfg h"
  shows "0 \<le> hScore h \<and> hScore h \<le> 100"
proof -
  let ?w = "effective_weights cfg"
  have "0 \<le> raw_of ?w h" "raw_of ?w h \<le> max_of_weights ?w" "max_of_weights ?w \<le> 400"
    using assms(1) by (auto simp: raw_of_def max_of_weights_ok weights_ok_def)
  with assms(2) normalized_score_range show ?thesis by (simp add: scored_by_def)
qed

definition sound :: "agent \<times> 'w io \<Rightarrow> bool" where
  "sound z \<longleftrightarrow>
     (let r = aRunner (fst z)
      in Validate (rCfg r) = [] \<and> (\<forall>c. reloadCh r = Some c \<longrightarrow> Validate c = []) \<and>
         0 \<le> hScore (lastHealth r) \<and> hScore (lastHealth r) \<le> 100)"

lemma runOnce_score:
  assumes "run_state (runOnce os json_err r) s = (r', s')" and "Validate (rCfg r) = []"
  shows "0 \<le> hScore (lastHealth r') \<and> hScore (lastHealth r') \<le> 100"
proof -
  obtain obs v r1 down t ds where "cycle_of os (\<lambda>_. 0) r s r' s' obs v r1 down t ds"
    using runOnce_cycle [OF assms(1)] by blast
  then show ?thesis
    using valid_weights [OF assms(2)] scored_range unfolding cycle_of_def by metis
qed

lemma swap_config_fields:
  "reloadCh r = Some c \<Longrightarrow> rCfg (swap_config r) = c \<and> reloadCh (swap_config r) = None \<and>
     peerSrv (swap_config r) = peerSrv r \<and> notifier (swap_config r) = notifier r \<and>
     lastHealth (swap_config r) = lastHealth r \<and> lastIfaceDown (swap_config r) = lastIfaceDown r \<and>
     lastDemotion (swap_config r) = lastDemotion r"
  by (simp add: swap_config_def)

lemma Reload_fields:
  "rCfg (Reload c r) = rCfg r \<and> reloadCh (Reload c r) = (case reloadCh r of None \<Rightarrow> Some c | Some d \<Rightarrow> Some d) \<and>
     peerSrv (Reload c r) = peerSrv r \<and> notifier (Reload c r) = notifier r \<and> lastHealth (Reload c r) = lastHealth r \<and>
     lastIfaceDown (Reload c r) = lastIfaceDown r \<and> lastDemotion (Reload c r) = lastDemotion r"
  by (simp add: Reload_def split: option.split)

lemma take_config_fields:
  "aRunner (take_config a) = swap_config (aRunner a)" "aStage (take_config a) = aStage a"
  "aStopped (take_config a) = aStopped a"
  by (simp_all add: take_config_def swap_config_def Let_def split: option.split)

lemma load_config_valid: "run_state (load_config x) s = (Inr cfg, s') \<Longrightarrow> Validate cfg = []"
  using parse_config_valid by (auto simp: load_config_def Load_def split: sum.splits)

text \<open>The runner of the next state, rule by rule.\<close>

lemma step_runner:
  assumes "step x ok (a, s) (a', s')"
  obtains (cycle) "run_state (runOnce (machine_of x) (json_error x) (aRunner a)) s = (aRunner a', s')"
      "aStopped a' = aStopped a" "aStage a' = Looping" "aStage a \<noteq> Ended"
    | (swap) c where "reloadCh (aRunner a) = Some c" "aRunner a' = swap_config (aRunner a)" "s' = s"
      "aStopped a' = aStopped a" "aStage a' = aStage a" "aStage a = Looping"
    | (ignored) e where "run_state (load_config x) s = (Inl e, s')" "a' = a" "\<not> aStopped a"
    | (hangup) c where "run_state (load_config x) s = (Inr c, s')" "ok c" "aRunner a' = Reload c (aRunner a)"
      "aStopped a' = aStopped a" "aStage a' = aStage a" "\<not> aStopped a"
    | (stop) "run_state (Stop (machine_of x) (aRunner a)) s = (aRunner a', s')" "\<not> aStopped a" "aStopped a'"
      "aStage a' = aStage a"
    | (finish) "aRunner a' = aRunner a" "s' = s" "aStopped a" "aStage a' = Ended" "aStopped a'"
  using assms
proof cases
  case cycle
  then show ?thesis by (intro that(1)) (auto simp: do_cycle_def case_prod_beta prod_eq_iff)
next
  case swap
  then show ?thesis by (auto intro: that(2) simp: take_config_fields)
next
  case (hangup loaded)
  then show ?thesis by (cases loaded) (auto intro: that(3,4) simp: take_loaded_def)
next
  case stop
  then show ?thesis by (intro that(5)) (auto simp: terminate_def case_prod_beta prod_eq_iff)
next
  case finish
  then show ?thesis by (intro that(6)) auto
qed

lemma sound_step:
  assumes "sound z" and "step x ok z z'"
  shows "sound z'"
proof -
  obtain a s a' s' where z: "z = (a, s)" "z' = (a', s')" by (metis prod.exhaust)
  from assms(2) [unfolded z] show ?thesis
  proof (cases rule: step_runner)
    case cycle
    then show ?thesis
      using assms(1) z runOnce_frame [OF cycle(1)] runOnce_score [OF cycle(1)] by (simp add: sound_def Let_def)
  next
    case (swap c)
    then show ?thesis using assms(1) z swap_config_fields [OF swap(1)] by (simp add: sound_def Let_def)
  next
    case (hangup c)
    then show ?thesis
      using assms(1) z load_config_valid [OF hangup(1)] Reload_fields [of c "aRunner a"]
      by (auto simp: sound_def Let_def split: option.splits)
  next
    case stop
    then show ?thesis
      using assms(1) z Stop_frame [of "machine_of x" "aRunner a" s] by (simp add: sound_def Let_def)
  qed (use assms(1) z in \<open>simp_all add: sound_def Let_def\<close>)
qed

lemma boot_runner:
  assumes "run_state (boot x) s = (Some a, s')"
  shows "sound (a, s')" "aStage a = Starting" "\<not> aStopped a" "\<not> lastIfaceDown (aRunner a)" "lastDemotion (aRunner a) = -1"
    "reloadCh (aRunner a) = None" "aPeriod a = Interval (cAgent (rCfg (aRunner a)))"
    "peerSrv (aRunner a) = NewHeartbeatServer (Token (cPeer (rCfg (aRunner a))))
       (map eToken (Peers (cPeer (rCfg (aRunner a))))) (VIPInterface (cAgent (rCfg (aRunner a)))) (VHID (cAgent (rCfg (aRunner a))))"
    "notifier (aRunner a) = new_dispatcher (cNotify (rCfg (aRunner a)))"
proof -
  obtain cfg s1 where l: "run_state (load_config x) s = (Inr cfg, s1)"
    and r: "fst (run_state (NewRunner (machine_of x) cfg) s1) = aRunner a" and a: "a = new_agent cfg (aRunner a)"
    using assms by (auto simp: boot_def new_agent_def case_prod_beta prod_eq_iff split: sum.splits)
  have "aStage a = Starting" "\<not> aStopped a" "aPeriod a = Interval (cAgent cfg)"
    by (subst a, simp add: new_agent_def)+
  then show "sound (a, s')" "aStage a = Starting" "\<not> aStopped a" "\<not> lastIfaceDown (aRunner a)" "lastDemotion (aRunner a) = -1"
    "reloadCh (aRunner a) = None" "aPeriod a = Interval (cAgent (rCfg (aRunner a)))"
    "peerSrv (aRunner a) = NewHeartbeatServer (Token (cPeer (rCfg (aRunner a))))
       (map eToken (Peers (cPeer (rCfg (aRunner a))))) (VIPInterface (cAgent (rCfg (aRunner a)))) (VHID (cAgent (rCfg (aRunner a))))"
    "notifier (aRunner a) = new_dispatcher (cNotify (rCfg (aRunner a)))"
    using load_config_valid [OF l]
    by (simp_all add: r [symmetric] NewRunner_def case_prod_beta sound_def zeroHealthResult_def)
qed

text \<open>C9. Whatever signals and reloads come, the agent only ever runs under a configuration that \<open>Validate\<close>
  accepted, and the score it serves its peers is one between 0 and 100.\<close>

theorem always_valid:
  assumes "run_state (boot x) s = (Some a, s1)" and "reaches x ok (a, s1) (b, s2)"
  shows "Validate (rCfg (aRunner b)) = [] \<and> 0 \<le> hScore (lastHealth (aRunner b)) \<and> hScore (lastHealth (aRunner b)) \<le> 100"
proof -
  have "sound (b, s2)" using boot_runner(1) [OF assms(1)] sound_step by (rule reaches_invariant [where I = sound, OF assms(2)])
  then show ?thesis by (simp add: sound_def Let_def)
qed

lemma fixed_step:
  assumes "step x ok (a, s) (a', s')"
  shows "peerSrv (aRunner a') = peerSrv (aRunner a) \<and> channels (notifier (aRunner a')) = channels (notifier (aRunner a))"
  using assms
proof (cases rule: step_runner)
  case cycle
  then show ?thesis using runOnce_frame [OF cycle(1)] channels_runOnce [of "machine_of x" "json_error x" "aRunner a" s] by simp
next
  case (swap c)
  then show ?thesis using swap_config_fields [OF swap(1)] by simp
next
  case (hangup c)
  then show ?thesis using Reload_fields [of c "aRunner a"] by simp
next
  case stop
  then show ?thesis using Stop_frame [of "machine_of x" "aRunner a" s] by simp
qed simp_all

text \<open>C25. What a reload cannot change: for the whole life of the process the tokens, the interface and the VHID of the
  heartbeat server, the notification channels and their cooldown are those of the configuration it started with.\<close>

theorem fixed_at_start:
  assumes "run_state (boot x) s = (Some a, s1)" and "reaches x ok (a, s1) (b, s2)"
  shows "peerSrv (aRunner b) = NewHeartbeatServer (Token (cPeer (rCfg (aRunner a))))
      (map eToken (Peers (cPeer (rCfg (aRunner a))))) (VIPInterface (cAgent (rCfg (aRunner a)))) (VHID (cAgent (rCfg (aRunner a)))) \<and>
    channels (notifier (aRunner b)) = channels (new_dispatcher (cNotify (rCfg (aRunner a))))"
proof -
  let ?I = "\<lambda>z. peerSrv (aRunner (fst z)) = peerSrv (aRunner a) \<and>
    channels (notifier (aRunner (fst z))) = channels (notifier (aRunner a))"
  have "?I (b, s2)"
    by (rule reaches_invariant [OF assms(2)]) (auto dest: fixed_step)
  then show ?thesis by (simp add: boot_runner [OF assms(1)])
qed

text \<open>C24. The mailbox of reloads holds one: the configuration changes only by taking the pending one, and a pending one
  stays, whatever else is loaded meanwhile, until it is taken.\<close>

theorem reload_mailbox:
  assumes "step x ok (a, s) (a', s')"
  shows "(rCfg (aRunner a') = rCfg (aRunner a) \<or>
      reloadCh (aRunner a) = Some (rCfg (aRunner a')) \<and> reloadCh (aRunner a') = None) \<and>
    (case reloadCh (aRunner a) of
       None \<Rightarrow> True
     | Some c \<Rightarrow> reloadCh (aRunner a') = Some c \<or> rCfg (aRunner a') = c)"
  using assms
proof (cases rule: step_runner)
  case cycle
  then show ?thesis using runOnce_frame [OF cycle(1)] by (simp split: option.split)
next
  case (swap c)
  then show ?thesis using swap_config_fields [OF swap(1)] by simp
next
  case (hangup c)
  then show ?thesis using Reload_fields [of c "aRunner a"] by (simp split: option.split)
next
  case stop
  then show ?thesis using Stop_frame [of "machine_of x" "aRunner a" s] by (simp split: option.split)
qed (simp_all split: option.split)

section \<open>The kernel under the running agent\<close>

definition same_carp :: "Config \<Rightarrow> Config \<Rightarrow> bool" where
  "same_carp cfg c \<longleftrightarrow> VIPInterface (cAgent c) = VIPInterface (cAgent cfg) \<and> demotionLevels c = demotionLevels cfg"

text \<open>Until it is stopped: before the first cycle the machine is as the agent found it, later it is in step.\<close>

definition kernel_inv :: "('w \<Rightarrow> int \<times> bool) \<Rightarrow> Config \<Rightarrow> agent \<times> 'w io \<Rightarrow> bool" where
  "kernel_inv view cfg z \<longleftrightarrow>
     (let r = aRunner (fst z); v = view (io_world (snd z))
      in same_carp cfg (rCfg r) \<and> (\<forall>c. reloadCh r = Some c \<longrightarrow> same_carp cfg c) \<and>
         (aStopped (fst z) \<or> (if aStage (fst z) = Starting then fresh v r else in_step v r)))"

lemma in_step_cong:
  "lastIfaceDown r' = lastIfaceDown r \<Longrightarrow> lastDemotion r' = lastDemotion r \<Longrightarrow>
     demotionLevels (rCfg r') = demotionLevels (rCfg r) \<Longrightarrow> in_step v r' = in_step v r"
  by (simp add: in_step_def)

lemma fresh_cong:
  "lastIfaceDown r' = lastIfaceDown r \<Longrightarrow> lastDemotion r' = lastDemotion r \<Longrightarrow> fresh v r' = fresh v r"
  by (simp add: fresh_def)

lemma runOnce_in_step:
  assumes k: "carp_kernel os (vip_iface r) view" and l: "levels_ok (demotionLevels (rCfg r))"
    and start: "in_step (view (io_world s)) r \<or> fresh (view (io_world s)) r"
    and run: "run_state (runOnce os json_err r) s = (r', s')"
  shows "in_step (view (io_world s')) r'"
proof -
  let ?o = "run_state (observe os json_err (rCfg r)) s"
  have "view (io_world (snd ?o)) = view (io_world s)"
    by (rule view_keeps [OF reading.keeps_observe [OF carp_kernel_reading [OF k]]])
  moreover have "run_state (react os (fst ?o) r) (snd ?o) = (r', s')"
    using run by (simp add: runOnce_def case_prod_beta)
  ultimately show ?thesis using react_in_step [OF k l] start by metis
qed

lemma view_load_config:
  assumes "carp_kernel (machine_of x) i view" and "run_state (load_config x) s = (loaded, s')"
  shows "view (io_world s') = view (io_world s)"
proof -
  have "keeps (same_view view) (load_config x)"
    unfolding load_config_def Load_def
    by (intro effect.keeps_bind effect.keeps_return reading.call_read_file carp_kernel_reading [OF assms(1)]
        reading.axioms(1) [OF carp_kernel_reading [OF assms(1)]])
  from view_keeps [OF this, of s] assms(2) show ?thesis by simp
qed

lemma kernel_inv_step:
  assumes k: "carp_kernel (machine_of x) (VIPInterface (cAgent cfg)) view" and l: "levels_ok (demotionLevels cfg)"
    and inv: "kernel_inv view cfg z" and "step x (same_carp cfg) z z'"
  shows "kernel_inv view cfg z'"
proof -
  obtain a s a' s' where z: "z = (a, s)" "z' = (a', s')" by (metis prod.exhaust)
  let ?r = "aRunner a"
  have cfg: "same_carp cfg (rCfg ?r)" using inv z by (simp add: kernel_inv_def Let_def)
  then have k': "carp_kernel (machine_of x) (vip_iface ?r) view" and l': "levels_ok (demotionLevels (rCfg ?r))"
    using k l by (simp_all add: same_carp_def vip_iface_def)
  have pend: "\<And>c. reloadCh ?r = Some c \<Longrightarrow> same_carp cfg c"
    using inv z by (simp add: kernel_inv_def Let_def)
  from assms(4) [unfolded z] show ?thesis
  proof (cases rule: step_runner)
    case cycle
    have "aStopped a \<or> in_step (view (io_world s')) (aRunner a')"
      using inv z runOnce_in_step [OF k' l' _ cycle(1)] by (auto simp: kernel_inv_def Let_def split: if_splits)
    then show ?thesis
      using cfg pend cycle z runOnce_frame [OF cycle(1)] by (simp add: kernel_inv_def Let_def)
  next
    case (swap c)
    note f = swap_config_fields [OF swap(1)]
    have "in_step (view (io_world s)) (aRunner a') = in_step (view (io_world s)) ?r"
      by (rule in_step_cong) (use swap f cfg pend [OF swap(1)] in \<open>simp_all add: same_carp_def\<close>)
    then show ?thesis using inv z swap f pend [OF swap(1)] by (simp add: kernel_inv_def Let_def)
  next
    case (hangup c)
    note f = Reload_fields [of c ?r]
    have v: "view (io_world s') = view (io_world s)" by (rule view_load_config [OF k hangup(1)])
    have "in_step (view (io_world s)) (aRunner a') = in_step (view (io_world s)) ?r"
      by (rule in_step_cong) (use hangup f in simp_all)
    moreover have "fresh (view (io_world s)) (aRunner a') = fresh (view (io_world s)) ?r"
      by (rule fresh_cong) (use hangup f in simp_all)
    ultimately show ?thesis
      using inv z v hangup f by (auto simp: kernel_inv_def Let_def split: option.splits)
  next
    case (ignored e)
    then show ?thesis using inv z view_load_config [OF k ignored(1)] by (simp add: kernel_inv_def Let_def)
  next
    case stop
    then show ?thesis
      using cfg pend z Stop_frame [of "machine_of x" ?r s] by (simp add: kernel_inv_def Let_def)
  next
    case finish
    then show ?thesis using cfg pend z by (simp add: kernel_inv_def Let_def)
  qed
qed

text \<open>C1. The closed loop: an agent that starts with its interface up and runs, through any ticks and reloads that leave the
  interface and the demotion levels alone, against a kernel that adds what is written and 240 for an interface that
  is down, is in step with that kernel from its first cycle until it is stopped: the interface is up exactly when the
  agent thinks so, and then the kernel's demotion counter is exactly the level the agent last asked for.\<close>

theorem kernel_follows_agent:
  assumes "carp_kernel (machine_of x) (VIPInterface (cAgent (rCfg (aRunner a)))) view"
    and "levels_ok (demotionLevels (rCfg (aRunner a)))"
    and "run_state (boot x) s = (Some a, s1)" and "snd (view (io_world s1))" and "\<bar>fst (view (io_world s1))\<bar> < 2 ^ 62"
    and "reaches x (same_carp (rCfg (aRunner a))) (a, s1) (b, s2)" and "\<not> aStopped b" and "aStage b \<noteq> Starting"
  shows "snd (view (io_world s2)) = (\<not> lastIfaceDown (aRunner b)) \<and>
    (lastIfaceDown (aRunner b) \<or> fst (view (io_world s2)) = lastDemotion (aRunner b))"
proof -
  note b = boot_runner [OF assms(3)]
  have "kernel_inv view (rCfg (aRunner a)) (a, s1)"
    using b assms(4,5) by (simp add: kernel_inv_def Let_def same_carp_def fresh_def)
  then have "kernel_inv view (rCfg (aRunner a)) (b, s2)"
    using kernel_inv_step [OF assms(1,2)]
    by (rule reaches_invariant [where I = "kernel_inv view (rCfg (aRunner a))", OF assms(6)])
  then show ?thesis using assms(7,8) by (auto simp: kernel_inv_def Let_def in_step_def split: if_splits)
qed

text \<open>C18. A graceful stop hands the interface back: whatever the agent had done to it, after \<open>Stop\<close> the interface is up. A
  node that had been taken down leaves with the counter at 0, any other with the demotion it had.\<close>

theorem stop_restores_interface:
  assumes "carp_kernel os (vip_iface r) view" and "in_step (view (io_world s)) r"
    and "run_state (Stop os r) s = (r', s')"
  shows "snd (view (io_world s')) \<and> \<not> lastIfaceDown r' \<and>
    fst (view (io_world s')) = (if lastIfaceDown r then 0 else lastDemotion r)"
proof -
  let ?p = "StateFile (cAgent (rCfg r))"
  have save: "view (io_world (snd (run_state (saveState os ?p st) s1))) = view (io_world s1)" for st s1
    by (rule view_keeps [OF reporting.keeps_saveState [OF same_view_reporting [OF carp_kernel_reading [OF assms(1)]]]])
  let ?s1 = "snd (run_state (InterfaceUp os (vip_iface r)) s)"
  have up: "view (io_world ?s1) = up_view (view (io_world s))" by (rule view_InterfaceUp [OF assms(1)])
  show ?thesis
  proof (cases "lastIfaceDown r")
    case True
    then have "\<bar>fst (view (io_world ?s1))\<bar> < 2 ^ 62"
      using assms(2) up by (auto simp: in_step_def up_view_def split: if_splits)
    with small_int64 [of _ 0] view_SetDemotion [OF assms(1), of ?s1 0] up
    have "view (io_world (snd (run_state (SetDemotion os 0) ?s1))) = (0, True)" by (auto simp: up_view_def)
    with True assms(3) save show ?thesis
      by (auto simp: Stop_def case_prod_beta vip_iface_def split: if_splits)
  next
    case False
    with assms(2,3) save show ?thesis
      by (auto simp: Stop_def case_prod_beta in_step_def split: if_splits)
  qed
qed

end
