(* ===== verification/Exchange.thy ===== *)
theory Exchange
  imports Policy Heartbeat
begin

text \<open>
  Both ends of a heartbeat: the server of heartbeat.go answers the poll of peer.go. Whoever holds
  no configured token is turned away, and an answered poll carries the figures of the node
  unchanged.
\<close>

section \<open>Who is answered\<close>

text \<open>C7. Authentication: the server built from a configuration runs a page only for a request that carries
  a non-empty configured token, in its own header or as a bearer token; any other request gets the
  fixed 401 answer, and the machine is not even read for it.\<close>

theorem only_tokens_are_answered:
  "run_state (Handler os (NewHeartbeatServer token peerTokens iface vhid) h r) s =
     (if request_token r \<noteq> [] \<and> request_token r \<in> set (token # peerTokens)
      then run_state (mux os (NewHeartbeatServer token peerTokens iface vhid) h r) s
      else (Reply 401 ''text/plain; charset=utf-8'' ''unauthorized\<newline>'', s))"
  by (simp add: Handler_def authMiddleware_def authorized_iff del: set_simps)

section \<open>What is answered\<close>

lemma ascii_append [simp]: "ascii (s @ t) \<longleftrightarrow> ascii s \<and> ascii t"
  by (simp add: ascii_def)

lemma ascii_Cons [simp]: "ascii (c # s) \<longleftrightarrow> byte c < 0x80 \<and> ascii s"
  by (simp add: ascii_def)

lemma ascii_Nil [simp]: "ascii []"
  by (simp add: ascii_def)

lemma ascii_digits: "0 \<le> n \<Longrightarrow> ascii (udigits n)"
  using udigits_all [of n] by (auto simp: ascii_def is_digit_def byte_def list_all_iff)

lemma ascii_pad: "0 \<le> n \<Longrightarrow> ascii (pad_left k (udigits n))"
  using ascii_digits by (simp add: pad_left_def) (simp add: ascii_def list_all_iff byte_def)

text \<open>The parts of a civil date are not negative.\<close>

lemma day_of_year_nonneg:
  assumes "0 \<le> doe" and "doe < 146097"
  shows "0 \<le> year_of_era doe" and "0 \<le> day_of_year doe"
proof -
  define A where "A = doe div 1460"
  define B where "B = doe div 36524"
  define C where "C = doe div 146096"
  define Y where "Y = year_of_era doe"
  define Y4 where "Y4 = Y div 4"
  define Y100 where "Y100 = Y div 100"
  have A: "1460 * A \<le> doe" "doe < 1460 * A + 1460" "0 \<le> A" using assms(1) by (simp_all add: A_def)
  have B: "36524 * B \<le> doe" "doe < 36524 * B + 36524" "0 \<le> B" using assms(1) by (simp_all add: B_def)
  have "B \<le> 4" using B assms(2) by linarith
  have C: "0 \<le> C" "146096 * C \<le> doe" "doe < 146096 * C + 146096" using assms(1) by (simp_all add: C_def)
  have Y: "Y = (doe - A + B - C) div 365" by (simp add: Y_def year_of_era_def A_def B_def C_def)
  have n: "0 \<le> doe - A + B - C" using A B C by linarith
  then show "0 \<le> year_of_era doe" using Y by (simp add: Y_def)
  have y: "365 * Y \<le> doe - A + B - C" "doe - A + B - C < 365 * Y + 365"
    using n unfolding Y by simp_all
  have q: "4 * Y4 \<le> Y" "Y < 100 * Y100 + 100" by (simp_all add: Y4_def Y100_def)
  have "B - C \<le> A" using A B C by linarith
  then have "Y4 \<le> A" using q y A by linarith
  have "A - 25 * B \<le> doe - 36524 * B" using A B \<open>B \<le> 4\<close> by linarith
  then have "36500 * B - C \<le> doe - A + B - C" by linarith
  then have "100 * B \<le> Y + 100 * C" using y(2) C(1) by linarith
  then have "B - C \<le> Y100" using q by linarith
  have "0 \<le> doe - (365 * Y + Y4 - Y100)"
    using y(1) \<open>Y4 \<le> A\<close> \<open>B - C \<le> Y100\<close> by linarith
  then show "0 \<le> day_of_year doe" by (simp add: day_of_year_def Y_def Y4_def Y100_def)
qed

lemma civil_nonneg:
  assumes "0 \<le> days" and "civil_of_days days = (y, m, d)"
  shows "0 \<le> y" "0 \<le> m" "0 \<le> d"
proof -
  define doe where "doe = (days + 306) mod 146097"
  define doy where "doy = day_of_year doe"
  define mp where "mp = month_index doy"
  have "0 \<le> doe" "doe < 146097" by (simp_all add: doe_def)
  from day_of_year_nonneg [OF this] have n: "0 \<le> year_of_era doe" "0 \<le> doy" by (simp_all add: doy_def)
  then have mp: "0 \<le> mp" "153 * mp \<le> 5 * doy + 2" by (simp_all add: mp_def month_index_def)
  have e: "m = (if mp < 10 then mp + 3 else mp - 9)" "d = doy - (153 * mp + 2) div 5 + 1"
    "y = year_of_era doe + (days + 306) div 146097 * 400 + (if m \<le> 2 then 1 else 0)"
    using assms(2) unfolding civil_of_days_def Let_def doe_def [symmetric] doy_def [symmetric] mp_def [symmetric]
    by auto
  have "0 \<le> (days + 306) div 146097" using assms(1) by simp
  then show "0 \<le> y" using n unfolding e(3) by (simp split: if_split)
  show "0 \<le> m" using mp unfolding e(1) by simp
  have "(153 * mp + 2) div 5 \<le> doy + 1" using mp by linarith
  then show "0 \<le> d" unfolding e(2) by linarith
qed

lemma ascii_timestamp:
  assumes "0 \<le> t"
  shows "ascii (Format_UTC_RFC3339 t)"
proof -
  obtain y m d where ymd: "civil_of_days (t div second div 86400) = (y, m, d)" by (metis prod.exhaust)
  have "0 \<le> t div second" using assms by (simp add: second_def)
  then have "0 \<le> y" "0 \<le> m" "0 \<le> d" using civil_nonneg [OF _ ymd] by simp_all
  then show ?thesis
    unfolding Format_UTC_RFC3339_def Let_def ymd prod.case
    by (simp add: ascii_pad byte_def)
qed

lemma uint_scan_nonneg: "uint_scan a t = Some n \<Longrightarrow> 0 \<le> a \<Longrightarrow> 0 \<le> n"
proof (induction a t rule: uint_scan.induct)
  case (2 acc c cs)
  then show ?case using digit_val_range [of c] by (auto simp: Let_def split: if_splits)
qed simp

lemma Atoi_clip_int64: "int64 (fst (Atoi_clip s))"
proof (cases s)
  case (Cons c cs)
  define u where "u = (if c = CHR ''-'' \<or> c = CHR ''+'' then uint_scan 0 cs else uint_scan 0 s)"
  have "\<And>n. u = Some n \<Longrightarrow> 0 \<le> n" by (auto simp: u_def split: if_splits dest: uint_scan_nonneg)
  then show ?thesis
    by (cases u) (auto simp: Atoi_clip_def Cons u_def Let_def int64_def simp del: uint_scan.simps split: if_splits)
qed (simp add: Atoi_clip_def int64_def)

lemma Atoi_int64: "Atoi s = Some n \<Longrightarrow> int64 n"
  using Atoi_clip_int64 [of s] by (auto simp: Atoi_def split: prod.splits if_splits)

lemma first_advskew_int64: "first_advskew v ls = Some n \<Longrightarrow> int64 n"
  by (induction ls) (auto split: option.splits if_splits dest: Atoi_int64)

lemma figures_int64:
  "int64 (fst (fst (run_state (GetAdvskew os i v) s)))"
  "int64 (fst (fst (run_state (GetDemotion os) s)))"
  "int64 (fst (fst (run_state (GetPreempt os) s)))"
  using Atoi_clip_int64 first_advskew_int64
  by (auto simp: GetAdvskew_def GetDemotion_def GetPreempt_def parseSysctlInt_def parseAdvskew_def case_prod_beta
      int64_def [of 0] split: option.split)

lemma ascii_carp_text: "ascii (carp_text r)"
  by (cases r; cases "projr r") (auto simp: carp_text_def byte_def split: sum.split)

text \<open>C8. End to end: what a peer reads out of the page \<open>/health\<close> is what the node holds. Its score is the
  served score, its state the band of that score, and its CARP role, advskew, demotion and preempt flag are those
  the server read off the machine while it made the page, each in its own field.\<close>

theorem heartbeat_is_read_back:
  assumes "run_state (handleHealth os srv h) s = (Reply 200 ct page, s')" and "int64 (hScore h)"
    and "clock_ok os clk" and "0 \<le> clk (io_world s)"
  shows "let ph' = read_heartbeat json_err \<lparr>rs_status = 200, rs_body = page\<rparr> ph;
      (role, s1) = run_state (ReadState os (hsVIPIface srv) (hsVhid srv)) s;
      ((advskew, _), s2) = run_state (GetAdvskew os (hsVIPIface srv) (hsVhid srv)) s1;
      ((demotion, _), s3) = run_state (GetDemotion os) s2;
      ((preempt, _), _) = run_state (GetPreempt os) s3
    in phOK ph' \<and> phScore ph' = hScore h \<and> phState ph' = State_String (StateFromScore (hScore h)) \<and>
      phCarp ph' = carp_text role \<and> phAdvskew ph' = advskew \<and> phDemotion ph' = demotion \<and> phPreempt ph' = preempt"
proof -
  let ?c = "run_state (ReadState os (hsVIPIface srv) (hsVhid srv)) s"
  let ?a = "run_state (GetAdvskew os (hsVIPIface srv) (hsVhid srv)) (snd ?c)"
  let ?d = "run_state (GetDemotion os) (snd ?a)"
  let ?p = "run_state (GetPreempt os) (snd ?d)"
  let ?now = "fst (os_now os (io_world (snd ?p)))"
  let ?h = "\<lparr>hbScore = hScore h, hbCarpState = carp_text (fst ?c), hbAdvskew = fst (fst ?a),
    hbDemotion = fst (fst ?d), hbPreempt = fst (fst ?p)\<rparr>"
  have page: "page = encode_heartbeat ?h (Format_UTC_RFC3339 ?now)"
    using assms(1) by (simp add: handleHealth_def case_prod_beta)
  have "heartbeat_ok ?h"
    using assms(2) by (simp add: heartbeat_ok_def figures_int64 ascii_carp_text)
  moreover have "0 \<le> ?now"
  proof -
    note later = keepsD [OF reading.keeps_carp_readers(1) [OF later_reading [OF assms(3)]]]
      keepsD [OF reading.keeps_carp_readers(4) [OF later_reading [OF assms(3)]]]
      keepsD [OF reading.keeps_carp_readers(5) [OF later_reading [OF assms(3)]]]
      keepsD [OF reading.keeps_carp_readers(6) [OF later_reading [OF assms(3)]]]
    have "clk (io_world s) \<le> clk (io_world (snd ?c))" "clk (io_world (snd ?c)) \<le> clk (io_world (snd ?a))"
      "clk (io_world (snd ?a)) \<le> clk (io_world (snd ?d))" "clk (io_world (snd ?d)) \<le> clk (io_world (snd ?p))"
      using later by (simp_all add: later_def)
    with assms(4) clock_now(1) [OF assms(3), of "io_world (snd ?p)"] show ?thesis by linarith
  qed
  ultimately have "decode_heartbeat page = Some ?h"
    unfolding page using ascii_timestamp by (intro decode_encode)
  then show ?thesis by (simp add: read_heartbeat_def band_names case_prod_beta Let_def)
qed

end
