(* ===== verification/Simulation.thy ===== *)
theory Simulation
  imports Loop Exchange
begin

text \<open>
  A machine to run the agent on: a node with one CARP group whose kernel follows the law of the theory
  Kernel, a clock, a memory for files, a DNS server that may or may not serve, and peers that give one answer. Every
  hypothesis the properties make about a machine is shown of it, and the examples of the other
  theories run on it.
\<close>

section \<open>The machine\<close>

record machine =
  mNow :: instant
  mDemotion :: int
  mUp :: bool
  mServing :: bool
  mAnswer :: http_outcome
  mFiles :: "(string \<times> string) list"

text \<open>The delta in \<open>net.inet.carp.demotion=<delta>\<close>; the kernel's counter is an unbounded integer here.\<close>

definition signed_val :: "string \<Rightarrow> int" where
  "signed_val s = (if HasPrefix s ''-'' then - digits_val 0 (drop 1 s) else digits_val 0 s)"

definition demotion_oid :: string where "demotion_oid = ''net.inet.carp.demotion''"

definition listing :: "machine \<Rightarrow> string" where
  "listing w = (if mUp w then ''carp: MASTER vhid 1 advskew 9'' else ''carp: INIT vhid 1 advskew 9'')"

definition failure :: goerr where "failure = OpaqueErr ''exit status 1''"

definition service :: "machine \<Rightarrow> goerr option" where
  "service w = (if mServing w then None else Some ECONNREFUSED)"

definition success :: "string \<Rightarrow> cmd_result" where
  "success out = \<lparr>cr_stdout = out, cr_stderr = [], cr_err = None, cr_ctx = None\<rparr>"

definition machine_run :: "string \<Rightarrow> string list \<Rightarrow> duration \<Rightarrow> machine \<Rightarrow> cmd_result \<times> machine" where
  "machine_run prog args t w =
     (if prog = ''ifconfig'' then
        (if length args = 2 then
           (if args ! 1 = ''down'' then (success [], w\<lparr>mDemotion := fst (down_view (mDemotion w, mUp w)), mUp := False\<rparr>)
            else if args ! 1 = ''up'' then (success [], w\<lparr>mDemotion := fst (up_view (mDemotion w, mUp w)), mUp := True\<rparr>)
            else (success [], w))
         else (success (listing w), w))
      else if prog = ''sysctl'' then
        (if length args = 1 then
           (if HasPrefix (args ! 0) (demotion_oid @ ''='')
            then (success [], w\<lparr>mDemotion := mDemotion w + signed_val (TrimPrefix (args ! 0) (demotion_oid @ ''=''))\<rparr>)
            else (success [], w))
         else if args = [''-n'', demotion_oid] then (success (Itoa (mDemotion w) @ ''\<newline>''), w)
         else (success ''0\<newline>'', w))
      else if mServing w then (success [], w)
      else ((success [])\<lparr>cr_err := Some failure\<rparr>, w))"

definition machine_os :: "machine os" where
  "machine_os = \<lparr>
     os_now = (\<lambda>w. (mNow w + 1, w\<lparr>mNow := mNow w + 1\<rparr>)),
     os_run = machine_run,
     os_dial = (\<lambda>n a t w. (service w, w)),
     os_set_deadline = (\<lambda>i w. (None, w)),
     os_udp_write = (\<lambda>d w. (None, w)),
     os_udp_read = (\<lambda>n w. (Inr 12, w)),
     os_dns_exchange = (\<lambda>q y a t w. ((Some \<lparr>dr_rcode = 0\<rparr>, 1, service w), w)),
     os_http_do = (\<lambda>rq w. (mAnswer w, w)),
     os_read_file = (\<lambda>p w. (case map_of (mFiles w) p of None \<Rightarrow> Inl (OpaqueErr ''no such file'') | Some d \<Rightarrow> Inr d, w)),
     os_write_file = (\<lambda>p d w. if HasPrefix p ''/ro/'' then (Some (OpaqueErr ''read-only file system''), w)
                              else (None, w\<lparr>mFiles := (p, d) # mFiles w\<rparr>)),
     os_rename = (\<lambda>p q w. case map_of (mFiles w) p of
       None \<Rightarrow> (Some (OpaqueErr ''no such file''), w)
     | Some d \<Rightarrow> (None, w\<lparr>mFiles := (q, d) # filter (\<lambda>f. fst f \<noteq> p) (mFiles w)\<rparr>)),
     os_hostname = (\<lambda>w. ((''node'', None), w)),
     os_smtp = (\<lambda>a u f ts m w. (None, w)),
     os_post = (\<lambda>u d t w. (Inr 200, w)),
     os_random = (\<lambda>n w. (replicate n (CHR ''r''), w)),
     os_range = (\<lambda>kvs w. (kvs, w)),
     os_new_request = (\<lambda>u. None),
     os_format_time = (\<lambda>f t. f),
     os_dns_fqdn = (\<lambda>d. d @ ''.''),
     os_dns_pack = (\<lambda>d y. Some d),
     os_dns_string_to_type = (\<lambda>s. Some 1),
     os_dns_rcode_to_string = (\<lambda>n. Itoa n)\<rparr>"

definition machine_view :: "machine \<Rightarrow> int \<times> bool" where
  "machine_view w = (mDemotion w, mUp w)"

section \<open>It meets the hypotheses\<close>

lemma machine_clock: "clock_ok machine_os mNow"
  by (simp add: clock_ok_def machine_os_def machine_run_def split: option.split)

lemma map_of_filter_out: "map_of (filter (\<lambda>f. fst f \<noteq> p) fs) = (map_of fs)(p := None)"
  by (induction fs) (auto simp: fun_eq_iff)

lemma machine_filesystem: "filesystem machine_os (\<lambda>w. map_of (mFiles w))"
  by (auto simp: filesystem_def machine_os_def map_of_filter_out fun_eq_iff split: option.split)

lemma signed_val_Itoa: "signed_val (Itoa n) = n"
proof (cases "n < 0")
  case True
  then show ?thesis by (simp add: signed_val_def Itoa_def HasPrefix_def digits_val_udigits)
next
  case False
  then obtain c cs where cs: "udigits n = c # cs" by (cases "udigits n") auto
  with False udigits_hd_digit [of n] have "c \<noteq> CHR ''-''" by (simp add: digit_not_sign)
  with False cs show ?thesis
    using digits_val_udigits [of n] by (simp add: signed_val_def Itoa_def HasPrefix_def)
qed

lemma machine_reading: "reading (same_view machine_view) machine_os"
  by unfold_locales
    (auto simp: same_view_def keeps_def machine_os_def machine_view_def machine_run_def split: option.split)

lemma machine_kernel: "carp_kernel machine_os i machine_view"
  unfolding carp_kernel_def
  using machine_reading
  by (auto simp: machine_os_def machine_run_def machine_view_def command_ok_def success_def demotion_oid_def
      HasPrefix_def TrimPrefix_def signed_val_Itoa down_view_def up_view_def)

section \<open>A node and its agent\<close>

definition demo_config :: Config where
  "demo_config = \<lparr>
     cAgent = \<lparr>Interval = 5 * second, Interface = ''em0'', VIPInterface = ''em1'', VHID = 1, StateFile = [],
       RecoveryConfirm = 2\<rparr>,
     cHealth = \<lparr>ProcessCheck = True, hProcessName = [], hProcessNames = [], TCPCheck = True, UDPCheck = True,
       hDNSQuery = \<lparr>qEnabled = False, qDomain = [], qDomains = [], qRecordType = [], qTimeout = 0, qLatencyThreshold = 0\<rparr>,
       hBindAddress = [], hBindAddresses = [],
       hWeights = \<lparr>cwProcess = 40, cwTCP = 30, cwUDP = 30, cwDNS = 0\<rparr>\<rparr>,
     cCARP = \<lparr>DemotionHealthy = 0, DemotionDegraded = 50, DemotionUnhealthy = 200\<rparr>,
     cPeer = \<lparr>pEnabled = False, Bind = [], Port = '':9443'', Token = ''secret'', Ping = True,
       TLS = \<lparr>tEnabled = False, CertFile = [], KeyFile = []\<rparr>, Peers = [], DNSPort = []\<rparr>,
     cPolicyMode = ''preempt'',
     cNotify = \<lparr>
       Email = \<lparr>mEnabled = False, SMTPHost = [], SMTPPort = 0, Username = [], Password = [], From = [], To = []\<rparr>,
       Slack = \<lparr>sEnabled = True, WebhookURL = ''https://hooks''\<rparr>,
       Telegram = \<lparr>gEnabled = False, BotToken = [], ChatID = []\<rparr>,
       nCooldown = 300 * second, Confirm = 2, VIPLossAlert = False, MasterLossAlert = None\<rparr>,
     LogFile = [], LogLevel = []\<rparr>"

definition demo_world :: machine where
  "demo_world = \<lparr>mNow = 1000 * second, mDemotion = 7, mUp = True, mServing = True, mAnswer = HttpDialFailed ECONNREFUSED,
     mFiles = [(''/etc/agent.yaml'', ''agent:'')]\<rparr>"

definition demo_io :: "machine io" where
  "demo_io = \<lparr>io_world = demo_world, io_trace = []\<rparr>"

definition demo_runner :: Runner where
  "demo_runner = fst (run_state (NewRunner machine_os demo_config) demo_io)"

definition demo_site :: "machine site" where
  "demo_site = \<lparr>machine_of = machine_os, json_error = OpaqueErr,
     yaml_of = \<lparr>yaml_parse = (\<lambda>s. Inr (YamlNode ZeroNode 0 [] [])), yaml_decode = (\<lambda>s. Inr demo_config), map_order = id\<rparr>,
     environment = (\<lambda>v. if v = ''HOME'' then ''/root'' else []), config_path = ''/etc/agent.yaml''\<rparr>"

definition demo_agent :: agent where
  "demo_agent = new_agent demo_config demo_runner"

definition demo_peer :: PeerHealth where
  "demo_peer = (new_PeerHealth ''b'' ''10.0.0.2'' 0)\<lparr>phOK := True, phScore := 100, phAdvskew := 5, phPreempt := 1\<rparr>"

definition demo_obs :: "int \<Rightarrow> PeerHealth list \<Rightarrow> observation" where
  "demo_obs n phs = \<lparr>obsHealth = zeroHealthResult\<lparr>hScore := n, RawScore := n, MaxScore := 100\<rparr>, obsCarp = StateMaster,
     obsPeers = phs\<rparr>"

definition demo_verdict :: verdict where
  "demo_verdict = fst (decide demo_runner (demo_obs 100 [demo_peer]))"

end
