(* ===== verification/Console.thy ===== *)
theory Console
  imports Loop
begin

text \<open>
  The rest of \<open>cmd/dns-ha-agent/main.go\<close>: the choice of a command from the arguments (with the part of
  the package \<open>flag\<close> that the two flags need), \<open>-t\<close>, and the reports of \<open>check\<close> and \<open>status\<close>. What a
  command prints and the code it exits with are the record \<open>outcome\<close>.
\<close>

section \<open>Printing\<close>

definition double_h :: string where "double_h = [CHR 0xE2, CHR 0x95, CHR 0x90]"
definition double_v :: string where "double_v = [CHR 0xE2, CHR 0x95, CHR 0x91]"
definition bullet :: string where "bullet = [CHR 0xE2, CHR 0x80, CHR 0xA2]"
definition bar :: string where "bar = [CHR 0xE2, CHR 0x94, CHR 0x82]"

text \<open>A box-drawing character of the block U+2500 by its last byte.\<close>

definition corner :: "nat \<Rightarrow> string" where "corner b = [CHR 0xE2, CHR 0x94, char_of b]"
definition double_corner :: "nat \<Rightarrow> string" where "double_corner b = [CHR 0xE2, CHR 0x95, char_of b]"

definition Repeat :: "string \<Rightarrow> int \<Rightarrow> string" where
  "Repeat s n = concat (replicate (nat n) s)"

text \<open>\<open>utf8.RuneCountInString\<close>, by which \<open>fmt\<close> measures a text: a byte that starts no character counts as one.\<close>

function rune_count :: "string \<Rightarrow> nat" where
  "rune_count [] = 0"
| "rune_count (c # cs) = Suc (rune_count (drop (max 1 (utf8_len (c # cs))) (c # cs)))"
  by pat_completeness auto
termination
  by (relation "measure length") auto

declare rune_count.simps [simp del]

definition pad_right :: "nat \<Rightarrow> string \<Rightarrow> string" where
  "pad_right w s = s @ replicate (w - rune_count s) (CHR '' '')"

definition pad_front :: "nat \<Rightarrow> string \<Rightarrow> string" where
  "pad_front w s = replicate (w - rune_count s) (CHR '' '') @ s"

text \<open>\<open>%-*s\<close>: a width beyond a million is refused with a marker.\<close>

definition star_pad :: "int \<Rightarrow> string \<Rightarrow> string" where
  "star_pad w s = (if \<bar>w\<bar> > 1000000 then ''%!(BADWIDTH)'' @ s else pad_right (nat \<bar>w\<bar>) s)"

text \<open>\<open>Duration.Round\<close>.\<close>

definition Round :: "duration \<Rightarrow> duration \<Rightarrow> duration" where
  "Round d m =
     (if m \<le> 0 then d
      else (let r = \<bar>d\<bar> mod m in
            if d < 0 then
              (if 2 * r < m then d + r
               else let d1 = i64 (d - m + r) in if d1 < d then d1 else - (2 ^ 63))
            else
              (if 2 * r < m then d - r
               else let d1 = i64 (d + m - r) in if d1 > d then d1 else 2 ^ 63 - 1)))"

section \<open>The outcome of a command\<close>

record outcome =
  cStdout :: string
  cStderr :: string
  cExit :: int

definition logToSyslog :: "'w os \<Rightarrow> string \<Rightarrow> string \<Rightarrow> ('w io, unit) state" where
  "logToSyslog os tag msg = do {
     emit (EvExec ''logger'' [''-t'', tag, msg]);
     _ \<leftarrow> call (os_run os ''logger'' [''-t'', tag, msg] 0);
     State_Monad.return ()
   }"

definition error_box :: string where
  "error_box = nl @
     ''  '' @ double_corner 0x94 @ Repeat double_h 50 @ double_corner 0x97 @ nl @
     ''  '' @ double_v @ ''       DNS-HA-AGENT '' @ em_dash @ '' CONFIG ERROR                '' @ double_v @ nl @
     ''  '' @ double_corner 0x9A @ Repeat double_h 50 @ double_corner 0x9D @ nl @ nl"

definition fix_hint :: string where
  "fix_hint = nl @ ''  Fix the config and try again.'' @ nl @ nl"

definition testConfig :: "'w site \<Rightarrow> string \<Rightarrow> ('w io, outcome) state" where
  "testConfig x path = do {
     errs \<leftarrow> CheckConfig (machine_of x) (yaml_of x) (environment x) path;
     if errs \<noteq> [] then do {
       _ \<leftarrow> foldM (\<lambda>e _. logToSyslog (machine_of x) ''dns-ha-agent'' (''config error: '' @ e)) errs ();
       State_Monad.return
         \<lparr>cStdout = [],
          cStderr = error_box @ concat (map (\<lambda>e. ''  '' @ bullet @ '' '' @ e @ nl) errs) @ fix_hint,
          cExit = 1\<rparr>
     }
     else State_Monad.return \<lparr>cStdout = ''  Config OK: '' @ path @ nl, cStderr = [], cExit = 0\<rparr>
   }"

definition printConfigError :: "'w os \<Rightarrow> string \<Rightarrow> string \<Rightarrow> ('w io, outcome) state" where
  "printConfigError os path errMsg = do {
     logToSyslog os ''dns-ha-agent'' (''config error: '' @ errMsg);
     State_Monad.return
       \<lparr>cStdout = [], cStderr = error_box @ ''  File: '' @ path @ nl @ ''  '' @ errMsg @ nl @ fix_hint, cExit = 1\<rparr>
   }"

section \<open>check\<close>

definition sym :: "bool \<Rightarrow> string" where
  "sym ok = (if ok then ''OK'' else ''FAIL'')"

text \<open>The command builds the configuration of the checks itself, as the runner does.\<close>

definition check_weight :: "int \<Rightarrow> int \<Rightarrow> int" where
  "check_weight configured def = (if configured > 0 then configured else def)"

definition check_config :: "Config \<Rightarrow> ProcessConfig" where
  "check_config cfg =
     (let h = cHealth cfg; q = hDNSQuery h; w = hWeights h;
          c = \<lparr>ProcessNames = ProcessList h,
               ProcessWeight = check_weight (cwProcess w) (wProcess DefaultWeights),
               TCPWeight = check_weight (cwTCP w) (wTCP DefaultWeights),
               UDPWeight = check_weight (cwUDP w) (wUDP DefaultWeights),
               DNSWeight = check_weight (cwDNS w) (wDNS DefaultWeights),
               DNSEnabled = qEnabled q, DNSDomain = qDomain q, DNSDomains = DomainList q,
               DNSRecordType = Type q, DNSLatencyThreshold = qLatencyThreshold q,
               BindAddress = hBindAddress h, BindAddresses = BindAddressList h, Timeout = qTimeout q\<rparr>;
          c = (if \<not> ProcessCheck h then c\<lparr>ProcessWeight := 0\<rparr> else c);
          c = (if \<not> TCPCheck h then c\<lparr>TCPWeight := 0\<rparr> else c)
      in if \<not> UDPCheck h then c\<lparr>UDPWeight := 0\<rparr> else c)"

definition dns_detail :: "ProcessConfig \<Rightarrow> HealthResult \<Rightarrow> string" where
  "dns_detail cfg res =
     (let weight = ''weight: '' @ Itoa (DNSWeight cfg);
          rtt = Duration_String (Round (RTT (DNSDetail res)) millisecond)
      in if DNSEnabled cfg then
           (if Slow (DNSDetail res) then ''SLOW: '' @ rtt @ '' ('' @ weight @ ''/2)''
            else if DNSAlive res then ''RTT: '' @ rtt @ '' ('' @ weight @ '')''
            else if DNSError (DNSDetail res) \<noteq> [] then DNSError (DNSDetail res)
            else weight)
         else ''disabled'')"

type_synonym row = "string \<times> string \<times> string"

definition check_rows :: "ProcessConfig \<Rightarrow> HealthResult \<Rightarrow> row list" where
  "check_rows cfg res =
     [(''Process ('' @ Join (ProcessNames cfg) '','' @ '')'', sym (ProcessAlive res), ''weight: '' @ Itoa (ProcessWeight cfg)),
      (''TCP :53'', sym (TCPAlive res), ''weight: '' @ Itoa (TCPWeight cfg)),
      (''UDP :53'', sym (UDPAlive res), ''weight: '' @ Itoa (UDPWeight cfg)),
      (''DNS Query ('' @ DNSRecordType cfg @ '')'', sym (DNSAlive res), dns_detail cfg res)]"

text \<open>The widest cell of a column, in bytes.\<close>

definition widest :: "string \<Rightarrow> string list \<Rightarrow> int" where
  "widest header cells = fold (\<lambda>c w. if int (length c) > w then int (length c) else w) cells (int (length header))"

record layout =
  col1 :: int
  col2 :: int
  col3 :: int
  innerWidth :: int

definition table_layout :: "row list \<Rightarrow> string \<Rightarrow> string \<Rightarrow> layout" where
  "table_layout rows summary header =
     (let c1 = widest ''Check'' (map fst rows);
          c2 = widest ''Status'' (map (fst \<circ> snd) rows);
          c3 = widest ''Detail / Weight'' (map (snd \<circ> snd) rows);
          iw = c1 + c2 + c3 + 10;
          iw = (if int (length summary) + 2 > iw then int (length summary) + 2 else iw);
          iw = (if int (length header) + 4 > iw then int (length header) + 4 else iw);
          c3 = iw - c1 - c2 - 10
      in if c3 < int (length ''Detail / Weight'')
         then \<lparr>col1 = c1, col2 = c2, col3 = int (length ''Detail / Weight''),
               innerWidth = c1 + c2 + int (length ''Detail / Weight'') + 10\<rparr>
         else \<lparr>col1 = c1, col2 = c2, col3 = c3, innerWidth = iw\<rparr>)"

definition check_summary :: "HealthResult \<Rightarrow> string" where
  "check_summary res =
     ''Score: '' @ pad_right 3 (Itoa (hScore res)) @ '' / 100  (Raw: '' @ Itoa (RawScore res) @ ''/'' @
     Itoa (MaxScore res) @ '')   State: '' @ State_String (StateFromScore (hScore res))"

definition check_header :: "duration \<Rightarrow> string" where
  "check_header elapsed = ''DNS Health Check Report ('' @ Duration_String (Round elapsed millisecond) @ '')''"

text \<open>The lines of the table, without their line breaks.\<close>

definition rule_line :: "layout \<Rightarrow> string \<Rightarrow> string" where
  "rule_line l crossing =
     corner 0x9C @ Repeat box_line (col1 l + 2) @ crossing @ Repeat box_line (col2 l + 2) @ crossing @
     Repeat box_line (col3 l + 2) @ corner 0xA4"

definition row_line :: "layout \<Rightarrow> row \<Rightarrow> string" where
  "row_line l r =
     bar @ '' '' @ star_pad (col1 l) (fst r) @ '' '' @ bar @ '' '' @ star_pad (col2 l) (fst (snd r)) @ '' '' @ bar @
     '' '' @ star_pad (col3 l) (snd (snd r)) @ '' '' @ bar"

definition frame_line :: "layout \<Rightarrow> nat \<Rightarrow> nat \<Rightarrow> string" where
  "frame_line l left right = corner left @ Repeat box_line (innerWidth l) @ corner right"

definition title_line :: "layout \<Rightarrow> string \<Rightarrow> string" where
  "title_line l header = bar @ ''  '' @ star_pad (innerWidth l - 4) header @ ''  '' @ bar"

definition summary_line :: "layout \<Rightarrow> string \<Rightarrow> string" where
  "summary_line l summary = bar @ '' '' @ star_pad (innerWidth l - 4) summary @ '' '' @ bar"

definition body_lines :: "layout \<Rightarrow> row list \<Rightarrow> string list" where
  "body_lines l rows =
     [rule_line l (corner 0xBC), row_line l (''Check'', ''Status'', ''Detail / Weight''), rule_line l (corner 0xBC)] @
     map (row_line l) rows @ [rule_line l (corner 0xB4)]"

definition check_table :: "row list \<Rightarrow> string \<Rightarrow> string \<Rightarrow> string" where
  "check_table rows summary header =
     (let l = table_layout rows summary header
      in nl @ frame_line l 0x8C 0x90 @ nl @ title_line l header @ nl @
         text_lines (body_lines l rows @ [summary_line l summary]) @ frame_line l 0x94 0x98 @ nl @ nl)"

definition runCheckCmd :: "'w site \<Rightarrow> string \<Rightarrow> ('w io, outcome) state" where
  "runCheckCmd x path = do {
     loaded \<leftarrow> Load (machine_of x) (yaml_of x) (environment x) path;
     case loaded of
       Inl err \<Rightarrow> printConfigError (machine_of x) path (Error err)
     | Inr cfg \<Rightarrow> do {
         start \<leftarrow> call (os_now (machine_of x));
         res \<leftarrow> RunChecks (machine_of x) (check_config cfg);
         now \<leftarrow> call (os_now (machine_of x));
         State_Monad.return
           \<lparr>cStdout = ''Running local DNS health checks...'' @ nl @
              check_table (check_rows (check_config cfg) res) (check_summary res) (check_header (time_Sub now start)),
            cStderr = [], cExit = 0\<rparr>
       }
   }"

section \<open>status\<close>

definition getHostname :: "'w os \<Rightarrow> ('w io, string) state" where
  "getHostname os = do {
     (h, err) \<leftarrow> call (os_hostname os);
     State_Monad.return (if err \<noteq> None then ''unknown'' else h)
   }"

definition peer_line :: "PeerHealth \<Rightarrow> string" where
  "peer_line ph =
     (let status = (if \<not> phOK ph then ''OFFLINE'' else ''ONLINE'')
      in ''  '' @ bullet @ '' '' @ pad_right 12 (phName ph) @ '' ('' @ pad_right 15 (phIP ph) @ '') => '' @ pad_right 7 status @
         (if phOK ph then
            '' [Score: '' @ pad_front 3 (Itoa (phScore ph)) @ ''/100, CARP: '' @ pad_right 6 (phCarp ph) @
            '', Skew: '' @ Itoa (phAdvskew ph) @ '', Demotion: '' @ Itoa (phDemotion ph) @ '']'' @ nl
          else
            '' ['' @ (if phDiagnosis ph = [] then phError ph else phDiagnosis ph) @ '']'' @ nl))"

definition runStatusCmd :: "'w site \<Rightarrow> string \<Rightarrow> ('w io, outcome) state" where
  "runStatusCmd x path = do {
     let os = machine_of x;
     loaded \<leftarrow> Load os (yaml_of x) (environment x) path;
     case loaded of
       Inl err \<Rightarrow> printConfigError os path (Error err)
     | Inr cfg \<Rightarrow> do {
         let a = cAgent cfg;
         (nodeIP, _) \<leftarrow> GetNodeIP os (Interface a);
         (vip, _) \<leftarrow> GetVIP os (VIPInterface a) (VHID a);
         cs \<leftarrow> ReadState os (VIPInterface a) (VHID a);
         let carpState = (case cs of Inl e \<Rightarrow> StateUnknown | Inr c \<Rightarrow> c);
         (advskew, _) \<leftarrow> GetAdvskew os (VIPInterface a) (VHID a);
         (demotion, _) \<leftarrow> GetDemotion os;
         (preempt, _) \<leftarrow> GetPreempt os;
         host \<leftarrow> getHostname os;
         let node = text_lines
           [rule2 @ '' Local Node '' @ Repeat box_line 44,
            ''  Hostname:        '' @ host,
            ''  Management IP:   '' @ nodeIP @ '' ('' @ Interface a @ '')'',
            ''  CARP Interface:  '' @ VIPInterface a @ '' (VHID: '' @ Itoa (VHID a) @ '')'',
            ''  CARP Role:       '' @ carp_String carpState @ '' (Advskew: '' @ Itoa advskew @ '', Demotion: '' @
              Itoa demotion @ '', Preempt: '' @ Itoa preempt @ '')'',
            ''  Virtual IP:      '' @ vip,
            ''  Policy Mode:     '' @ cPolicyMode cfg];
         peerText \<leftarrow>
           (if pEnabled (cPeer cfg) \<and> length (Peers (cPeer cfg)) > 0 then do {
              results \<leftarrow> CheckAllPeers os (json_error x) (peer_entries cfg) (check_options cfg);
              State_Monad.return (nl @ rule2 @ '' Peers '' @ Repeat box_line 49 @ nl @ concat (map peer_line results))
            }
            else State_Monad.return []);
         State_Monad.return
           \<lparr>cStdout = ''Collecting local node & peer status...'' @ nl @ nl @ node @ peerText @ nl,
            cStderr = [], cExit = 0\<rparr>
       }
   }"

section \<open>Arguments\<close>

text \<open>
  The package \<open>flag\<close> for a set with \<open>-config\<close> and, when \<open>with_t\<close>, \<open>-t\<close>: one or two dashes, a value
  behind \<open>=\<close> or (not for a bool) in the next argument; the first other argument ends the flags.
\<close>

record flags =
  fConfig :: string
  fTest :: bool

datatype flag_result = Flags flags | FlagHelp | FlagError

definition ParseBool :: "string \<Rightarrow> bool option" where
  "ParseBool s =
     (if s \<in> {''1'', ''t'', ''T'', ''true'', ''TRUE'', ''True''} then Some True
      else if s \<in> {''0'', ''f'', ''F'', ''false'', ''FALSE'', ''False''} then Some False
      else None)"

definition flag_value :: "string \<Rightarrow> string \<times> string option" where
  "flag_value s =
     (case dropWhile (\<lambda>c. c \<noteq> CHR ''='') s of
        [] \<Rightarrow> (s, None)
      | _ # v \<Rightarrow> (takeWhile (\<lambda>c. c \<noteq> CHR ''='') s, Some v))"

fun parse_flags :: "bool \<Rightarrow> string list \<Rightarrow> flags \<Rightarrow> flag_result" where
  "parse_flags with_t [] f = Flags f"
| "parse_flags with_t (s # args) f =
     (if length s < 2 \<or> hd s \<noteq> CHR ''-'' \<or> s = ''--'' then Flags f
      else
        (let dashed = (if s ! 1 = CHR ''-'' then drop 2 s else drop 1 s);
             (name, v) = flag_value dashed
         in if dashed = [] \<or> hd dashed = CHR ''-'' \<or> hd dashed = CHR ''='' then FlagError
            else if name = ''config'' then
              (case v of
                 Some path \<Rightarrow> parse_flags with_t args (f\<lparr>fConfig := path\<rparr>)
               | None \<Rightarrow>
                   (case args of [] \<Rightarrow> FlagError | path # rest \<Rightarrow> parse_flags with_t rest (f\<lparr>fConfig := path\<rparr>)))
            else if with_t \<and> name = ''t'' then
              (case v of
                 None \<Rightarrow> parse_flags with_t args (f\<lparr>fTest := True\<rparr>)
               | Some b \<Rightarrow>
                   (case ParseBool b of
                      Some b' \<Rightarrow> parse_flags with_t args (f\<lparr>fTest := b'\<rparr>)
                    | None \<Rightarrow> FlagError))
            else if name = ''help'' \<or> name = ''h'' then FlagHelp
            else FlagError))"

definition default_flags :: flags where
  "default_flags = \<lparr>fConfig = ''/usr/local/etc/dns-ha-agent.yaml'', fTest = False\<rparr>"

datatype command =
    CmdVersion
  | CmdHelp
  | CmdCheck "string list"
  | CmdStatus "string list"
  | CmdUnknown string
  | CmdRun "string list"

text \<open>The arguments behind the program's name.\<close>

definition select_command :: "string list \<Rightarrow> command" where
  "select_command args =
     (case args of
        [] \<Rightarrow> CmdRun []
      | a # rest \<Rightarrow>
          if a \<in> {''version'', ''-v'', ''--version''} then CmdVersion
          else if a \<in> {''help'', ''-h'', ''--help''} then CmdHelp
          else if a = ''check'' then CmdCheck rest
          else if a = ''status'' then CmdStatus rest
          else if \<not> HasPrefix a ''-'' then CmdUnknown a
          else CmdRun args)"

definition version :: string where "version = ''1.0.0''"

definition printHelp :: string where
  "printHelp = text_lines
     [''DNS HA Agent v'' @ version @ '' (FreeBSD CARP DNS Failover)'', [],
      ''Usage:'',
      ''  dns-ha-agent [flags]             Run as background daemon'',
      ''  dns-ha-agent check [flags]       Run single health check cycle & print report'',
      ''  dns-ha-agent status [flags]      Show local CARP status & probe peers'',
      ''  dns-ha-agent version             Show version and runtime info'', [],
      ''Flags:'',
      ''  -config <path>   Path to config file (default: /usr/local/etc/dns-ha-agent.yaml)'',
      ''  -t               Test configuration syntax and exit'',
      ''  -h, --help       Show this help message'']"

text \<open>What the program prints of its build, and what \<open>flag\<close> prints about arguments it does not accept.\<close>

record console =
  platform :: string
  flag_usage :: "string list \<Rightarrow> string"

datatype main_result = Finished outcome | Started agent

definition with_flags :: "console \<Rightarrow> bool \<Rightarrow> string list \<Rightarrow> (flags \<Rightarrow> ('w io, main_result) state) \<Rightarrow>
    ('w io, main_result) state" where
  "with_flags con with_t args k =
     (case parse_flags with_t args default_flags of
        Flags f \<Rightarrow> k f
      | FlagHelp \<Rightarrow> State_Monad.return (Finished \<lparr>cStdout = [], cStderr = flag_usage con args, cExit = 0\<rparr>)
      | FlagError \<Rightarrow> State_Monad.return (Finished \<lparr>cStdout = [], cStderr = flag_usage con args, cExit = 2\<rparr>))"

definition finish_with :: "('w io, outcome) state \<Rightarrow> ('w io, main_result) state" where
  "finish_with m = do { r \<leftarrow> m; State_Monad.return (Finished r) }"

definition start_agent :: "'w site \<Rightarrow> string \<Rightarrow> ('w io, main_result) state" where
  "start_agent x path = do {
     loaded \<leftarrow> Load (machine_of x) (yaml_of x) (environment x) path;
     case loaded of
       Inl err \<Rightarrow> finish_with (printConfigError (machine_of x) path (Error err))
     | Inr cfg \<Rightarrow> do {
         r \<leftarrow> NewRunner (machine_of x) cfg;
         State_Monad.return (Started (new_agent cfg r))
       }
   }"

definition main_program :: "console \<Rightarrow> 'w site \<Rightarrow> string list \<Rightarrow> ('w io, main_result) state" where
  "main_program con x args =
     (case select_command args of
        CmdVersion \<Rightarrow> State_Monad.return (Finished
          \<lparr>cStdout = ''dns-ha-agent v'' @ version @ '' ('' @ platform con @ '')'' @ nl, cStderr = [], cExit = 0\<rparr>)
      | CmdHelp \<Rightarrow> State_Monad.return (Finished \<lparr>cStdout = printHelp, cStderr = [], cExit = 0\<rparr>)
      | CmdCheck rest \<Rightarrow> with_flags con False rest (\<lambda>f. finish_with (runCheckCmd x (fConfig f)))
      | CmdStatus rest \<Rightarrow> with_flags con False rest (\<lambda>f. finish_with (runStatusCmd x (fConfig f)))
      | CmdUnknown a \<Rightarrow> State_Monad.return (Finished
          \<lparr>cStdout = printHelp, cStderr = ''Error: unknown command '' @ Quote a @ nl @ nl, cExit = 1\<rparr>)
      | CmdRun rest \<Rightarrow> with_flags con True rest
          (\<lambda>f. if fTest f then finish_with (testConfig x (fConfig f)) else start_agent x (fConfig f)))"

end
