(* ===== verification/Report.thy ===== *)
theory Report
  imports Console
begin

text \<open>
  Properties of the commands of \<open>main.go\<close>: \<open>-t\<close> predicts whether the agent starts, \<open>check\<close> scores what
  the agent scores, and the shape of the table it prints.
\<close>

section \<open>The same checks\<close>

lemma check_config_eq: "check_config cfg = health_config cfg"
  by (simp add: check_config_def health_config_def check_weight_def weightOrDefault_def Let_def)

text \<open>C31. The command \<open>check\<close> and the agent score alike: at the same moment on the same machine, the result
  the command tabulates is the health the agent's next cycle observes.\<close>

theorem check_scores_as_agent:
  "fst (run_state (RunChecks os (check_config cfg)) s) = obsHealth (fst (run_state (observe os json_err cfg) s))"
  by (simp add: check_config_eq observe_def case_prod_beta)

section \<open>The test of a configuration\<close>

lemma run_logToSyslog: "fst (run_state (foldM (\<lambda>e _. logToSyslog os tag (f e)) es u) s) = u"
  by (induction es arbitrary: s) (simp_all add: case_prod_beta)

lemma testConfig_exit:
  "cExit (fst (run_state (testConfig x path) s)) =
     (if fst (run_state (CheckConfig (machine_of x) (yaml_of x) (environment x) path) s) = [] then 0 else 1)"
  by (simp add: testConfig_def case_prod_beta)

lemma start_agent_started:
  "(\<exists>a. fst (run_state (start_agent x path) s) = Started a) \<longleftrightarrow>
     (\<exists>cfg. fst (run_state (Load (machine_of x) (yaml_of x) (environment x) path) s) = Inr cfg)"
  by (simp add: start_agent_def finish_with_def case_prod_beta split: sum.split)

text \<open>C32. What \<open>-t\<close> says is what happens: \<open>dns-ha-agent -t -config p\<close> exits with 0 exactly when
  \<open>dns-ha-agent -config p\<close>, run instead, would start the agent.\<close>

theorem test_flag_predicts_start:
  "(\<exists>r. fst (run_state (main_program con x [''-t'', ''-config'', p]) s) = Finished r \<and> cExit r = 0) \<longleftrightarrow>
     (\<exists>a. fst (run_state (main_program con x [''-config'', p]) s) = Started a)"
proof -
  have t: "main_program con x [''-t'', ''-config'', p] = finish_with (testConfig x p)"
    and r: "main_program con x [''-config'', p] = start_agent x p"
    by (simp_all add: main_program_def select_command_def with_flags_def flag_value_def HasPrefix_def
        default_flags_def Let_def)
  have "fst (run_state (CheckConfig (machine_of x) (yaml_of x) (environment x) p) s) = [] \<longleftrightarrow>
      (\<exists>cfg. fst (run_state (Load (machine_of x) (yaml_of x) (environment x) p) s) = Inr cfg)"
    using config_errors_iff by (auto simp: CheckConfig_def Load_def split: sum.split)
  then show ?thesis
    unfolding t r start_agent_started by (simp add: finish_with_def testConfig_exit case_prod_beta)
qed

section \<open>The table\<close>

text \<open>Widths in characters, from left to right.\<close>

lemma rune_count_ascii: "ascii t \<Longrightarrow> rune_count (t @ s) = length t + rune_count s"
  by (induction t) (simp_all add: ascii_def rune_count.simps utf8_len_def)

lemma rune_count_spaces: "rune_count (replicate n (CHR '' '') @ s) = n + rune_count s"
  using rune_count_ascii [of "replicate n (CHR '' '')" s] by (simp add: ascii_def list_all_iff byte_def)

lemma rune_count_three:
  "byte a = 0xE2 \<Longrightarrow> cont b \<Longrightarrow> cont c \<Longrightarrow> rune_count (a # b # c # s) = Suc (rune_count s)"
  by (simp add: rune_count.simps utf8_len_def)

lemma rune_count_corner: "b \<in> {0x80..0xBF} \<Longrightarrow> rune_count (corner b @ s) = Suc (rune_count s)"
  unfolding corner_def by (simp add: rune_count_three cont_def byte_def of_char_int_nat)

lemma rune_count_bar: "rune_count (bar @ s) = Suc (rune_count s)"
  by (simp add: bar_def rune_count_three byte_def cont_def)

lemma rune_count_rule: "rune_count (Repeat box_line n @ s) = nat n + rune_count s"
proof -
  have "rune_count (concat (replicate m box_line) @ s) = m + rune_count s" for m
    by (induction m) (simp_all add: box_line_def rune_count_three byte_def cont_def)
  then show ?thesis by (simp add: Repeat_def)
qed

lemma rune_count_star:
  assumes "ascii t" and "0 \<le> w" and "w \<le> 1000000"
  shows "rune_count (star_pad w t @ s) = max (nat w) (length t) + rune_count s"
proof -
  have "rune_count t = length t" using rune_count_ascii [OF assms(1), of "[]"] by (simp add: rune_count.simps)
  with assms show ?thesis
    by (simp add: star_pad_def pad_right_def rune_count_ascii rune_count_spaces)
qed

lemma rune_count_cell:
  "ascii t \<Longrightarrow> int (length t) \<le> w \<Longrightarrow> w \<le> 1000000 \<Longrightarrow> rune_count (star_pad w t @ s) = nat w + rune_count s"
  by (simp add: rune_count_star)

lemma rune_count_space: "rune_count (CHR '' '' # s) = Suc (rune_count s)"
  using rune_count_spaces [of 1 s] by simp

lemma rune_count_last: "b \<in> {0x80..0xBF} \<Longrightarrow> rune_count (corner b) = 1" "rune_count bar = 1"
  using rune_count_corner [of b "[]"] rune_count_bar [of "[]"] by (simp_all add: rune_count.simps)

lemmas rune_counts = rune_count_corner rune_count_bar rune_count_rule rune_count_cell rune_count_space rune_count_last

text \<open>A column is at least as wide as its header and its cells.\<close>

lemma fold_widest:
  "w \<le> fold (\<lambda>c w. if int (length c) > w then int (length c) else w) cells w \<and>
     (\<forall>c \<in> set cells. int (length c) \<le> fold (\<lambda>c w. if int (length c) > w then int (length c) else w) cells w)"
proof (induction cells arbitrary: w)
  case (Cons d ds)
  let ?v = "if int (length d) > w then int (length d) else w"
  have "w \<le> ?v" "int (length d) \<le> ?v" by auto
  with Cons.IH [of ?v] show ?case by (auto intro: order_trans)
qed simp

lemma widest_cells: "c \<in> set (header # cells) \<Longrightarrow> int (length c) \<le> widest header cells"
  using fold_widest [of "int (length header)" cells] by (auto simp: widest_def)

definition fits :: "layout \<Rightarrow> row \<Rightarrow> bool" where
  "fits l r \<longleftrightarrow> int (length (fst r)) \<le> col1 l \<and> int (length (fst (snd r))) \<le> col2 l \<and> int (length (snd (snd r))) \<le> col3 l"

definition ascii_row :: "row \<Rightarrow> bool" where
  "ascii_row r \<longleftrightarrow> ascii (fst r) \<and> ascii (fst (snd r)) \<and> ascii (snd (snd r))"

lemma layout_wide:
  assumes "l = table_layout rows summary header"
  shows "innerWidth l = col1 l + col2 l + col3 l + 10" "0 \<le> col1 l" "0 \<le> col2 l" "0 \<le> col3 l"
    "int (length summary) + 2 \<le> innerWidth l" "int (length header) + 4 \<le> innerWidth l"
    "\<forall>r \<in> set ((''Check'', ''Status'', ''Detail / Weight'') # rows). fits l r"
proof -
  let ?c1 = "widest ''Check'' (map fst rows)" and ?c2 = "widest ''Status'' (map (fst \<circ> snd) rows)"
    and ?c3 = "widest ''Detail / Weight'' (map (snd \<circ> snd) rows)"
  have w: "int (length ''Check'') \<le> ?c1" "int (length ''Status'') \<le> ?c2" "int (length ''Detail / Weight'') \<le> ?c3"
    by (rule widest_cells; simp)+
  have c: "col1 l = ?c1" "col2 l = ?c2" "?c3 \<le> col3 l" "innerWidth l = col1 l + col2 l + col3 l + 10"
    "int (length summary) + 2 \<le> innerWidth l" "int (length header) + 4 \<le> innerWidth l"
    using w unfolding assms table_layout_def Let_def by auto
  then show "innerWidth l = col1 l + col2 l + col3 l + 10" "int (length summary) + 2 \<le> innerWidth l"
    "int (length header) + 4 \<le> innerWidth l" by auto
  show "0 \<le> col1 l" "0 \<le> col2 l" "0 \<le> col3 l" using w c by auto
  show "\<forall>r \<in> set ((''Check'', ''Status'', ''Detail / Weight'') # rows). fits l r"
  proof
    fix r assume "r \<in> set ((''Check'', ''Status'', ''Detail / Weight'') # rows)"
    then have "fst r \<in> set (''Check'' # map fst rows)" "fst (snd r) \<in> set (''Status'' # map (fst \<circ> snd) rows)"
      "snd (snd r) \<in> set (''Detail / Weight'' # map (snd \<circ> snd) rows)" by force+
    from this [THEN widest_cells] c show "fits l r" unfolding fits_def by linarith
  qed
qed

text \<open>C33. The rows of the table line up: for texts of ASCII characters every row and rule is as wide as the
  layout says. The frame and the title are two characters wider, and the summary sticks out as soon as it
  is longer than the layout less four, which the layout allows: the box that \<open>check\<close> draws does not close.\<close>

theorem table_lines_up:
  assumes "l = table_layout rows summary header" and "innerWidth l \<le> 1000000"
    and "\<forall>r \<in> set rows. ascii_row r" and "ascii summary" and "ascii header"
  shows "(\<forall>line \<in> set (body_lines l rows). int (rune_count line) = innerWidth l) \<and>
    (\<forall>line \<in> {frame_line l 0x8C 0x90, title_line l header, frame_line l 0x94 0x98}.
       int (rune_count line) = innerWidth l + 2) \<and>
    int (rune_count (summary_line l summary)) = max (innerWidth l) (int (length summary) + 4)"
proof -
  note w = layout_wide [OF assms(1)]
  have row: "int (rune_count (row_line l r)) = innerWidth l" if "fits l r" "ascii_row r" for r
    using that w(1-4) assms(2)
    by (simp add: row_line_def rune_counts fits_def ascii_row_def)
  have rule: "int (rune_count (rule_line l (corner b))) = innerWidth l" if "b \<in> {0x80..0xBF}" for b
    using that w(1-4) by (simp add: rule_line_def rune_counts)
  have summary: "int (rune_count (summary_line l summary)) = max (innerWidth l) (int (length summary) + 4)"
    using w(1-5) assms(2,4) by (simp add: summary_line_def rune_counts rune_count_star)
  have frame: "int (rune_count (frame_line l b c)) = innerWidth l + 2" if "b \<in> {0x80..0xBF}" "c \<in> {0x80..0xBF}" for b c
    using that w(1-4) by (simp add: frame_line_def rune_counts)
  have title: "int (rune_count (title_line l header)) = innerWidth l + 2"
    using w(1-4,6) assms(2,5) by (simp add: title_line_def rune_counts)
  have "ascii_row (''Check'', ''Status'', ''Detail / Weight'')"
    by (simp add: ascii_row_def ascii_def byte_def)
  with assms(3) w(7) row rule summary frame title show ?thesis
    by (auto simp: body_lines_def)
qed

end
