(* ===== verification/Logger.thy ===== *)
theory Logger
  imports OS
begin

text \<open>
  \<open>internal/logger/logger.go\<close>: the handler that turns a record of \<open>log/slog\<close> into one line of text,
  and the choice of level and output. Writing to a stream and opening the log file are the parameter
  \<open>streams\<close>; \<open>slog.NewTextHandler\<close>, used once for the message about a file that cannot be opened, is
  a field of it too.
\<close>

section \<open>Levels and records of log/slog\<close>

definition LevelDebug :: int where "LevelDebug = - 4"
definition LevelInfo :: int where "LevelInfo = 0"
definition LevelWarn :: int where "LevelWarn = 4"
definition LevelError :: int where "LevelError = 8"

definition level_text :: "string \<Rightarrow> int \<Rightarrow> string" where
  "level_text base v =
     (if v = 0 then base else if v < 0 then base @ Itoa v else base @ ''+'' @ Itoa v)"

definition Level_String :: "int \<Rightarrow> string" where
  "Level_String l =
     (if l < LevelInfo then level_text ''DEBUG'' (l - LevelDebug)
      else if l < LevelWarn then level_text ''INFO'' (l - LevelInfo)
      else if l < LevelError then level_text ''WARN'' (l - LevelWarn)
      else level_text ''ERROR'' (l - LevelError))"

text \<open>
  An attribute's value as \<open>Value.Any\<close> hands it back: \<open>slog\<close> keeps an \<open>int\<close> as an \<open>int64\<close>. The last
  two carry the text of \<open>String()\<close> and of \<open>%v\<close>.
\<close>

datatype log_value =
    StringValue string
  | Int64Value int
  | BoolValue bool
  | DurationValue duration
  | ErrorValue goerr
  | StringerValue string
  | OtherValue string

type_synonym log_attr = "string \<times> log_value"

record log_record =
  rTime :: instant
  rLevel :: int
  rMessage :: string
  rAttrs :: "log_attr list"

section \<open>The handler\<close>

datatype writer = WStdout | WFile string

record customHandler =
  out :: writer
  hLevel :: int
  hAttrs :: "log_attr list"
  hGroups :: "string list"
  hPrefix :: string

record 'w streams =
  st_open_append :: "string \<Rightarrow> 'w \<Rightarrow> goerr option \<times> 'w"
  st_write :: "writer \<Rightarrow> string \<Rightarrow> 'w \<Rightarrow> goerr option \<times> 'w"
  st_text_handler :: "int \<Rightarrow> string \<Rightarrow> log_attr list \<Rightarrow> 'w \<Rightarrow> unit \<times> 'w"

definition parse_level :: "string \<Rightarrow> int" where
  "parse_level level =
     (if level = ''debug'' then LevelDebug
      else if level = ''info'' then LevelInfo
      else if level = ''warn'' then LevelWarn
      else if level = ''error'' then LevelError
      else LevelInfo)"

definition open_output :: "'w streams \<Rightarrow> string \<Rightarrow> ('w io, writer) state" where
  "open_output st logFile =
     (if logFile \<noteq> [] then do {
        err \<leftarrow> call (st_open_append st logFile);
        case err of
          Some e \<Rightarrow> do {
            _ \<leftarrow> call (st_text_handler st LevelError ''cannot open log file, falling back to stdout''
                 [(''file'', StringValue logFile), (''error'', ErrorValue e)]);
            State_Monad.return WStdout
          }
        | None \<Rightarrow> State_Monad.return (WFile logFile)
      }
      else State_Monad.return WStdout)"

definition New :: "'w streams \<Rightarrow> string \<Rightarrow> string \<Rightarrow> ('w io, customHandler) state" where
  "New st level logFile = do {
     w \<leftarrow> open_output st logFile;
     State_Monad.return \<lparr>out = w, hLevel = parse_level level, hAttrs = [], hGroups = [], hPrefix = []\<rparr>
   }"

definition Enabled :: "customHandler \<Rightarrow> int \<Rightarrow> bool" where
  "Enabled h level \<longleftrightarrow> level \<ge> hLevel h"

fun formatAttr :: "log_value \<Rightarrow> string" where
  "formatAttr (StringValue v) = v"
| "formatAttr (Int64Value v) = Itoa v"
| "formatAttr (BoolValue v) = (if v then ''true'' else ''false'')"
| "formatAttr (DurationValue v) = Duration_String v"
| "formatAttr (ErrorValue e) = Error e"
| "formatAttr (StringerValue v) = v"
| "formatAttr (OtherValue v) = v"

text \<open>\<open>strings.Index\<close>.\<close>

fun Index :: "string \<Rightarrow> string \<Rightarrow> nat option" where
  "Index [] p = (if p = [] then Some 0 else None)"
| "Index (x # xs) p = (if HasPrefix (x # xs) p then Some 0 else map_option Suc (Index xs p))"

text \<open>A leading \<open>[TAG]\<close> of a message, and the rest.\<close>

definition split_tag :: "string \<Rightarrow> string option \<times> string" where
  "split_tag msg =
     (if HasPrefix msg ''['' then
        (case Index msg ''] '' of
           Some idx \<Rightarrow> if idx > 0 then (Some (drop 1 (take idx msg)), TrimSpace (drop (idx + 1) msg)) else (None, msg)
         | None \<Rightarrow> (None, msg))
      else (None, msg))"

definition attr_text :: "log_attr \<Rightarrow> string" where
  "attr_text a =
     (let val = formatAttr (snd a) in if val \<noteq> [] then '' '' @ fst a @ ''='' @ val else [])"

definition log_line :: "string \<Rightarrow> customHandler \<Rightarrow> log_record \<Rightarrow> string" where
  "log_line ts h r =
     (let (tag, msg) = split_tag (rMessage r)
      in ts @ '' ['' @ Level_String (rLevel r) @ '']'' @
         (case tag of Some t \<Rightarrow> ''['' @ t @ '']'' | None \<Rightarrow> []) @
         (if msg \<noteq> [] then '' '' @ msg else []) @
         concat (map attr_text (rAttrs r)) @ concat (map attr_text (hAttrs h)) @ ''\<newline>'')"

definition Handle :: "'w os \<Rightarrow> 'w streams \<Rightarrow> customHandler \<Rightarrow> log_record \<Rightarrow> ('w io, goerr option) state" where
  "Handle os st h r =
     call (st_write st (out h) (log_line (os_format_time os ''2006-01-02T15:04:05Z07:00'' (rTime r)) h r))"

definition WithAttrs :: "log_attr list \<Rightarrow> customHandler \<Rightarrow> customHandler" where
  "WithAttrs attrs h = h\<lparr>hAttrs := hAttrs h @ attrs\<rparr>"

definition WithGroup :: "string \<Rightarrow> customHandler \<Rightarrow> customHandler" where
  "WithGroup name h = h\<lparr>hGroups := hGroups h @ [name]\<rparr>"

text \<open>A call of \<open>Info\<close>, \<open>Warn\<close> or \<open>Error\<close>: \<open>slog\<close> asks \<open>Enabled\<close>, stamps the record and hands it on.\<close>

definition log_at :: "'w os \<Rightarrow> 'w streams \<Rightarrow> customHandler \<Rightarrow> int \<Rightarrow> string \<Rightarrow> log_attr list \<Rightarrow> ('w io, unit) state" where
  "log_at os st h level msg attrs =
     (if Enabled h level then do {
        now \<leftarrow> call (os_now os);
        _ \<leftarrow> Handle os st h \<lparr>rTime = now, rLevel = level, rMessage = msg, rAttrs = attrs\<rparr>;
        State_Monad.return ()
      }
      else State_Monad.return ())"

text \<open>\<open>Fatal\<close>: the exit code.\<close>

definition Fatal :: "'w os \<Rightarrow> 'w streams \<Rightarrow> customHandler \<Rightarrow> string \<Rightarrow> log_attr list \<Rightarrow> ('w io, int) state" where
  "Fatal os st h msg attrs = do {
     log_at os st h LevelError msg attrs;
     State_Monad.return 1
   }"

section \<open>The lines that are written\<close>

lemma Index_tag: "CHR '']'' \<notin> set tag \<Longrightarrow> Index (tag @ '']'' @ CHR '' '' # rest) ''] '' = Some (length tag)"
  by (induction tag) (auto simp: HasPrefix_def)

lemma split_tag_tagged:
  assumes "CHR '']'' \<notin> set tag"
  shows "split_tag (''['' @ tag @ ''] '' @ rest) = (Some tag, TrimSpace (CHR '' '' # rest))"
proof -
  have "CHR '']'' \<notin> set (CHR ''['' # tag)" using assms by simp
  from Index_tag [OF this, of rest] show ?thesis
    by (simp add: split_tag_def HasPrefix_def)
qed

lemma TrimSpace_blank:
  assumes "plain (hd s)" and "plain (last s)" and "s \<noteq> []"
  shows "TrimSpace (CHR '' '' # s) = s"
proof -
  have head: "space_len s = 0"
    using assms by (cases s) (auto simp: plain_space_len simp del: space_len.simps)
  have "space_len_rev (rev s) = 0"
    using assms by (cases s rule: rev_cases) (auto simp: plain_space_len_rev)
  then show ?thesis
    by (simp add: TrimSpace_def trim_by_stop [where f = space_len, OF head] trim_by_stop [where f = space_len_rev])
qed

text \<open>C34. A message below the level of the handler is dropped without touching anything. Any other one writes one
  line: the time, the level and the tag in brackets, the text, and each attribute that is not empty.\<close>

theorem tagged_line:
  assumes "CHR '']'' \<notin> set tag" and "body \<noteq> []" and "plain (hd body)" and "plain (last body)"
  shows "run_state (log_at os st h level (''['' @ tag @ ''] '' @ body) attrs) s =
    (if level < hLevel h then ((), s)
     else (let (now, w) = os_now os (io_world s);
               line = os_format_time os ''2006-01-02T15:04:05Z07:00'' now @ '' ['' @ Level_String level @ ''][''
                 @ tag @ ''] '' @ body @ concat (map attr_text (attrs @ hAttrs h)) @ ''\<newline>''
           in ((), s\<lparr>io_world := snd (st_write st (out h) line w)\<rparr>)))"
  using split_tag_tagged [OF assms(1), of body] TrimSpace_blank [OF assms(3,4,2)] assms(2)
  by (simp add: log_at_def Enabled_def Handle_def log_line_def Let_def case_prod_beta call_def)

end
