(* ===== verification/Alerts.thy ===== *)
theory Alerts
  imports Runner
begin

text \<open>
  What the polls of the peers report, and what makes the agent send a message about a peer or about the
  loss of the VIP; what a restarted agent remembers.
\<close>

section \<open>The results of the polls\<close>

definition poll_shape :: "PeerEntry \<Rightarrow> PeerHealth \<Rightarrow> bool" where
  "poll_shape p ph \<longleftrightarrow>
     phIP ph = eIP p \<and> phName ph = eName p \<and>
     (if phOK ph then
        phError ph = [] \<and> phState ph = peerStateFromScore (phScore ph) \<and> phSeverity ph = SeverityNone
      else
        phError ph \<noteq> [] \<and> phState ph = [] \<and> phScore ph = 0 \<and> phCarp ph = [] \<and>
        phSeverity ph \<in> {SeverityNone,
          if phUDP53OK ph then SeverityAgentOnly
          else if sign_of_life (phAgentProbe ph) (phTCP53 ph) (Some (phPingOK ph)) then SeverityCritical
          else SeverityHostDown})"

lemma poll_shape_heartbeat:
  "poll_shape p (read_heartbeat json_err resp (new_PeerHealth (eName p) (eIP p) now))"
  by (simp add: poll_shape_def read_heartbeat_def new_PeerHealth_def split: option.split)

lemma poll_shape_silent:
  "poll_shape p (fst (run_state (probe_silent_peer os (eIP p) opts err (new_PeerHealth (eName p) (eIP p) now)) s))"
  by (simp add: poll_shape_def probe_silent_peer_def new_PeerHealth_def case_prod_beta Let_def Diagnose_severity)

lemma poll_shape_refused:
  "e \<noteq> [] \<Longrightarrow> poll_shape p ((new_PeerHealth (eName p) (eIP p) now)\<lparr>phError := e\<rparr>)"
  by (simp add: poll_shape_def new_PeerHealth_def)

lemma poll_shape_CheckPeer:
  "poll_shape p (fst (run_state (CheckPeer os json_err (eIP p) (eName p) (eToken p) opts) s))"
  by (simp add: CheckPeer_def case_prod_beta Let_def poll_shape_heartbeat poll_shape_silent poll_shape_refused
      split: option.split sum.split)

text \<open>C35. One result per configured peer, in their order, under its own address and name. A peer that
  answered carries no error and the band of its score; one that did not carries an error, no score and no
  role, and its severity is either unset (it answered with garbage) or follows from the three probes.\<close>

theorem poll_results:
  "list_all2 poll_shape ps (fst (run_state (CheckAllPeers os json_err ps opts) s))"
proof (induction ps arbitrary: s)
  case (Cons p ps)
  then show ?case
    by (simp add: CheckAllPeers_def case_prod_beta poll_shape_CheckPeer)
qed (simp add: CheckAllPeers_def)

section \<open>Alerts about peers\<close>

definition unknown_peer :: "peerTracker \<Rightarrow> string \<Rightarrow> bool" where
  "unknown_peer t ip \<longleftrightarrow> lastOK t ip = None \<and> lastStatus t ip = None"

lemma alert_unknown_peer:
  assumes "unknown_peer t (phIP ph)" and "phOK ph \<or> phSeverity ph \<noteq> SeverityCritical"
  shows "run_state (alert_peer os rep ph (t, d)) s =
    ((snd (Update (phIP ph) (phOK ph) (rememberCarp (phIP ph) (phCarp ph) t)), d), s)"
  using assms
  by (auto simp: alert_peer_def Let_def Update_def unknown_peer_def rememberCarp_def Status_def map_get_def)

lemma unknown_peer_others:
  "ip \<noteq> phIP ph \<Longrightarrow> unknown_peer (snd (Update (phIP ph) ok (rememberCarp (phIP ph) c t))) ip = unknown_peer t ip"
  by (auto simp: Update_def unknown_peer_def rememberCarp_def Let_def)

lemma alerts_unknown_peers:
  assumes "distinct (map phIP phs)" and "\<forall>ph \<in> set phs. unknown_peer t (phIP ph)"
    and "\<forall>ph \<in> set phs. phOK ph \<or> phSeverity ph \<noteq> SeverityCritical"
  shows "snd (fst (run_state (foldM (alert_peer os rep) phs (t, d)) s)) = d \<and>
    snd (run_state (foldM (alert_peer os rep) phs (t, d)) s) = s"
  using assms
proof (induction phs arbitrary: t)
  case (Cons ph phs)
  let ?t = "snd (Update (phIP ph) (phOK ph) (rememberCarp (phIP ph) (phCarp ph) t))"
  have "unknown_peer ?t (phIP qh)" if "qh \<in> set phs" for qh
  proof -
    have "phIP qh \<noteq> phIP ph" using Cons.prems(1) imageI [OF that, of phIP] by auto
    from unknown_peer_others [OF this] show ?thesis using Cons.prems(2) that by simp
  qed
  then show ?case
    using Cons.IH [of ?t] Cons.prems by (simp add: case_prod_beta alert_unknown_peer)
qed simp

text \<open>C36. A restart is quiet: in the first cycle of an agent no message about a peer is sent, whether the
  peers answer or not, unless a peer's host is up and its DNS is not.\<close>

theorem first_cycle_is_quiet:
  assumes "peers r = None" and "distinct (map phIP (obsPeers obs))"
    and "\<forall>ph \<in> set (obsPeers obs). phOK ph \<or> phSeverity ph \<noteq> SeverityCritical"
    and "run_state (peer_alerts os obs v c r) s = (r', s')"
  shows "sends s' = sends s \<and> notifier r' = notifier r"
proof -
  have g: "sends (snd (run_state (GetNodeIP os i) s)) = sends s" for i
    by (rule silentD) (rule reading.keeps_carp_readers [OF silent.reading_axioms])
  have "\<forall>ph \<in> set (obsPeers obs). unknown_peer (newPeerTracker peerDownThreshold) (phIP ph)"
    by (simp add: unknown_peer_def newPeerTracker_def)
  note quiet = alerts_unknown_peers [OF assms(2) this assms(3)]
  from assms(1,4) g show ?thesis
    by (cases "pEnabled (cPeer (rCfg r))") (auto simp: peer_alerts_def case_prod_beta Let_def quiet)
qed

section \<open>The alert about the VIP\<close>

text \<open>C37. The split-brain alert is sent only by a node that was the MASTER, is healthy, in preempt mode, and
  is about to be reported as BACKUP, and only when no reachable peer that scores 80 or more has an effective
  advskew below its own; and it says nothing else.\<close>

theorem vip_loss_is_unexplained:
  assumes "run_state (vip_loss_alert os obs v n c r) s = (r', s')" and "sends s' \<noteq> sends s"
  shows "VIPLossAlert (cNotify (rCfg r)) \<and> ParsePolicyMode (cPolicyMode (rCfg r)) = PolicyPreempt \<and>
    wasMaster r \<and> c = StateBackup \<and> vState v = StateHealthy \<and>
    (\<forall>ph \<in> set (obsPeers obs). \<not> (phOK ph \<and> 80 \<le> phScore ph \<and>
       effective ph < i64 (fst (fst (run_state (GetAdvskew os (vip_iface r) (VHID (cAgent (rCfg r)))) s)) + n)))"
proof -
  have "sends (snd (run_state (GetAdvskew os i k) s)) = sends s" for i k
    by (rule silentD) (rule reading.keeps_carp_readers [OF silent.reading_axioms])
  note reads = this
  let ?alert = "VIPLossAlert (cNotify (rCfg r)) \<and> ParsePolicyMode (cPolicyMode (rCfg r)) = PolicyPreempt \<and>
    wasMaster r \<and> c = StateBackup \<and> vState v = StateHealthy"
  show ?thesis
  proof (cases ?alert)
    case True
    then have "snd (run_state (vip_loss_alert os obs v n c r) s) = snd (run_state
        (GetAdvskew os (vip_iface r) (VHID (cAgent (rCfg r)))) s)"
      if "list_ex (\<lambda>ph. phOK ph \<and> 80 \<le> phScore ph \<and> effective ph < i64 (fst (fst (run_state
        (GetAdvskew os (vip_iface r) (VHID (cAgent (rCfg r)))) s)) + n)) (obsPeers obs)"
      using that by (simp add: vip_loss_alert_def vip_iface_def case_prod_beta Let_def)
    with assms reads have "\<not> list_ex (\<lambda>ph. phOK ph \<and> 80 \<le> phScore ph \<and> effective ph < i64 (fst (fst (run_state
        (GetAdvskew os (vip_iface r) (VHID (cAgent (rCfg r)))) s)) + n)) (obsPeers obs)"
      by auto
    with True show ?thesis by (simp add: list_ex_iff)
  next
    case False
    with assms show ?thesis by (auto simp: vip_loss_alert_def Let_def)
  qed
qed

section \<open>Restarting\<close>

lemma Stop_saves:
  assumes "StateFile (cAgent (rCfg r)) \<noteq> []"
  obtains s1 where "snd (run_state (Stop os r) s) =
    snd (run_state (saveState os (StateFile (cAgent (rCfg r))) (lastState r)) s1)"
proof (cases "lastIfaceDown r")
  case True
  let ?s1 = "snd (run_state (SetDemotion os 0) (snd (run_state (InterfaceUp os (vip_iface r)) s)))"
  from True assms show ?thesis by (intro that [of ?s1]) (simp add: Stop_def case_prod_beta)
next
  case False
  with assms show ?thesis by (intro that [of s]) (simp add: Stop_def case_prod_beta)
qed

text \<open>C38. A restart resumes: on a disk that takes the file, an agent that is stopped and started again with the
  same state file takes up the state it announced last, so the restart by itself announces nothing.\<close>

theorem restart_resumes:
  assumes "filesystem os files"
    and "path \<noteq> []" and "StateFile (cAgent (rCfg r)) = path" and "StateFile (cAgent cfg) = path"
    and "\<forall>d w. fst (os_write_file os (path @ ''.tmp'') d w) = None"
    and "\<forall>w. files w (path @ ''.tmp'') \<noteq> None \<longrightarrow> fst (os_rename os (path @ ''.tmp'') path w) = None"
  shows "lastState (fst (run_state (NewRunner os cfg) (snd (run_state (Stop os r) s)))) = lastState r"
proof -
  obtain s1 where s1: "snd (run_state (Stop os r) s) = snd (run_state (saveState os path (lastState r)) s1)"
    using Stop_saves [of r] assms(2,3) by metis
  have "files (snd (os_write_file os (path @ ''.tmp'') d w)) (path @ ''.tmp'') \<noteq> None" for d w
    using filesystemD(2) [OF assms(1)] assms(5) by simp
  then have "fst (run_state (saveState os path (lastState r)) s1) = None"
    using assms(5,6) by (simp add: saveState_def Let_def case_prod_beta)
  then have "run_state (saveState os path (lastState r)) s1 = (None, snd (run_state (Stop os r) s))"
    using s1 by (metis prod.collapse)
  from loadState_after_save [OF assms(1) this] assms(2,4) show ?thesis
    by (simp add: NewRunner_def restored_state_def case_prod_beta)
qed

end
