(* ===== verification/Shutdown.thy ===== *)
theory Shutdown
  imports Loop
begin

text \<open>
  The end of the process. \<open>Stop\<close> runs beside the loop of \<open>Run\<close>, which may already have a tick waiting when
  the channel \<open>done\<close> is closed: \<open>select\<close> takes either, so one more cycle may follow the stop.
\<close>

lemma ended_is_final: "aStage a = Ended \<Longrightarrow> aStopped a \<Longrightarrow> \<not> step x ok (a, s) z"
  by (auto elim!: step_cases)

lemma Stop_up: "\<not> lastIfaceDown (fst (run_state (Stop os r) s))"
  by (simp add: Stop_def case_prod_beta)

lemma runOnce_health:
  assumes "run_state (runOnce os json_err r) s = (r', s')"
  shows "lastHealth r' = obsHealth (fst (run_state (observe os json_err (rCfg r)) s))"
proof -
  let ?o = "run_state (observe os json_err (rCfg r)) s"
  from assms have "run_state (react os (fst ?o) r) (snd ?o) = (r', s')"
    by (simp add: runOnce_def case_prod_beta)
  then show ?thesis by (rule react_cases [where clk = "\<lambda>_. 0"]) (simp add: cycle_effect_def)
qed

lemma runOnce_takes_down:
  assumes "carp_kernel os (vip_iface r) view" and "run_state (runOnce os json_err r) s = (r', s')"
    and "hScore (lastHealth r') < 40" and "\<not> lastIfaceDown r"
  shows "\<not> snd (view (io_world s'))"
proof -
  let ?o = "run_state (observe os json_err (rCfg r)) s"
  from assms(2) have "run_state (react os (fst ?o) r) (snd ?o) = (r', s')"
    by (simp add: runOnce_def case_prod_beta)
  with assms(3) runOnce_health [OF assms(2)] show ?thesis
    by (intro react_takes_down [OF assms(1) _ _ assms(4)]) simp_all
qed

text \<open>C40. The stop does not have the last word: when a tick is taken after \<open>Stop\<close> and finds the service
  unhealthy, that cycle takes the interface down again, after the stop had restored it; then the loop may end,
  and nothing runs any more that would bring it up.\<close>

theorem stopped_node_can_stay_down:
  assumes "carp_kernel (machine_of x) (vip_iface (aRunner a)) view"
    and "aStage a = Looping" and "\<not> aStopped a" and "run_state (terminate x a) s = (b, s1)"
    and "run_state (do_cycle x b) s1 = (c, s2)" and "hScore (lastHealth (aRunner c)) < 40"
  shows "step x ok (a, s) (b, s1) \<and> step x ok (b, s1) (c, s2) \<and> step x ok (c, s2) (c\<lparr>aStage := Ended\<rparr>, s2) \<and>
    \<not> snd (view (io_world s2)) \<and> (\<forall>z. \<not> step x ok (c\<lparr>aStage := Ended\<rparr>, s2) z)"
proof -
  have b: "aStage b = Looping" "aStopped b" "aRunner b = fst (run_state (Stop (machine_of x) (aRunner a)) s)"
    using assms(2,4) by (auto simp: terminate_def case_prod_beta)
  have c: "aStage c = Looping" "aStopped c = aStopped b"
    "run_state (runOnce (machine_of x) (json_error x) (aRunner b)) s1 = (aRunner c, s2)"
    using assms(5) by (auto simp: do_cycle_def case_prod_beta)
  have "carp_kernel (machine_of x) (vip_iface (aRunner b)) view"
    using assms(1) b(3) Stop_frame(1) [of "machine_of x" "aRunner a" s] by (simp add: vip_iface_def)
  from runOnce_takes_down [OF this c(3) assms(6)] have "\<not> snd (view (io_world s2))"
    by (simp add: b(3) Stop_up)
  moreover have "step x ok (a, s) (b, s1)" using assms(3,4) by (rule step.stop)
  moreover have "step x ok (b, s1) (c, s2)" using b(1) assms(5) by (intro step.cycle) simp_all
  moreover have "step x ok (c, s2) (c\<lparr>aStage := Ended\<rparr>, s2)" using b(2) c(1,2) by (intro step.finish) simp_all
  ultimately show ?thesis using b(2) c(2) by (simp add: ended_is_final)
qed

end
