(* ===== verification/JsonFuel.thy ===== *)
theory JsonFuel
  imports Json
begin

text \<open>
  The reader of heartbeats ends: its fuel, one more than the length of the text, is enough. A value that
  some fuel reads consumes at least as many bytes as the fuel it needs, so any larger fuel reads the same.
\<close>

section \<open>Every part consumes\<close>

lemma skip_ws_le: "length (skip_ws s) \<le> length s"
  by (simp add: skip_ws_def length_dropWhile_le)

lemma skip_ws_ConsD: "skip_ws s = c # cs \<Longrightarrow> length cs < length s"
  using skip_ws_le [of s] by simp

text \<open>A character of a string is read, and the rest is read with less fuel from a shorter text.\<close>

lemma json_string_next:
  assumes "json_string (Suc n) (c # cs) = Some (t, r)"
  shows "r = cs \<or> (\<exists>x u. json_string n x = Some (u, r) \<and> length x \<le> length cs)"
proof (cases "c = CHR 0x5C")
  case True
  with assms obtain e es where cs: "cs = e # es" by (cases cs) (auto split: if_splits)
  show ?thesis
  proof (cases "e = CHR ''u''")
    case True
    with assms cs \<open>c = CHR 0x5C\<close> have "\<exists>k u. json_string n (drop k es) = Some (u, r)"
      by (auto simp: Let_def split: if_splits option.splits)
    then obtain k u where "json_string n (drop k es) = Some (u, r)" by blast
    moreover have "length (drop k es) \<le> length cs" using cs by simp
    ultimately show ?thesis by blast
  next
    case False
    with assms cs \<open>c = CHR 0x5C\<close> have "\<exists>u. json_string n es = Some (u, r)"
      by (auto split: option.splits if_splits)
    moreover have "length es \<le> length cs" using cs by simp
    ultimately show ?thesis by blast
  qed
next
  case False
  let ?k = "utf8_len (c # cs)"
  have "length (drop ?k (c # cs)) \<le> length cs" if "?k \<noteq> 0" using that by simp
  moreover from assms False have "r = cs \<or> (\<exists>u. json_string n cs = Some (u, r)) \<or>
      ?k \<noteq> 0 \<and> (\<exists>u. json_string n (drop ?k (c # cs)) = Some (u, r))"
    by (auto simp: Let_def split: if_splits)
  ultimately show ?thesis by blast
qed

lemma json_string_consumes: "json_string n s = Some (t, r) \<Longrightarrow> length r < length s"
proof (induction n arbitrary: s t r)
  case (Suc n)
  then obtain c cs where s: "s = c # cs" by (cases s) auto
  with Suc.prems json_string_next consider "r = cs"
    | x u where "json_string n x = Some (u, r)" "length x \<le> length cs" by blast
  then show ?case
  proof cases
    case 2
    with Suc.IH [OF 2(1)] s show ?thesis by simp
  qed (simp add: s)
qed simp

lemma some_unless: "(if c then None else Some x) = Some y \<longleftrightarrow> \<not> c \<and> x = y"
  by simp

lemma json_unsigned_consumes:
  assumes "json_unsigned s = Some (t, r)"
  shows "length r < length s"
proof -
  let ?ip = "if HasPrefix s ''0'' then ''0'' else takeWhile is_digit s"
  from assms have ip: "?ip \<noteq> []" and "\<exists>j k. r = drop j (drop k (drop (length ?ip) s))"
    unfolding json_unsigned_def Let_def some_unless prod.inject by blast+
  then obtain j k where "r = drop j (drop k (drop (length ?ip) s))" by blast
  then have "length r \<le> length s - length ?ip" by simp
  moreover have "s \<noteq> []" using ip by (cases s) (simp_all add: HasPrefix_def)
  ultimately show ?thesis using ip by (cases s; cases ?ip) auto
qed

lemma json_number_consumes: "json_number s = Some (t, r) \<Longrightarrow> length r < length s"
  by (auto simp: json_number_def HasPrefix_def split: if_splits dest!: json_unsigned_consumes)

section \<open>The fuel is enough\<close>

text \<open>\<open>p\<close> at fuel \<open>n\<close>: what it reads, every fuel of at least the bytes it consumes reads as well.\<close>

definition settled :: "(nat \<Rightarrow> string \<Rightarrow> ('a \<times> string) option) \<Rightarrow> nat \<Rightarrow> string \<Rightarrow> bool" where
  "settled p n s \<longleftrightarrow> (\<forall>v r. p n s = Some (v, r) \<longrightarrow>
     length r < length s \<and> (\<forall>m \<ge> length s - length r. p m s = Some (v, r)))"

lemma settledD:
  assumes "settled p n s" and "p n s = Some (v, r)"
  shows "length r < length s" and "length s - length r \<le> m \<Longrightarrow> p m s = Some (v, r)"
  using assms unfolding settled_def by blast+

lemma enough_fuel: "r < s \<Longrightarrow> s - r \<le> m \<Longrightarrow> \<exists>k. m = Suc k \<and> s - r - 1 \<le> k" for r s :: nat
  by (cases m) auto

lemmas valueD = settledD [where p = "\<lambda>n. json_value n d" for d]
lemmas membersD = settledD [where p = "\<lambda>n. json_members n d" for d]
lemmas elementsD = settledD [where p = "\<lambda>n. json_elements n d" for d]

text \<open>One level of each parser, given that the parsers below are settled.\<close>

lemma settled_elements:
  assumes v: "\<And>s. settled (\<lambda>n. json_value n d) n s" and e: "\<And>s. settled (\<lambda>n. json_elements n d) n s"
  shows "settled (\<lambda>n. json_elements n d) (Suc n) s"
  unfolding settled_def
proof (intro allI impI)
  fix vs r
  assume "json_elements (Suc n) d s = Some (vs, r)"
  then obtain x r1 c es where x: "json_value n d s = Some (x, r1)" and ws: "skip_ws r1 = c # es"
    and rest: "c = CHR '']'' \<and> vs = [x] \<and> r = es \<or>
      c \<noteq> CHR '']'' \<and> c = CHR '','' \<and> (\<exists>ys. json_elements n d es = Some (ys, r) \<and> vs = x # ys)"
    by (auto split: option.splits list.splits if_splits)
  note vx = valueD [OF v x]
  have es: "length es < length r1" using skip_ws_ConsD [OF ws] .
  have r: "length r \<le> length es" using rest elementsD(1) [OF e] by (auto dest: less_imp_le)
  show "length r < length s \<and> (\<forall>m \<ge> length s - length r. json_elements m d s = Some (vs, r))"
  proof (intro conjI allI impI)
    show "length r < length s" using vx(1) es r by linarith
    fix m assume "length s - length r \<le> m"
    then obtain k where k: "m = Suc k" "length s - length r \<le> Suc k"
      using enough_fuel [of "length r" "length s" m] vx(1) es r by auto
    have "json_value k d s = Some (x, r1)" using k(2) vx(1) es r by (intro vx(2)) linarith
    moreover have "json_elements k d es = Some (ys, r)" if "json_elements n d es = Some (ys, r)" for ys
      using elementsD(2) [OF e that] k(2) vx(1) es r by simp
    ultimately show "json_elements m d s = Some (vs, r)"
      using rest ws k(1) by auto
  qed
qed

lemma settled_members:
  assumes v: "\<And>s. settled (\<lambda>n. json_value n d) n s" and ms: "\<And>s. settled (\<lambda>n. json_members n d) n s"
  shows "settled (\<lambda>n. json_members n d) (Suc n) s"
  unfolding settled_def
proof (intro allI impI)
  fix kvs r
  assume "json_members (Suc n) d s = Some (kvs, r)"
  then obtain q cs key r0 k ks x r1 c es where s: "skip_ws s = q # cs" "q = CHR 0x22"
    and key: "json_string (Suc (length cs)) cs = Some (key, r0)" and colon: "skip_ws r0 = k # ks" "k = CHR '':''"
    and x: "json_value n d ks = Some (x, r1)" and ws: "skip_ws r1 = c # es"
    and rest: "c = CHR ''}'' \<and> kvs = [(key, x)] \<and> r = es \<or>
      c \<noteq> CHR ''}'' \<and> c = CHR '','' \<and> (\<exists>ys. json_members n d es = Some (ys, r) \<and> kvs = (key, x) # ys)"
    by (auto split: option.splits list.splits if_splits)
  note vx = valueD [OF v x]
  have lens: "length cs < length s" "length r0 < length cs" "length ks < length r0" "length es < length r1"
    using skip_ws_ConsD [OF s(1)] json_string_consumes [OF key] skip_ws_ConsD [OF colon(1)] skip_ws_ConsD [OF ws] by auto
  have r: "length r \<le> length es" using rest membersD(1) [OF ms] by (auto dest: less_imp_le)
  show "length r < length s \<and> (\<forall>m \<ge> length s - length r. json_members m d s = Some (kvs, r))"
  proof (intro conjI allI impI)
    show "length r < length s" using vx(1) lens r by linarith
    fix m assume "length s - length r \<le> m"
    then obtain k' where k': "m = Suc k'" "length s - length r \<le> Suc k'"
      using enough_fuel [of "length r" "length s" m] vx(1) lens r by auto
    have "json_value k' d ks = Some (x, r1)" using k'(2) vx(1) lens r by (intro vx(2)) linarith
    moreover have "json_members k' d es = Some (ys, r)" if "json_members n d es = Some (ys, r)" for ys
      using membersD(2) [OF ms that] k'(2) vx(1) lens r by simp
    ultimately show "json_members m d s = Some (kvs, r)"
      using rest s key colon ws k'(1) by auto
  qed
qed

text \<open>A value is an object, an array, or a text in which the fuel plays no part.\<close>

lemma json_value_flat:
  assumes "skip_ws s = c # cs" and "json_value (Suc n) d s = Some (v, r)"
    and "c = CHR ''{'' \<longrightarrow> HasPrefix (skip_ws cs) ''}''" and "c = CHR ''['' \<longrightarrow> HasPrefix (skip_ws cs) '']''"
  shows "json_value (Suc m) d s = Some (v, r) \<and> length r < length s"
proof -
  have cs: "length cs < length s" using skip_ws_ConsD [OF assms(1)] .
  have "json_value (Suc m) d s = json_value (Suc n) d s"
    using assms(1,3,4) by simp
  moreover have "length r \<le> length cs"
    using assms skip_ws_le [of cs]
    by (auto split: if_splits dest!: json_string_consumes json_number_consumes)
  ultimately show ?thesis using assms(2) cs by simp
qed

lemma settled_value:
  assumes ms: "\<And>s. settled (\<lambda>n. json_members n (Suc d)) n s" and es: "\<And>s. settled (\<lambda>n. json_elements n (Suc d)) n s"
  shows "settled (\<lambda>n. json_value n d) (Suc n) s"
  unfolding settled_def
proof (intro allI impI)
  fix v r
  assume v: "json_value (Suc n) d s = Some (v, r)"
  then obtain c cs where s: "skip_ws s = c # cs" by (auto split: list.splits)
  have cs: "length cs < length s" using skip_ws_ConsD [OF s] .
  consider (obj) "c = CHR ''{''" "\<not> HasPrefix (skip_ws cs) ''}''"
    | (arr) "c = CHR ''[''" "\<not> HasPrefix (skip_ws cs) '']''"
    | (flat) "c = CHR ''{'' \<longrightarrow> HasPrefix (skip_ws cs) ''}''" "c = CHR ''['' \<longrightarrow> HasPrefix (skip_ws cs) '']''"
    by blast
  then show "length r < length s \<and> (\<forall>m \<ge> length s - length r. json_value m d s = Some (v, r))"
  proof cases
    case flat
    have "json_value (Suc m) d s = Some (v, r) \<and> length r < length s" for m
      using json_value_flat [OF s v flat] .
    moreover have "\<exists>k. m = Suc k" if "length s - length r \<le> m" "length r < length s" for m
      using enough_fuel [OF that(2,1)] by blast
    ultimately show ?thesis by blast
  next
    case obj
    with v s obtain kvs where m: "json_members n (Suc d) cs = Some (kvs, r)" "v = JObj kvs" "\<not> d \<ge> max_depth"
      by (auto split: if_splits)
    note D = membersD [OF ms m(1)]
    have "json_value m' d s = Some (v, r)" if m': "length s - length r \<le> m'" for m'
    proof -
      obtain k where "m' = Suc k" "length s - length r \<le> Suc k"
        using enough_fuel [OF order.strict_trans [OF D(1) cs] m'] m' by auto
      moreover from this have "json_members k (Suc d) cs = Some (kvs, r)" using cs D(1) by (intro D(2)) linarith
      ultimately show ?thesis using s obj m(2,3) by simp
    qed
    then show ?thesis using cs D(1) by simp
  next
    case arr
    with v s obtain vs where m: "json_elements n (Suc d) cs = Some (vs, r)" "v = JArr vs" "\<not> d \<ge> max_depth"
      by (auto split: if_splits)
    note D = elementsD [OF es m(1)]
    have "json_value m' d s = Some (v, r)" if m': "length s - length r \<le> m'" for m'
    proof -
      obtain k where "m' = Suc k" "length s - length r \<le> Suc k"
        using enough_fuel [OF order.strict_trans [OF D(1) cs] m'] m' by auto
      moreover from this have "json_elements k (Suc d) cs = Some (vs, r)" using cs D(1) by (intro D(2)) linarith
      ultimately show ?thesis using s arr m(2,3) by simp
    qed
    then show ?thesis using cs D(1) by simp
  qed
qed

lemma json_settled:
  "settled (\<lambda>n. json_value n d) n s \<and> settled (\<lambda>n. json_members n d) n s \<and> settled (\<lambda>n. json_elements n d) n s"
proof (induction n arbitrary: d s)
  case 0
  show ?case by (simp add: settled_def)
next
  case (Suc n)
  then show ?case
    by (intro conjI settled_value settled_members settled_elements) blast+
qed

text \<open>The fuel of the reader is enough: a page is read with one unit of fuel more than it has bytes, and no
  larger fuel would read anything else, or read anything that this fuel does not.\<close>

lemma reading_ends:
  assumes "length body < fuel"
  shows "decode_with fuel body = decode_heartbeat body"
proof -
  have "json_value (Suc (length body)) 0 body = Some (v, r)" if "json_value fuel 0 body = Some (v, r)" for v r
    by (rule valueD(2) [OF json_settled [THEN conjunct1] that]) simp
  moreover have "json_value fuel 0 body = Some (v, r)" if "json_value (Suc (length body)) 0 body = Some (v, r)" for v r
    by (rule valueD(2) [OF json_settled [THEN conjunct1] that]) (use assms in linarith)
  ultimately have "json_value fuel 0 body = json_value (Suc (length body)) 0 body"
    by (metis not_None_eq surj_pair)
  then show ?thesis unfolding decode_heartbeat_def decode_with_def by (simp only:)
qed

end
