(* ===== verification/Switches.thy ===== *)
theory Switches
  imports Loop
begin

text \<open>
  What the whole process does to interfaces: its \<open>ifconfig\<close> commands, from the start through cycles,
  step-downs, reloads and the stop, form one alternating sequence.
\<close>

section \<open>Alternating commands\<close>

fun is_switch :: "event \<Rightarrow> bool" where
  "is_switch (EvExec name args) \<longleftrightarrow> name = ''ifconfig'' \<and> length args = 2"
| "is_switch (EvSend n s b) \<longleftrightarrow> False"
| "is_switch (EvWriteFile p d) \<longleftrightarrow> False"
| "is_switch (EvRename p q) \<longleftrightarrow> False"

text \<open>Down, up, down, up, each with the name of its interface.\<close>

fun alternate :: "string list \<Rightarrow> event list" where
  "alternate [] = []"
| "alternate [i] = [ev_down i]"
| "alternate (i # j # is) = ev_down i # ev_up j # alternate is"

lemma alternate_snoc:
  "alternate (is @ [i]) = alternate is @ [if even (length is) then ev_down i else ev_up i]"
  by (induction "is" rule: alternate.induct) auto

lemma is_switch_events [simp]: "is_switch (ev_down i)" "is_switch (ev_up i)" "\<not> is_switch (ev_demotion d)"
  by (simp_all add: ev_defs)

lemma filter_writes [simp]: "filter is_switch (map ev_demotion ds) = []"
  by (induction ds) simp_all

text \<open>
  From the agent's record and the machine \<open>(r, s)\<close> to \<open>(r', s')\<close> on the interface \<open>i\<close>: whatever sequence led to
  the first, one that goes on with \<open>i\<close> alone leads to the second.
\<close>

definition carries_on :: "string \<Rightarrow> Runner \<times> 'w io \<Rightarrow> Runner \<times> 'w io \<Rightarrow> bool" where
  "carries_on i x y \<longleftrightarrow>
     (\<exists>new js. commands (snd y) = commands (snd x) @ new \<and> set js \<subseteq> {i} \<and>
        (\<forall>is. odd (length is) = lastIfaceDown (fst x) \<longrightarrow>
           alternate is @ filter is_switch new = alternate (is @ js) \<and>
           odd (length (is @ js)) = lastIfaceDown (fst y)))"

lemma carries_on_same:
  "commands s' = commands s @ new \<Longrightarrow> filter is_switch new = [] \<Longrightarrow> lastIfaceDown r' = lastIfaceDown r \<Longrightarrow>
     carries_on i (r, s) (r', s')"
  unfolding carries_on_def by (intro exI [of _ new] exI [of _ "[]"]) simp

lemma carries_on_one:
  "commands s' = commands s @ new \<Longrightarrow>
     filter is_switch new = [if lastIfaceDown r then ev_up i else ev_down i] \<Longrightarrow>
     lastIfaceDown r' = (\<not> lastIfaceDown r) \<Longrightarrow> carries_on i (r, s) (r', s')"
  unfolding carries_on_def by (intro exI [of _ new] exI [of _ "[i]"]) (auto simp: alternate_snoc)

lemma carries_on_two:
  assumes "commands s' = commands s @ new" and "filter is_switch new = [ev_up i, ev_down i]"
    and "lastIfaceDown r" and "lastIfaceDown r'"
  shows "carries_on i (r, s) (r', s')"
proof -
  have "alternate is @ [ev_up i, ev_down i] = alternate (is @ [i, i])" if "odd (length is)" for "is"
    using that alternate_snoc [of "is @ [i]" i] by (simp add: alternate_snoc)
  with assms show ?thesis
    unfolding carries_on_def by (intro exI [of _ new] exI [of _ "[i, i]"]) auto
qed

section \<open>Every pass carries on\<close>

lemma runOnce_carries_on:
  assumes "run_state (runOnce os json_err r) s = (r', s')"
  shows "carries_on (vip_iface r) (r, s) (r', s')"
proof -
  obtain obs v r1 down t ds where c: "cycle_of os (\<lambda>_. 0) r s r' s' obs v r1 down t ds"
    using assms by (rule runOnce_cycle)
  define want where "want = DesiredIfaceDown (fst (held_decision r obs))"
  have new: "commands s' = commands s @
      posture_commands (vip_iface r) (lastIfaceDown r) want (map ev_demotion ds) @
      (if down then [ev_down (vip_iface r)] else [])"
    unfolding want_def by (rule cycle_of_fields(9) [OF c])
  have down: "lastIfaceDown r' \<longleftrightarrow> want \<or> down" unfolding want_def by (rule cycle_of_fields(4) [OF c])
  have not_both: "\<not> (want \<and> down)"
    using c cycle_of_fields(1) [OF c]
    by (auto simp: want_def cycle_of_def cycle_effect_def preempted_def may_preempt_def)
  consider (stays) "lastIfaceDown r = want" "\<not> down" | (switches) "lastIfaceDown r \<noteq> want" "\<not> down"
    | (falls) "\<not> lastIfaceDown r" "\<not> want" down | (returns) "lastIfaceDown r" "\<not> want" down
    using not_both by blast
  then show ?thesis
  proof cases
    case stays
    then show ?thesis by (intro carries_on_same [OF new]) (auto simp: posture_commands_def down)
  next
    case switches
    then show ?thesis by (intro carries_on_one [OF new]) (auto simp: posture_commands_def down)
  next
    case falls
    then show ?thesis by (intro carries_on_one [OF new]) (auto simp: posture_commands_def down)
  next
    case returns
    then show ?thesis by (intro carries_on_two [OF new]) (auto simp: posture_commands_def down)
  qed
qed

lemma Stop_carries_on:
  assumes "run_state (Stop os r) s = (r', s')"
  shows "carries_on (vip_iface r) (r, s) (r', s')"
proof -
  have save: "commands (snd (run_state (saveState os p st) s1)) = commands s1" for p st s1
    by (rule calmD) (rule effect_intros)
  show ?thesis
  proof (cases "lastIfaceDown r")
    case True
    let ?u = "snd (run_state (InterfaceUp os (vip_iface r)) s)"
    have "commands s' = commands s @
        [ev_up (vip_iface r)] @ map ev_demotion (demotion_writes (fst (run_state (GetDemotion os) ?u)) 0)"
      using assms True save by (auto simp: Stop_def case_prod_beta commands_SetDemotion split: if_splits)
    then show ?thesis
      by (rule carries_on_one) (use assms True in \<open>auto simp: Stop_def case_prod_beta split: if_splits\<close>)
  next
    case False
    have "commands s' = commands s @ []"
      using assms False save by (auto simp: Stop_def case_prod_beta split: if_splits)
    then show ?thesis
      by (rule carries_on_same) (use assms False in \<open>auto simp: Stop_def case_prod_beta split: if_splits\<close>)
  qed
qed

lemma load_config_calm: "run_state (load_config x) s = (loaded, s') \<Longrightarrow> commands s' = commands s"
proof -
  assume run: "run_state (load_config x) s = (loaded, s')"
  have "keeps same_commands (load_config x)"
    unfolding load_config_def Load_def by (intro calm.keeps_bind calm.keeps_return calm.call_read_file)
  from calmD [OF this, of s] run show ?thesis by simp
qed

lemma step_carries_on:
  assumes "step x ok (a, s) (a', s')"
  shows "carries_on (vip_iface (aRunner a)) (aRunner a, s) (aRunner a', s')"
  using assms
proof (cases rule: step_runner)
  case cycle
  then show ?thesis using runOnce_carries_on by blast
next
  case (swap c)
  show ?thesis
    by (rule carries_on_same [of _ _ "[]"]) (use swap swap_config_fields [OF swap(1)] in simp_all)
next
  case (ignored e)
  show ?thesis
    by (rule carries_on_same [of _ _ "[]"]) (use ignored load_config_calm [OF ignored(1)] in simp_all)
next
  case (hangup c)
  show ?thesis
    by (rule carries_on_same [of _ _ "[]"])
      (use hangup load_config_calm [OF hangup(1)] Reload_fields [of c "aRunner a"] in simp_all)
next
  case stop
  then show ?thesis using Stop_carries_on by blast
next
  case finish
  show ?thesis by (rule carries_on_same [of _ _ "[]"]) (use finish in simp_all)
qed

section \<open>The life of a process\<close>

text \<open>If every reload keeps the interface \<open>i\<close>, so do the configurations the agent holds.\<close>

definition holds_iface :: "(Config \<Rightarrow> bool) \<Rightarrow> string \<Rightarrow> Runner \<Rightarrow> bool" where
  "holds_iface ok i r \<longleftrightarrow>
     (\<forall>c. ok c \<longrightarrow> VIPInterface (cAgent c) = i) \<longrightarrow>
     vip_iface r = i \<and> (\<forall>c. reloadCh r = Some c \<longrightarrow> VIPInterface (cAgent c) = i)"

lemma step_holds_iface:
  assumes "step x ok (a, s) (a', s')" and "holds_iface ok i (aRunner a)"
  shows "holds_iface ok i (aRunner a')"
  using assms(1)
proof (cases rule: step_runner)
  case cycle
  then show ?thesis using assms(2) runOnce_frame [OF cycle(1)] by (simp add: holds_iface_def vip_iface_def)
next
  case (swap c)
  then show ?thesis using assms(2) swap_config_fields [OF swap(1)] by (simp add: holds_iface_def vip_iface_def)
next
  case (hangup c)
  then show ?thesis
    using assms(2) Reload_fields [of c "aRunner a"] by (auto simp: holds_iface_def vip_iface_def split: option.splits)
next
  case stop
  then show ?thesis
    using assms(2) Stop_frame [of "machine_of x" "aRunner a" s] by (simp add: holds_iface_def vip_iface_def)
qed (use assms(2) in simp_all)

definition switch_inv :: "(Config \<Rightarrow> bool) \<Rightarrow> string \<Rightarrow> 'w io \<Rightarrow> agent \<times> 'w io \<Rightarrow> bool" where
  "switch_inv ok i s1 z \<longleftrightarrow>
     holds_iface ok i (aRunner (fst z)) \<and>
     (\<exists>new is. commands (snd z) = commands s1 @ new \<and> filter is_switch new = alternate is \<and>
        odd (length is) = lastIfaceDown (aRunner (fst z)) \<and>
        ((\<forall>c. ok c \<longrightarrow> VIPInterface (cAgent c) = i) \<longrightarrow> set is \<subseteq> {i}))"

lemma switch_inv_step:
  assumes "switch_inv ok i s1 z" and "step x ok z z'"
  shows "switch_inv ok i s1 z'"
proof -
  obtain a s a' s' where z: "z = (a, s)" "z' = (a', s')" by (metis prod.exhaust)
  from assms(1) z obtain new "is" where inv: "holds_iface ok i (aRunner a)" "commands s = commands s1 @ new"
    "filter is_switch new = alternate is" "odd (length is) = lastIfaceDown (aRunner a)"
    "(\<forall>c. ok c \<longrightarrow> VIPInterface (cAgent c) = i) \<longrightarrow> set is \<subseteq> {i}"
    by (auto simp: switch_inv_def)
  from step_carries_on [OF assms(2) [unfolded z]] obtain more js where
    "commands s' = commands s @ more" "set js \<subseteq> {vip_iface (aRunner a)}"
    "alternate is @ filter is_switch more = alternate (is @ js)" "odd (length (is @ js)) = lastIfaceDown (aRunner a')"
    using inv(4) unfolding carries_on_def by auto
  moreover from this(2) inv(1,5) have "(\<forall>c. ok c \<longrightarrow> VIPInterface (cAgent c) = i) \<longrightarrow> set (is @ js) \<subseteq> {i}"
    by (auto simp: holds_iface_def)
  ultimately show ?thesis
    unfolding switch_inv_def z
    using step_holds_iface [OF assms(2) [unfolded z] inv(1)] inv(2,3)
    by (intro conjI exI [of _ "new @ more"] exI [of _ "is @ js"]) simp_all
qed

text \<open>C26. Up only after own down: from the start of the process on, through cycles, step-downs for a peer, reloads and
  the stop, its \<open>ifconfig\<close> commands alternate, beginning with a down; so every up undoes a down of its own, no
  interface is taken down twice in a row, and an agent that finds its interface down never brings it up by itself.
  The agent believes its interface down exactly when the last of them was a down. If reloads leave the VIP
  interface alone, all of them are for that interface.\<close>

theorem interface_alternates:
  assumes "run_state (boot x) s = (Some a, s1)" and "reaches x ok (a, s1) (b, s2)"
  shows "\<exists>new is. commands s2 = commands s1 @ new \<and> filter is_switch new = alternate is \<and>
    lastIfaceDown (aRunner b) = odd (length is) \<and>
    ((\<forall>c. ok c \<longrightarrow> VIPInterface (cAgent c) = vip_iface (aRunner a)) \<longrightarrow> set is \<subseteq> {vip_iface (aRunner a)})"
proof -
  have "switch_inv ok (vip_iface (aRunner a)) s1 (a, s1)"
    unfolding switch_inv_def using boot_runner(4,6) [OF assms(1)]
    by (intro conjI exI [of _ "[]"]) (simp_all add: holds_iface_def)
  then have "switch_inv ok (vip_iface (aRunner a)) s1 (b, s2)"
    using switch_inv_step by (rule reaches_invariant [OF assms(2)])
  then show ?thesis by (auto simp: switch_inv_def)
qed

end
