(* ===== verification/Listing.thy ===== *)
theory Listing
  imports Carp
begin

text \<open>
  What \<open>ReadState\<close> makes of a listing of \<open>ifconfig\<close>. The tool prints a line \<open>carp: <role> vhid <n> ...\<close>
  per CARP group of the interface, among other lines; the regular expressions of carp.go pick the role
  of the configured group out of that text.
\<close>

section \<open>Listings\<close>

datatype carp_role = Master | Backup | Init

fun role_text :: "carp_role \<Rightarrow> string" where
  "role_text Master = ''MASTER''"
| "role_text Backup = ''BACKUP''"
| "role_text Init = ''INIT''"

fun role_state :: "carp_role \<Rightarrow> carp_state" where
  "role_state Master = StateMaster"
| "role_state Backup = StateBackup"
| "role_state Init = StateUnknown"

text \<open>A group: its role, its VHID and the text from there up to the next group.\<close>

record carp_group =
  gRole :: carp_role
  gVhid :: int
  gRest :: string

definition group_head :: "carp_group \<Rightarrow> string" where
  "group_head g = ''carp: '' @ role_text (gRole g) @ '' vhid '' @ Itoa (gVhid g)"

definition ifconfig_text :: "string \<Rightarrow> carp_group list \<Rightarrow> string" where
  "ifconfig_text preamble gs = preamble @ concat (map (\<lambda>g. group_head g @ gRest g) gs)"

text \<open>No group hides in the text around the groups, and a VHID is a byte that ends with its digits.\<close>

definition carp_free :: "string \<Rightarrow> bool" where
  "carp_free s \<longleftrightarrow> \<not> Contains s ''carp:''"

definition group_ok :: "carp_group \<Rightarrow> bool" where
  "group_ok g \<longleftrightarrow> 0 \<le> gVhid g \<and> gVhid g \<le> 255 \<and> carp_free (gRest g) \<and> (case gRest g of [] \<Rightarrow> True | c # _ \<Rightarrow> \<not> is_digit c)"

section \<open>The preferred match\<close>

text \<open>\<open>first_match r s x\<close>: the way of matching \<open>r\<close> that the matcher takes first is \<open>x\<close>.\<close>

definition first_match :: "regex \<Rightarrow> string \<Rightarrow> re_match \<Rightarrow> bool" where
  "first_match r s x \<longleftrightarrow> (\<exists>xs. matches r s = x # xs)"

lemma first_match_find: "first_match r s x \<Longrightarrow> find_match r s = Some x"
  by (auto simp: first_match_def find_match_hit)

lemma first_Eps: "first_match Eps s ([], [], s)"
  by (simp add: first_match_def)

lemma first_Seq:
  "first_match a s (c1, m1, r1) \<Longrightarrow> first_match b r1 (c2, m2, r2) \<Longrightarrow> first_match (Seq a b) s (c1 @ c2, m1 @ m2, r2)"
  by (auto simp: first_match_def)

lemma first_Cap: "first_match a s (c, m, r) \<Longrightarrow> first_match (Cap a) s (m # c, m, r)"
  by (auto simp: first_match_def)

lemma first_Lit: "first_match (Lit p) (p @ s) ([], p, s)"
  by (simp add: first_match_def matches_Lit)

lemma spans_stop: "(case s of [] \<Rightarrow> True | c # _ \<Rightarrow> \<not> p c) \<Longrightarrow> spans p s = [([], s)]"
  by (cases s) simp_all

lemma spans_longest:
  "list_all p m \<Longrightarrow> (case s of [] \<Rightarrow> True | c # _ \<Rightarrow> \<not> p c) \<Longrightarrow> \<exists>xs. spans p (m @ s) = (m, s) # xs"
  by (induction m) (auto simp: spans_stop)

lemma first_PlusC:
  assumes "m \<noteq> []" and "list_all p m" and "case s of [] \<Rightarrow> True | c # _ \<Rightarrow> \<not> p c"
  shows "first_match (PlusC p) (m @ s) ([], m, s)"
  using assms spans_longest [of p "tl m" s] by (cases m) (auto simp: PlusC_def first_match_def)

lemma first_space:
  "(case s of [] \<Rightarrow> True | c # _ \<Rightarrow> \<not> is_space c) \<Longrightarrow> first_match (PlusC is_space) ('' '' @ s) ([], '' '', s)"
  by (rule first_PlusC) (simp_all add: is_space_def)

lemma first_role:
  "first_match (Alt (Lit ''MASTER'') (Alt (Lit ''BACKUP'') (Lit ''INIT''))) (role_text r @ s) ([], role_text r, s)"
  by (cases r) (simp_all add: first_match_def)

section \<open>Finding the groups\<close>

text \<open>Text without \<open>carp:\<close> is skipped, however it is followed: the word overlaps no start of itself.\<close>

lemma no_carp_here:
  assumes "\<not> HasPrefix (c # s) ''carp:''" and "t = [] \<or> (\<exists>u. t = CHR ''c'' # u)"
  shows "\<not> HasPrefix (c # s @ t) ''carp:''"
proof
  assume p: "HasPrefix (c # s @ t) ''carp:''"
  show False
  proof (cases "4 \<le> length s")
    case True
    with p assms(1) show False by (simp add: HasPrefix_def)
  next
    case False
    then consider "s = []" | a where "s = [a]" | a b where "s = [a, b]" | a b d where "s = [a, b, d]"
      by (cases s rule: list.exhaust; cases "tl s"; cases "tl (tl s)"; cases "tl (tl (tl s))") auto
    then show False
      using p assms by cases (auto simp: HasPrefix_def)
  qed
qed

lemma find_match_free:
  assumes "carp_free s" and "t = [] \<or> (\<exists>u. t = CHR ''c'' # u)"
  shows "find_match (SeqL (Lit ''carp:'' # rs)) (s @ t) = find_match (SeqL (Lit ''carp:'' # rs)) t"
  using assms(1)
proof (induction s)
  case (Cons c s)
  then have "\<not> HasPrefix (c # s) ''carp:''" and s: "carp_free s" by (simp_all add: carp_free_def)
  then have "\<not> HasPrefix (c # s @ t) ''carp:''" using no_carp_here assms(2) by blast
  then have "matches (Lit ''carp:'') (c # s @ t) = []" by (simp only: matches_Lit if_False)
  then have "matches (SeqL (Lit ''carp:'' # rs)) (c # s @ t) = []"
    by (simp only: SeqL.simps matches.simps(4) list.map concat.simps)
  with Cons.IH [OF s] show ?case by (simp only: find_match_skip append_Cons)
qed (simp only: append_Nil)

lemma find_match_none:
  "carp_free s \<Longrightarrow> find_match (SeqL (Lit ''carp:'' # rs)) s = None"
  using find_match_free [of s "[]" rs] find_match_end [of "SeqL (Lit ''carp:'' # rs)"]
  by (simp only: append_Nil2 SeqL.simps matches.simps matches_Lit) (simp add: HasPrefix_def)

lemma digit_no_space: "is_digit c \<Longrightarrow> \<not> is_space c"
  unfolding is_digit_def is_space_def of_char_int_nat by auto

lemma role_no_space: "case role_text r @ s of [] \<Rightarrow> True | c # _ \<Rightarrow> \<not> is_space c"
  by (cases r) (simp_all add: is_space_def)

lemma vhid_no_space: "case ''vhid'' @ s of [] \<Rightarrow> True | c # _ \<Rightarrow> \<not> is_space c"
  by (simp add: is_space_def)

text \<open>At a group the pattern with the VHID takes its role and its digits.\<close>

lemma group_match:
  assumes "0 \<le> gVhid g" and "case u of [] \<Rightarrow> True | c # _ \<Rightarrow> \<not> is_digit c"
  shows "first_match carpStateVhidRe (group_head g @ u) ([role_text (gRole g), Itoa (gVhid g)], group_head g, u)"
proof -
  let ?n = "udigits (gVhid g)"
  have n: "?n \<noteq> []" "list_all is_digit ?n" "Itoa (gVhid g) = ?n"
    using assms(1) by (simp_all add: udigits_all Itoa_def)
  have hd: "case ?n @ u of [] \<Rightarrow> True | c # _ \<Rightarrow> \<not> is_space c"
    using n(1,2) digit_no_space by (cases ?n) auto
  have "first_match (SeqL [Lit ''carp:'', PlusC is_space,
       Cap (Alt (Lit ''MASTER'') (Alt (Lit ''BACKUP'') (Lit ''INIT''))), PlusC is_space,
       Lit ''vhid'', PlusC is_space, Cap (PlusC is_digit)])
     (''carp:'' @ '' '' @ role_text (gRole g) @ '' '' @ ''vhid'' @ '' '' @ ?n @ u)
     ([] @ [] @ [role_text (gRole g)] @ [] @ [] @ [] @ [?n] @ [],
      ''carp:'' @ '' '' @ role_text (gRole g) @ '' '' @ ''vhid'' @ '' '' @ ?n @ [], u)"
    unfolding SeqL.simps
    by (rule first_Seq first_Cap first_Lit first_role first_space first_PlusC [OF n(1,2) assms(2)] first_Eps hd
        role_no_space vhid_no_space)+
  then show ?thesis
    by (simp add: carpStateVhidRe_def group_head_def n(3))
qed

text \<open>The text of the groups alone starts with a \<open>c\<close>, which is no digit.\<close>

definition groups_text :: "carp_group list \<Rightarrow> string" where
  "groups_text gs = concat (map (\<lambda>g. group_head g @ gRest g) gs)"

lemma groups_text_simps [simp]:
  "groups_text [] = []" "groups_text (g # gs) = group_head g @ gRest g @ groups_text gs"
  by (simp_all add: groups_text_def)

lemma groups_text_start: "groups_text gs = [] \<or> (\<exists>u. groups_text gs = CHR ''c'' # u)"
  by (cases gs) (simp_all add: group_head_def)

lemma rest_no_digit:
  "group_ok g \<Longrightarrow> case gRest g @ groups_text gs of [] \<Rightarrow> True | c # _ \<Rightarrow> \<not> is_digit c"
  using groups_text_start [of gs] by (cases "gRest g") (auto simp: group_ok_def is_digit_def)

lemma find_state_free:
  assumes "carp_free s"
  shows "find_match carpStateVhidRe (s @ groups_text gs) = find_match carpStateVhidRe (groups_text gs)"
    and "find_match carpStateRe (s @ groups_text gs) = find_match carpStateRe (groups_text gs)"
  unfolding carpStateVhidRe_def carpStateRe_def
  by (rule find_match_free [OF assms groups_text_start])+

lemma find_state_end: "find_match carpStateVhidRe [] = None" "find_match carpStateRe [] = None"
  unfolding carpStateVhidRe_def carpStateRe_def
  by (rule find_match_none; simp add: carp_free_def HasPrefix_def)+

definition group_texts :: "carp_group \<Rightarrow> string list" where
  "group_texts g = [group_head g, role_text (gRole g), Itoa (gVhid g)]"

lemma find_all_groups:
  "list_all group_ok gs \<Longrightarrow> carp_free s \<Longrightarrow> length gs < n \<Longrightarrow>
     find_all n carpStateVhidRe (s @ groups_text gs) = map group_texts gs"
proof (induction gs arbitrary: s n)
  case Nil
  then obtain m where "n = Suc m" by (cases n) auto
  moreover have "find_match carpStateVhidRe s = None"
    using find_state_free(1) [OF Nil(2), of "[]"] find_state_end by simp
  ultimately show ?case by simp
next
  case (Cons g gs)
  then obtain m where n: "n = Suc m" "length gs < m" by (cases n) auto
  have g: "group_ok g" "carp_free (gRest g)" using Cons.prems by (simp_all add: group_ok_def)
  have "0 \<le> gVhid g" using g by (simp add: group_ok_def)
  from first_match_find [OF group_match [OF this rest_no_digit [OF g(1), of gs]]]
    find_state_free(1) [OF Cons.prems(2), of "g # gs"]
  have "find_match carpStateVhidRe (s @ groups_text (g # gs)) =
      Some ([role_text (gRole g), Itoa (gVhid g)], group_head g, gRest g @ groups_text gs)"
    by (simp only: groups_text_simps)
  moreover have "length (gRest g @ groups_text gs) < length (s @ groups_text (g # gs))"
    by (simp add: group_head_def)
  moreover have "find_all m carpStateVhidRe (gRest g @ groups_text gs) = map group_texts gs"
    by (rule Cons.IH) (use Cons.prems g n in simp_all)
  ultimately show ?case using n(1) by (simp add: group_texts_def)
qed

lemma length_groups: "length gs \<le> length (groups_text gs)"
  by (induction gs) (simp_all add: group_head_def)

lemma find_all_listing:
  assumes "list_all group_ok gs" and "carp_free preamble"
  shows "FindAllStringSubmatch carpStateVhidRe (ifconfig_text preamble gs) = map group_texts gs"
  unfolding FindAllStringSubmatch_def ifconfig_text_def groups_text_def [symmetric]
  by (rule find_all_groups [OF assms]) (use length_groups [of gs] in simp)

text \<open>The pattern without a VHID takes the first group that is Master or Backup.\<close>

lemma find_match_no_c:
  "list_all (\<lambda>c. c \<noteq> CHR ''c'') s \<Longrightarrow> find_match carpStateRe (s @ t) = find_match carpStateRe t"
proof (induction s)
  case (Cons c s)
  then have "matches carpStateRe (c # s @ t) = []" by (simp add: carpStateRe_def)
  with Cons show ?case by (simp add: find_match_skip)
qed simp

lemma find_state_init:
  assumes "gRole g = Init" and "0 \<le> gVhid g"
  shows "find_match carpStateRe (group_head g @ u) = find_match carpStateRe u"
proof -
  have head: "group_head g = CHR ''c'' # ''arp: INIT vhid '' @ udigits (gVhid g)"
    using assms by (simp add: group_head_def Itoa_def)
  have "matches carpStateRe (CHR ''c'' # (''arp: INIT vhid '' @ udigits (gVhid g)) @ u) = []"
    by (simp add: carpStateRe_def PlusC_def is_space_def)
  then have "find_match carpStateRe (group_head g @ u) =
      find_match carpStateRe ((''arp: INIT vhid '' @ udigits (gVhid g)) @ u)"
    unfolding head append_Cons by (rule find_match_skip)
  also have "list_all (\<lambda>c. c \<noteq> CHR ''c'') (''arp: INIT vhid '' @ udigits (gVhid g))"
    using udigits_all [OF assms(2)] by (auto simp: list_all_iff is_digit_def)
  from find_match_no_c [OF this]
  have "find_match carpStateRe ((''arp: INIT vhid '' @ udigits (gVhid g)) @ u) = find_match carpStateRe u" .
  finally show ?thesis .
qed

lemma find_state_role:
  assumes "gRole g \<noteq> Init"
  shows "\<exists>m r. find_match carpStateRe (group_head g @ u) = Some ([role_text (gRole g)], m, r)"
  using assms
  by (cases "gRole g") (simp_all add: find_match.simps group_head_def carpStateRe_def PlusC_def is_space_def)

lemma find_state_first:
  "list_all group_ok gs \<Longrightarrow> carp_free s \<Longrightarrow>
     (case find (\<lambda>g. gRole g \<noteq> Init) gs of
        None \<Rightarrow> find_match carpStateRe (s @ groups_text gs) = None
      | Some g \<Rightarrow> \<exists>m r. find_match carpStateRe (s @ groups_text gs) = Some ([role_text (gRole g)], m, r))"
proof (induction gs arbitrary: s)
  case Nil
  then show ?case using find_state_free(2) [OF Nil(2), of "[]"] find_state_end by simp
next
  case (Cons g gs)
  then have g: "0 \<le> gVhid g" "carp_free (gRest g)" by (simp_all add: group_ok_def)
  have skip: "find_match carpStateRe (s @ groups_text (g # gs)) =
      find_match carpStateRe (group_head g @ gRest g @ groups_text gs)"
    using find_state_free(2) [OF Cons.prems(2), of "g # gs"] by (simp only: groups_text_simps)
  show ?case
  proof (cases "gRole g = Init")
    case True
    with Cons.IH [OF _ g(2)] Cons.prems show ?thesis
      unfolding skip find_state_init [OF True g(1)] by simp
  next
    case False
    with find_state_role [OF False, of "gRest g @ groups_text gs"] show ?thesis
      unfolding skip by simp
  qed
qed

section \<open>The role that is read\<close>

lemma find_vhid:
  assumes "list_all group_ok gs" and "int64 vhid"
  shows "find (\<lambda>m. m ! 2 = Itoa vhid) (map group_texts gs) = map_option group_texts (find (\<lambda>g. gVhid g = vhid) gs)"
  using assms(1)
proof (induction gs)
  case (Cons g gs)
  then have "int64 (gVhid g)" by (simp add: group_ok_def int64_def)
  with Cons assms(2) show ?case by (auto simp: group_texts_def dest: Itoa_inject)
qed simp

lemma role_text_state:
  "role_text r = ''MASTER'' \<longleftrightarrow> r = Master" "role_text r = ''BACKUP'' \<longleftrightarrow> r = Backup" "role_text r \<noteq> []"
  by (cases r; simp)+

lemma role_state_cases:
  "role_state r = (if r = Master then StateMaster else if r = Backup then StateBackup else StateUnknown)"
  by (cases r) simp_all

definition read_role :: "carp_group list \<Rightarrow> int \<Rightarrow> carp_role option" where
  "read_role gs vhid =
     (case find (\<lambda>g. gVhid g = vhid) gs of
        Some g \<Rightarrow> Some (gRole g)
      | None \<Rightarrow> map_option gRole (find (\<lambda>g. gRole g \<noteq> Init) gs))"

lemma parse_listing:
  assumes "list_all group_ok gs" and "carp_free preamble" and "int64 vhid"
  shows "parseCarpState (ifconfig_text preamble gs) vhid =
    (case read_role gs vhid of None \<Rightarrow> StateUnknown | Some r \<Rightarrow> role_state r)"
proof (cases "find (\<lambda>g. gVhid g = vhid) gs")
  case (Some g)
  then show ?thesis
    unfolding parseCarpState_def find_all_listing [OF assms(1,2)] find_vhid [OF assms(1,3)] Let_def
    by (simp add: group_texts_def role_text_state role_state_cases read_role_def)
next
  case None
  have "case find (\<lambda>g. gRole g \<noteq> Init) gs of
      None \<Rightarrow> FindStringSubmatch carpStateRe (ifconfig_text preamble gs) = None
    | Some g \<Rightarrow> \<exists>m. FindStringSubmatch carpStateRe (ifconfig_text preamble gs) = Some [m, role_text (gRole g)]"
    using find_state_first [OF assms(1,2)]
    by (auto simp: FindStringSubmatch_def ifconfig_text_def groups_text_def split: option.splits)
  with None show ?thesis
    unfolding parseCarpState_def find_all_listing [OF assms(1,2)] find_vhid [OF assms(1,3)] Let_def
    by (auto simp: role_text_state role_state_cases read_role_def split: option.splits)
qed

lemma listing_matches:
  assumes "list_all group_ok gs" and "carp_free preamble"
  shows "MatchString carpStateRe (ifconfig_text preamble gs) \<or> MatchString carpStateVhidRe (ifconfig_text preamble gs) \<longleftrightarrow>
    gs \<noteq> []"
proof (cases gs)
  case Nil
  then show ?thesis
    using find_state_free [OF assms(2), of "[]"] find_state_end by (simp add: MatchString_def ifconfig_text_def)
next
  case (Cons g rest)
  have "find_all (Suc (length (ifconfig_text preamble gs))) carpStateVhidRe (ifconfig_text preamble gs) \<noteq> []"
    using find_all_listing [OF assms] Cons by (simp add: FindAllStringSubmatch_def del: find_all.simps)
  then show ?thesis using Cons by (auto simp: MatchString_def split: option.splits)
qed

text \<open>C28. The role an agent acts on: when \<open>ifconfig\<close> lists any number of CARP groups among any other text, what is
  read is the role of the first group with the configured VHID, INIT counting as unknown. Only when there is none is
  the role of another group taken, the first that is MASTER or BACKUP, and only a listing without groups is an error.\<close>

theorem role_of_listing:
  assumes "list_all group_ok gs" and "carp_free preamble" and "int64 vhid"
    and "os_run os ''ifconfig'' [iface] (5 * second) (io_world s) =
      (\<lparr>cr_stdout = ifconfig_text preamble gs, cr_stderr = err, cr_err = None, cr_ctx = None\<rparr>, w)"
  shows "fst (run_state (ReadState os iface vhid) s) =
    (case find (\<lambda>g. gVhid g = vhid) gs of
       Some g \<Rightarrow> Inr (role_state (gRole g))
     | None \<Rightarrow>
         (case find (\<lambda>g. gRole g \<noteq> Init) gs of
            Some g \<Rightarrow> Inr (role_state (gRole g))
          | None \<Rightarrow>
              if gs = [] then Inl (OpaqueErr (''no carp state found for vhid '' @ Itoa vhid @ '' on interface '' @ iface))
              else Inr StateUnknown))"
  using assms(4) listing_matches [OF assms(1,2)] parse_listing [OF assms(1-3)]
  by (auto simp: ReadState_def ExecTimeout_def Let_def case_prod_beta read_role_def split: option.splits)

end
