(* ===== verification/Examples.thy ===== *)
theory Examples
  imports Simulation Report Logger Alerts Shutdown JsonFuel Switches Listing
begin

text \<open>
  Every property that has a hypothesis, applied on the machine of the theory Simulation: the hypotheses
  hold there together, and what the property says of the run is what the run does.
\<close>

section \<open>The process\<close>

lemma demo_loads: "run_state (load_config demo_site) demo_io = (Inr demo_config, demo_io)"
proof -
  have "fst (run_state (load_config demo_site) demo_io) = Inr demo_config" by code_simp
  moreover have "snd (run_state (load_config demo_site) demo_io) = demo_io"
    by (simp add: load_config_def Load_def demo_site_def machine_os_def)
  ultimately show ?thesis by (simp add: prod_eq_iff)
qed

lemma demo_starts: "run_state (NewRunner machine_os demo_config) demo_io = (demo_runner, demo_io)"
  by (simp add: demo_runner_def NewRunner_def restored_state_def demo_config_def prod_eq_iff)

lemma demo_machine: "machine_of demo_site = machine_os"
  by (simp add: demo_site_def)

lemma demo_boots: "run_state (boot demo_site) demo_io = (Some demo_agent, demo_io)"
  using demo_starts by (simp add: boot_def demo_loads demo_agent_def demo_machine)

definition demo_cycle :: "agent \<times> machine io" where
  "demo_cycle = run_state (do_cycle demo_site demo_agent) demo_io"

lemma demo_step: "step demo_site ok (demo_agent, demo_io) demo_cycle"
proof -
  have "run_state (do_cycle demo_site demo_agent) demo_io = (fst demo_cycle, snd demo_cycle)"
    by (simp add: demo_cycle_def)
  then have "step demo_site ok (demo_agent, demo_io) (fst demo_cycle, snd demo_cycle)"
    by (rule step.cycle [rotated]) (simp add: demo_agent_def new_agent_def)
  then show ?thesis by simp
qed

lemma demo_reaches: "reaches demo_site ok (demo_agent, demo_io) (fst demo_cycle, snd demo_cycle)"
  using reaches.more [OF reaches.here demo_step] by simp

lemma demo_config_of: "rCfg (aRunner demo_agent) = demo_config"
  by (simp add: demo_agent_def new_agent_def demo_runner_def NewRunner_def case_prod_beta)

lemma demo_valid: "Validate demo_config = []" by code_simp

lemma demo_levels: "levels_ok (demotionLevels demo_config)" by code_simp

lemma kernel_follows_agent_witness:
  "mUp (io_world (snd demo_cycle)) \<and> mDemotion (io_world (snd demo_cycle)) = lastDemotion (aRunner (fst demo_cycle)) \<and>
   lastDemotion (aRunner (fst demo_cycle)) = 0"
proof -
  have up: "\<not> lastIfaceDown (aRunner (fst demo_cycle))" "lastDemotion (aRunner (fst demo_cycle)) = 0"
    "\<not> aStopped (fst demo_cycle)" "aStage (fst demo_cycle) = Looping"
    by code_simp+
  have "snd (machine_view (io_world (snd demo_cycle))) = (\<not> lastIfaceDown (aRunner (fst demo_cycle))) \<and>
    (lastIfaceDown (aRunner (fst demo_cycle)) \<or>
     fst (machine_view (io_world (snd demo_cycle))) = lastDemotion (aRunner (fst demo_cycle)))"
    by (rule kernel_follows_agent [where x = demo_site and a = demo_agent and view = machine_view, OF _ _ demo_boots _ _ demo_reaches])
      (use up machine_kernel demo_levels in \<open>simp_all add: demo_config_of demo_site_def machine_view_def demo_io_def demo_world_def\<close>)
  with up show ?thesis by (simp add: machine_view_def)
qed

lemma always_valid_witness:
  "Validate (rCfg (aRunner (fst demo_cycle))) = [] \<and> hScore (lastHealth (aRunner (fst demo_cycle))) \<le> 100"
  using always_valid [OF demo_boots demo_reaches] by simp

lemma fixed_at_start_witness:
  "channels (notifier (aRunner (fst demo_cycle))) = ([WebhookNotifier ''slack'' ''https://hooks''], 300 * second)"
  using fixed_at_start [OF demo_boots demo_reaches]
  by (simp add: demo_config_of demo_config_def channels_def new_dispatcher_def NewEventDispatcher_def AddNotifier_def
      NewCooldown_def NewSlackNotifier_def)

definition demo_pending :: agent where
  "demo_pending = demo_agent\<lparr>aRunner := (aRunner demo_agent)\<lparr>reloadCh := Some demo_config\<rparr>\<rparr>"

lemma reload_mailbox_witness:
  "reloadCh (aRunner (take_loaded (Inr (demo_config\<lparr>LogFile := ''l''\<rparr>)) demo_pending)) = Some demo_config"
proof -
  have "run_state (load_config (demo_site\<lparr>yaml_of := (yaml_of demo_site)\<lparr>yaml_decode := (\<lambda>s. Inr (demo_config\<lparr>LogFile := ''l''\<rparr>))\<rparr>\<rparr>))
      demo_io = (Inr (demo_config\<lparr>LogFile := ''l''\<rparr>), demo_io)" (is "run_state (load_config ?x) _ = _")
  proof -
    have "fst (run_state (load_config ?x) demo_io) = Inr (demo_config\<lparr>LogFile := ''l''\<rparr>)" by code_simp
    moreover have "snd (run_state (load_config ?x) demo_io) = demo_io"
      by (simp add: load_config_def Load_def demo_site_def machine_os_def)
    ultimately show ?thesis by (simp add: prod_eq_iff)
  qed
  then have "step ?x (\<lambda>_. True) (demo_pending, demo_io)
      (take_loaded (Inr (demo_config\<lparr>LogFile := ''l''\<rparr>)) demo_pending, demo_io)"
    by (intro step.hangup) (simp_all add: demo_pending_def demo_agent_def new_agent_def)
  from reload_mailbox [OF this] show ?thesis
    by (simp add: demo_pending_def demo_config_of take_loaded_def Reload_def demo_config_def)
qed

lemma stop_restores_interface_witness:
  "mUp (io_world (snd (run_state (Stop machine_os (demo_runner\<lparr>lastDemotion := 7\<rparr>)) demo_io)))"
proof -
  have "carp_kernel machine_os (vip_iface (demo_runner\<lparr>lastDemotion := 7\<rparr>)) machine_view" by (rule machine_kernel)
  moreover have "in_step (machine_view (io_world demo_io)) (demo_runner\<lparr>lastDemotion := 7\<rparr>)" by code_simp
  ultimately show ?thesis
    using stop_restores_interface [OF _ _ prod.collapse [symmetric]] by (fastforce simp: machine_view_def)
qed

text \<open>A process on a node whose service fails: its first cycle takes the interface down, its stop brings it up.\<close>

definition failing_io :: "machine io" where
  "failing_io = demo_io\<lparr>io_world := demo_world\<lparr>mServing := False\<rparr>\<rparr>"

definition failing_cycle :: "agent \<times> machine io" where
  "failing_cycle = run_state (do_cycle demo_site demo_agent) failing_io"

definition failing_stop :: "agent \<times> machine io" where
  "failing_stop = run_state (terminate demo_site (fst failing_cycle)) (snd failing_cycle)"

lemma failing_boots: "run_state (boot demo_site) failing_io = (Some demo_agent, failing_io)"
proof -
  have "fst (run_state (load_config demo_site) failing_io) = Inr demo_config" by code_simp
  moreover have "snd (run_state (load_config demo_site) failing_io) = failing_io"
    by (simp add: load_config_def Load_def demo_site_def machine_os_def)
  ultimately have "run_state (load_config demo_site) failing_io = (Inr demo_config, failing_io)" by (simp add: prod_eq_iff)
  moreover have "run_state (NewRunner machine_os demo_config) failing_io = (demo_runner, failing_io)"
    by (simp add: demo_runner_def NewRunner_def restored_state_def demo_config_def prod_eq_iff)
  ultimately show ?thesis by (simp add: boot_def demo_agent_def demo_machine)
qed

lemma failing_reaches: "reaches demo_site (\<lambda>_. False) (demo_agent, failing_io) (fst failing_stop, snd failing_stop)"
proof -
  have "step demo_site (\<lambda>_. False) (demo_agent, failing_io) (fst failing_cycle, snd failing_cycle)"
    by (rule step.cycle) (simp_all add: failing_cycle_def demo_agent_def new_agent_def)
  moreover have "step demo_site (\<lambda>_. False) (fst failing_cycle, snd failing_cycle) (fst failing_stop, snd failing_stop)"
    by (rule step.stop)
      (simp_all add: failing_stop_def failing_cycle_def do_cycle_def case_prod_beta demo_agent_def new_agent_def)
  ultimately show ?thesis using reaches.here reaches.more by metis
qed

lemma interface_alternates_witness:
  "filter is_switch (commands (snd failing_stop)) = [ev_down ''em1'', ev_up ''em1''] \<and>
   (\<exists>is. alternate is = [ev_down ''em1'', ev_up ''em1''] \<and> set is \<subseteq> {''em1''})"
proof -
  have f: "filter is_switch (commands (snd failing_stop)) = [ev_down ''em1'', ev_up ''em1'']"
    "vip_iface (aRunner demo_agent) = ''em1''" "commands failing_io = []"
    by code_simp+
  from interface_alternates [OF failing_boots failing_reaches] f show ?thesis by auto
qed

section \<open>One cycle\<close>

abbreviation reacts :: "observation \<Rightarrow> Runner \<Rightarrow> Runner \<times> machine io" where
  "reacts obs r \<equiv> run_state (react machine_os obs r) demo_io"

lemma kernel_in_step_witness: "in_step (440, False) (fst (reacts (demo_obs 0 []) demo_runner))"
proof -
  have "carp_kernel machine_os (vip_iface demo_runner) machine_view" by (rule machine_kernel)
  moreover have "levels_ok (demotionLevels (rCfg demo_runner))" "fresh (machine_view (io_world demo_io)) demo_runner"
    by code_simp+
  ultimately have "in_step (machine_view (io_world (snd (reacts (demo_obs 0 []) demo_runner)))) (fst (reacts (demo_obs 0 []) demo_runner))"
    using kernel_in_step [OF _ _ _ prod.collapse [symmetric]] by blast
  moreover have "machine_view (io_world (snd (reacts (demo_obs 0 []) demo_runner))) = (440, False)" by code_simp
  ultimately show ?thesis by simp
qed

lemma unhealthy_leaves_vip_witness:
  "commands (snd (reacts (demo_obs 0 []) demo_runner)) = [ev_demotion 193, ev_down ''em1''] \<and>
   \<not> mUp (io_world (snd (reacts (demo_obs 0 []) demo_runner))) \<and>
   200 \<le> mDemotion (io_world (snd (reacts (demo_obs 0 []) demo_runner)))"
proof -
  have l: "levels_ok (demotionLevels (rCfg demo_runner))" "fresh (machine_view (io_world demo_io)) demo_runner" by code_simp+
  have k: "carp_kernel machine_os (vip_iface demo_runner) machine_view \<and> levels_ok (demotionLevels (rCfg demo_runner)) \<and>
      (in_step (machine_view (io_world demo_io)) demo_runner \<or> fresh (machine_view (io_world demo_io)) demo_runner)"
    using machine_kernel l by blast
  have f: "dlUnhealthy (demotionLevels (rCfg demo_runner)) = 200" "lastDemotion demo_runner = -1" "\<not> lastIfaceDown demo_runner"
    "vip_iface demo_runner = ''em1''" "commands demo_io = []" "fst (run_state (GetDemotion machine_os) demo_io) = (7, None)"
    "demotion_writes (7, None) 200 = [193]" "hScore (obsHealth (demo_obs 0 [])) < 40"
    by code_simp+
  from unhealthy_leaves_vip [OF prod.collapse [symmetric] f(8), where view = machine_view and os = machine_os and r = demo_runner and s = demo_io] k
  show ?thesis by (simp add: f machine_view_def)
qed

lemma goes_down_for_a_reason_witness: "hScore (obsHealth (demo_obs 39 [])) < 40"
proof -
  have "\<not> lastIfaceDown demo_runner" "lastIfaceDown (fst (reacts (demo_obs 39 []) demo_runner))"
    "hScore (obsHealth (demo_obs 39 [])) < 80" by code_simp+
  then show ?thesis using goes_down_for_a_reason [OF prod.collapse [symmetric]] by fastforce
qed

definition demo_preempt :: "Runner \<times> machine io" where
  "demo_preempt = run_state (preempt_step machine_os (demo_obs 100 [demo_peer]) demo_verdict 0
     (demo_runner\<lparr>kernelPreemptSince := 900 * second\<rparr>)) demo_io"

lemma demo_preempts: "commands (snd demo_preempt) \<noteq> commands demo_io"
  by code_simp

lemma step_down_justified_witness: "lastIfaceDown (fst demo_preempt)"
  using step_down_justified [where s' = "snd demo_preempt"] demo_preempts unfolding demo_preempt_def
  by (metis prod.collapse)


lemma sticky_ignores_peers_witness:
  "commands (snd (reacts (demo_obs 50 [demo_peer])
     (demo_runner\<lparr>rCfg := demo_config\<lparr>cPolicyMode := ''sticky''\<rparr>, lastIfaceDown := True, lastDemotion := 200\<rparr>))) =
     [ev_up ''em1'', ev_demotion 43]"
proof -
  let ?r = "demo_runner\<lparr>rCfg := demo_config\<lparr>cPolicyMode := ''sticky''\<rparr>, lastIfaceDown := True, lastDemotion := 200\<rparr>"
  have f: "cPolicyMode (rCfg ?r) \<noteq> ''preempt''" "40 \<le> hScore (obsHealth (demo_obs 50 [demo_peer]))"
    "hScore (obsHealth (demo_obs 50 [demo_peer])) < 80" "dlDegraded (demotionLevels (rCfg ?r)) = 50" "lastDemotion ?r = 200"
    "lastIfaceDown ?r" "vip_iface ?r = ''em1''" "commands demo_io = []"
    "fst (run_state (GetDemotion machine_os) (snd (run_state (InterfaceUp machine_os ''em1'') demo_io))) = (7, None)"
    "demotion_writes (7, None) 50 = [43]"
    by code_simp+
  from sticky_ignores_peers [OF prod.collapse [symmetric] f(1,2), where os = machine_os and s = demo_io] show ?thesis
    by (simp only: f if_True) simp
qed

section \<open>Runs of cycles\<close>

definition demo_quick :: Config where
  "demo_quick = demo_config\<lparr>cNotify := (cNotify demo_config)\<lparr>Confirm := 1, Slack := \<lparr>sEnabled = False, WebhookURL = []\<rparr>\<rparr>\<rparr>"

definition demo_held :: Runner where
  "demo_held = demo_runner\<lparr>rCfg := demo_quick, notifier := NewEventDispatcher (300 * second), lastIfaceDown := True, lastDemotion := 200, lastState := StateUnhealthy\<rparr>"

definition demo_log :: log where
  "demo_log = fst (run_state (cycles machine_os OpaqueErr 2 demo_held) demo_io)"

lemma demo_held_settings:
  "cPolicyMode (rCfg demo_held) = ''preempt''" "recovery_confirm (rCfg demo_held) = 2" "recoveryStreak demo_held = 0"
  "notify_confirm (rCfg demo_held) = 1" "confirmCount demo_held = 0" "lastIfaceDown demo_held"
  "weights_ok (effective_weights (health_config (rCfg demo_held)))" "vip_iface demo_held = ''em1''"
  "lastState demo_held = StateUnhealthy"
  by code_simp+

lemma demo_log_run:
  "map (\<lambda>x. (fully_healthy (fst x), ev_up ''em1'' \<in> set (snd x), lastState (fst x))) demo_log =
     [(True, True, StateHealthy), (True, False, StateUnhealthy)]"
  by code_simp

lemma demo_log_facts:
  "length demo_log = 2" "ev_up ''em1'' \<in> set (snd (demo_log ! 0))" "\<forall>x \<in> set demo_log. fully_healthy (fst x)"
  "lastState (fst (demo_log ! 0)) = StateHealthy" "lastState (latest demo_held (drop (Suc 0) demo_log)) = StateUnhealthy"
proof -
  obtain x y where log: "demo_log = [x, y]"
    using demo_log_run by (auto simp: map_eq_Cons_conv)
  show "length demo_log = 2" "ev_up ''em1'' \<in> set (snd (demo_log ! 0))" "\<forall>x \<in> set demo_log. fully_healthy (fst x)"
    "lastState (fst (demo_log ! 0)) = StateHealthy" "lastState (latest demo_held (drop (Suc 0) demo_log)) = StateUnhealthy"
    using demo_log_run unfolding log by auto
qed

lemma demo_small:
  "0 < recovery_confirm (rCfg demo_held)" "int 2 < 2 ^ 62" "0 < length demo_log" "0 < notify_confirm (rCfg demo_held)"
  by (simp_all add: demo_held_settings demo_log_facts(1))

lemma recovery_needs_confirmation_witness: "last_full 2 demo_log"
proof -
  have "last_full (nat (recovery_confirm (rCfg demo_held))) (drop 0 demo_log)"
    by (rule recovery_needs_confirmation [OF demo_held_settings(1) demo_small(1) demo_held_settings(3) demo_small(2)
          demo_log_def demo_small(3) demo_log_facts(2) [folded demo_held_settings(8)]])
  then show ?thesis by (simp add: demo_held_settings)
qed

lemma recovery_is_granted_witness: "\<exists>x \<in> set demo_log. ev_up ''em1'' \<in> set (snd x)"
proof -
  have log: "demo_log = fst (run_state (cycles machine_os OpaqueErr (nat (recovery_confirm (rCfg demo_held))) demo_held) demo_io)"
    by (simp add: demo_log_def demo_held_settings)
  have s: "recovery_confirm (rCfg demo_held) < 2 ^ 62" "0 \<le> recoveryStreak demo_held"
    "recoveryStreak demo_held < recovery_confirm (rCfg demo_held)"
    by (simp_all add: demo_held_settings)
  have "\<exists>x \<in> set demo_log. ev_up (vip_iface demo_held) \<in> set (snd x)"
    by (rule recovery_is_granted [OF demo_held_settings(1) demo_small(1) s(1) demo_held_settings(7,6) s(2,3) log
          demo_log_facts(3)])
  then show ?thesis by (simp add: demo_held_settings)
qed

lemma announcement_is_confirmed_witness: "last_same 1 StateHealthy demo_log"
proof -
  have "lastState (fst (demo_log ! 0)) \<noteq> lastState (latest demo_held (drop (Suc 0) demo_log))"
    by (simp only: demo_log_facts) simp
  then have "last_same (nat (notify_confirm (rCfg demo_held))) (lastState (fst (demo_log ! 0))) (drop 0 demo_log)"
    by (rule announcement_is_confirmed [OF demo_small(4) demo_held_settings(5) demo_small(2) demo_log_def demo_small(3)])
  then show ?thesis by (simp add: demo_held_settings demo_log_facts)
qed

text \<open>Step-downs: at 1000 s for a peer of smaller advskew whose kernel does not preempt, back at 1005 s, and again at 1100 s.\<close>

definition stepping_config :: Config where
  "stepping_config = demo_config\<lparr>cAgent := (cAgent demo_config)\<lparr>RecoveryConfirm := 1\<rparr>,
     cHealth := (cHealth demo_config)\<lparr>TCPCheck := False, UDPCheck := False\<rparr>,
     cPeer := (cPeer demo_config)\<lparr>pEnabled := True, Peers := [\<lparr>eIP = ''10.0.0.2'', eName = ''b'', eToken = []\<rparr>]\<rparr>,
     cNotify := (cNotify demo_config)\<lparr>Slack := \<lparr>sEnabled = False, WebhookURL = []\<rparr>\<rparr>\<rparr>"

definition stepping_page :: string where
  "stepping_page = ''{'' @ [CHR 0x22] @ ''score'' @ [CHR 0x22] @ '':100,'' @ [CHR 0x22] @ ''advskew'' @ [CHR 0x22] @ '':5}''"

definition stepping_io :: "instant \<Rightarrow> bool \<Rightarrow> machine io" where
  "stepping_io t up = \<lparr>io_world = demo_world\<lparr>mNow := t * second, mDemotion := 0, mUp := up,
     mAnswer := HttpAnswered \<lparr>rs_status = 200, rs_body = stepping_page\<rparr>\<rparr>, io_trace = []\<rparr>"

definition stepping_moments :: "(Config \<times> machine io) list" where
  "stepping_moments = [(stepping_config, stepping_io 1000 True), (stepping_config, stepping_io 1005 False),
     (stepping_config, stepping_io 1100 True)]"

lemma step_downs_spaced_witness:
  "step_down_spans machine_os OpaqueErr mNow stepping_moments demo_runner =
     [(1000 * second, 1000 * second + 4), (1100 * second, 1100 * second + 4)] \<and>
   1000 * second + 60 * second \<le> 1100 * second + 4"
proof -
  have spans: "step_down_spans machine_os OpaqueErr mNow stepping_moments demo_runner =
     [(1000 * second, 1000 * second + 4), (1100 * second, 1100 * second + 4)]" by code_simp
  from step_downs_spaced [OF machine_clock, of OpaqueErr stepping_moments demo_runner] spans show ?thesis by simp
qed

section \<open>Cooldown, tracker and files\<close>

definition demo_calls :: "(string \<times> machine io) list" where
  "demo_calls = map (\<lambda>(key, t). (key, demo_io\<lparr>io_world := demo_world\<lparr>mNow := t\<rparr>\<rparr>)) [(''a'', 5), (''b'', 8), (''a'', 9), (''a'', 40)]"

lemma cooldown_spacing_witness:
  "granted_calls machine_os mNow demo_calls (NewCooldown 20) = [(''a'', 5, 6), (''b'', 8, 9), (''a'', 40, 42)] \<and> (5 :: int) + 20 \<le> 42"
proof -
  have "cdDuration (NewCooldown 20) = 20" by (simp add: NewCooldown_def)
  moreover have g: "granted_calls machine_os mNow demo_calls (NewCooldown 20) = [(''a'', 5, 6), (''b'', 8, 9), (''a'', 40, 42)]"
    by code_simp
  ultimately show ?thesis
    using cooldown_spacing [OF machine_clock, where c = "NewCooldown 20" and k = "''a''" and calls = demo_calls] by simp
qed

lemma cooldown_keys_example: "fst (fst (run_state (Allow machine_os ''a'' (NewCooldown 2)) demo_io))"
  using cooldown_keys [where os = machine_os and key = "''a''" and c = "NewCooldown 2" and s = demo_io] by (simp add: NewCooldown_def case_prod_beta)

lemma tracker_alerts_exact_witness:
  "fst (Update ''p'' False (tracker_after 2 [(''p'', True), (''q'', True), (''p'', False)])) = (True, False)"
  using tracker_alerts_exact [of 2 "''p''" False "[(''p'', True), (''q'', True), (''p'', False)]"]
  by (simp add: polls_of_def fails_def)

lemma save_then_load_witness:
  "fst (run_state (loadState machine_os ''/s'') (snd (run_state (saveState machine_os ''/s'' StateDegraded) demo_io))) =
     (StateDegraded, True)"
proof -
  have "fst (run_state (saveState machine_os ''/s'' StateDegraded) demo_io) = None" by code_simp
  then show ?thesis using save_then_load [OF machine_filesystem] by (metis prod.collapse)
qed

lemma failed_save_keeps_file_witness:
  "map_of (mFiles (io_world (snd (run_state (saveState machine_os ''/ro/s'' StateDegraded) demo_io)))) ''/ro/s'' = None"
proof -
  have "fst (run_state (saveState machine_os ''/ro/s'' StateDegraded) demo_io) = Some (OpaqueErr ''read-only file system'')"
    "map_of (mFiles (io_world demo_io)) ''/ro/s'' = None" by code_simp+
  then show ?thesis using failed_save_keeps_file [OF machine_filesystem] by (metis prod.collapse)
qed

section \<open>Configuration\<close>

lemma validated_settings_witness: "notify_confirm demo_config = 2 \<and> dlDegraded (demotionLevels demo_config) < 200"
proof -
  have "notify_confirm demo_config = 2" "dlUnhealthy (demotionLevels demo_config) = 200"
    "DemotionDegraded (cCARP demo_config) \<noteq> 0" by code_simp+
  then show ?thesis using validated_settings [OF demo_valid] by auto
qed

lemma healthier_advertises_less_witness:
  "DesiredDemotion (EvaluatePolicy PolicyPreempt 90 StateMaster [demo_peer] (demotionLevels demo_config)) \<le>
   DesiredDemotion (EvaluatePolicy PolicyPreempt 50 StateMaster [demo_peer] (demotionLevels demo_config))"
  by (rule healthier_advertises_less [OF demo_valid]) (simp_all add: demo_config_def)

lemma placeholder_is_expanded_witness:
  "expandEnv (environment demo_site) ''state_file: ${HOME}/s'' = ''state_file: /root'' @ expandEnv (environment demo_site) ''/s''"
  using placeholder_is_expanded [of "''state_file: ''" "''HOME''" "environment demo_site" "''/s''"]
  by (simp add: demo_site_def)

section \<open>Heartbeat\<close>

definition demo_server :: HeartbeatServer where
  "demo_server = NewHeartbeatServer ''secret'' [] ''em1'' 1"

lemma heartbeat_is_read_back_witness:
  "\<exists>page. fst (run_state (handleHealth machine_os demo_server (obsHealth (demo_obs 95 []))) demo_io) = Reply 200 ''application/json'' page \<and>
     (let ph = read_heartbeat OpaqueErr \<lparr>rs_status = 200, rs_body = page\<rparr> demo_peer
      in phScore ph = 95 \<and> phCarp ph = ''MASTER'' \<and> phAdvskew ph = 9 \<and> phDemotion ph = 7 \<and> phPreempt ph = 0)"
proof -
  let ?r = "run_state (handleHealth machine_os demo_server (obsHealth (demo_obs 95 []))) demo_io"
  obtain page where page: "fst ?r = Reply 200 ''application/json'' page"
    by (simp add: handleHealth_def case_prod_beta)
  then have r: "?r = (Reply 200 ''application/json'' page, snd ?r)" by (simp add: prod_eq_iff)
  have h: "int64 (hScore (obsHealth (demo_obs 95 [])))" "hScore (obsHealth (demo_obs 95 [])) = 95"
    by (simp_all add: demo_obs_def int64_def)
  have now: "0 \<le> mNow (io_world demo_io)" by (simp add: demo_io_def demo_world_def second_def)
  let ?c = "run_state (ReadState machine_os (hsVIPIface demo_server) (hsVhid demo_server)) demo_io"
  let ?a = "run_state (GetAdvskew machine_os (hsVIPIface demo_server) (hsVhid demo_server)) (snd ?c)"
  let ?d = "run_state (GetDemotion machine_os) (snd ?a)"
  have f: "carp_text (fst ?c) = ''MASTER''" "fst ?a = (9, None)" "fst ?d = (7, None)"
    "fst (run_state (GetPreempt machine_os) (snd ?d)) = (0, None)"
    by code_simp+
  from heartbeat_is_read_back [OF r h(1) machine_clock now, of OpaqueErr demo_peer] h(2) f
  have "let ph = read_heartbeat OpaqueErr \<lparr>rs_status = 200, rs_body = page\<rparr> demo_peer
      in phScore ph = 95 \<and> phCarp ph = ''MASTER'' \<and> phAdvskew ph = 9 \<and> phDemotion ph = 7 \<and> phPreempt ph = 0"
    by (simp add: Let_def case_prod_beta)
  with page show ?thesis by blast
qed

text \<open>Two groups on one interface, the configured one in INIT.\<close>

definition demo_groups :: "carp_group list" where
  "demo_groups = [\<lparr>gRole = Master, gVhid = 1, gRest = '' advbase 1 advskew 0\<newline>''\<rparr>, \<lparr>gRole = Init, gVhid = 12, gRest = '' advbase 1\<newline>''\<rparr>]"

lemma role_of_listing_witness:
  "fst (run_state (ReadState (machine_os\<lparr>os_run := (\<lambda>p a t w. (success (ifconfig_text ''em1: flags=8943\<newline>'' demo_groups), w))\<rparr>) ''em1'' 12)
     demo_io) = Inr StateUnknown"
proof -
  have "list_all group_ok demo_groups" "carp_free ''em1: flags=8943\<newline>''" by code_simp+
  then show ?thesis
    by (subst role_of_listing [where gs = demo_groups and preamble = "''em1: flags=8943\<newline>''" and err = "[]" and w = demo_world])
      (simp_all add: int64_def success_def demo_groups_def demo_io_def)
qed

section \<open>Checks, alerts, restarts\<close>

lemma score_is_share_witness:
  "hScore (fst (run_state (RunChecks machine_os (health_config demo_config)) demo_io)) = 100"
proof -
  let ?r = "run_state (RunChecks machine_os (health_config demo_config)) demo_io"
  let ?w = "effective_weights (health_config demo_config)"
  have w: "weights_ok ?w" "0 < max_of_weights ?w" by code_simp+
  have p: "ProcessAlive (fst ?r)" "TCPAlive (fst ?r)" "UDPAlive (fst ?r)" "wDNS ?w = 0" by code_simp+
  show ?thesis using score_is_share [OF w prod.collapse [symmetric] refl] p by blast
qed

lemma first_cycle_is_quiet_witness:
  "sends (snd (run_state (peer_alerts machine_os (demo_obs 100 [demo_peer, demo_peer\<lparr>phIP := ''10.0.0.3'', phOK := False\<rparr>])
     demo_verdict StateMaster demo_runner) demo_io)) = []"
proof -
  let ?obs = "demo_obs 100 [demo_peer, demo_peer\<lparr>phIP := ''10.0.0.3'', phOK := False\<rparr>]"
  have p: "peers demo_runner = None" "distinct (map phIP (obsPeers ?obs))"
    "\<forall>ph \<in> set (obsPeers ?obs). phOK ph \<or> phSeverity ph \<noteq> SeverityCritical" "sends demo_io = []"
    by code_simp+
  show ?thesis
    by (rule first_cycle_is_quiet [OF p(1-3) prod.collapse [symmetric], THEN conjunct1, THEN trans]) (rule p(4))
qed

definition demo_watching :: Runner where
  "demo_watching = demo_runner\<lparr>wasMaster := True, rCfg := demo_config\<lparr>cNotify := (cNotify demo_config)\<lparr>VIPLossAlert := True\<rparr>\<rparr>\<rparr>"

lemma vip_loss_is_unexplained_witness:
  "\<not> effective (demo_peer\<lparr>phAdvskew := 50\<rparr>) <
     i64 (fst (fst (run_state (GetAdvskew machine_os ''em1'' 1) demo_io)) + 0)"
proof -
  let ?obs = "demo_obs 100 [demo_peer\<lparr>phAdvskew := 50\<rparr>]"
  let ?r = "run_state (vip_loss_alert machine_os ?obs demo_verdict 0 StateBackup demo_watching) demo_io"
  have s: "sends (snd ?r) \<noteq> sends demo_io" by code_simp
  have p: "vip_iface demo_watching = ''em1''" "VHID (cAgent (rCfg demo_watching)) = 1"
    "obsPeers ?obs = [demo_peer\<lparr>phAdvskew := 50\<rparr>]" "phOK (demo_peer\<lparr>phAdvskew := 50\<rparr>)"
    "80 \<le> phScore (demo_peer\<lparr>phAdvskew := 50\<rparr>)"
    by code_simp+
  from vip_loss_is_unexplained [OF prod.collapse [symmetric] s] show ?thesis unfolding p using p(4,5) by auto
qed

lemma restart_resumes_witness:
  "lastState (fst (run_state (NewRunner machine_os (demo_config\<lparr>cAgent := (cAgent demo_config)\<lparr>StateFile := ''/s''\<rparr>\<rparr>))
     (snd (run_state (Stop machine_os (demo_runner\<lparr>lastState := StateDegraded,
       rCfg := demo_config\<lparr>cAgent := (cAgent demo_config)\<lparr>StateFile := ''/s''\<rparr>\<rparr>\<rparr>)) demo_io)))) = StateDegraded"
proof -
  let ?cfg = "demo_config\<lparr>cAgent := (cAgent demo_config)\<lparr>StateFile := ''/s''\<rparr>\<rparr>"
  have "\<forall>d w. fst (os_write_file machine_os (''/s'' @ ''.tmp'') d w) = None"
    "\<forall>w. map_of (mFiles w) (''/s'' @ ''.tmp'') \<noteq> None \<longrightarrow> fst (os_rename machine_os (''/s'' @ ''.tmp'') ''/s'' w) = None"
    by (auto simp: machine_os_def HasPrefix_def)
  from restart_resumes [OF machine_filesystem _ _ _ this, of "demo_runner\<lparr>lastState := StateDegraded, rCfg := ?cfg\<rparr>" ?cfg demo_io]
  show ?thesis by simp
qed

section \<open>Log lines and tables\<close>

lemma tagged_line_witness:
  "run_state (log_at machine_os
       \<lparr>st_open_append = \<lambda>f w. (None, w), st_write = \<lambda>o' l w. (None, w\<lparr>mFiles := (''log'', l) # mFiles w\<rparr>),
        st_text_handler = \<lambda>l m a w. ((), w)\<rparr>
       \<lparr>out = WStdout, hLevel = LevelWarn, hAttrs = [], hGroups = [], hPrefix = []\<rparr>
       LevelInfo ''[AGENT] runner started'' [(''vhid'', Int64Value 1)]) demo_io = ((), demo_io)"
  using tagged_line [of "''AGENT''" "''runner started''" machine_os _ "\<lparr>out = WStdout, hLevel = LevelWarn, hAttrs = [], hGroups = [], hPrefix = []\<rparr>"]
  by (simp add: plain_def LevelWarn_def LevelInfo_def)

lemma table_lines_up_witness:
  "let res = zeroHealthResult\<lparr>hScore := 100, RawScore := 100, MaxScore := 100\<rparr>;
       l = table_layout (check_rows (health_config demo_config) res) (check_summary res) (check_header 0)
   in int (rune_count (summary_line l (check_summary res))) = innerWidth l + 2"
proof -
  let ?res = "zeroHealthResult\<lparr>hScore := 100, RawScore := 100, MaxScore := 100\<rparr>"
  let ?rows = "check_rows (health_config demo_config) ?res"
  let ?l = "table_layout ?rows (check_summary ?res) (check_header 0)"
  have f: "innerWidth ?l = 51" "length (check_summary ?res) = 49" "list_all ascii_row ?rows"
    "ascii (check_summary ?res)" "ascii (check_header 0)"
    by code_simp+
  from table_lines_up [OF refl, of ?rows "check_summary ?res" "check_header 0"] f show ?thesis
    by (simp add: list_all_iff)
qed

section \<open>After the stop\<close>

definition demo_stopping :: "agent \<times> machine io" where
  "demo_stopping = run_state (terminate demo_site (demo_agent\<lparr>aStage := Looping\<rparr>))
     (demo_io\<lparr>io_world := demo_world\<lparr>mServing := False\<rparr>\<rparr>)"

definition demo_late :: "agent \<times> machine io" where
  "demo_late = run_state (do_cycle demo_site (fst demo_stopping)) (snd demo_stopping)"

lemma stopped_node_can_stay_down_witness: "\<not> mUp (io_world (snd demo_late))"
proof -
  have "run_state (runOnce machine_os OpaqueErr (aRunner (fst demo_stopping))) (snd demo_stopping) =
      (aRunner (fst demo_late), snd demo_late)"
    by (simp add: demo_late_def do_cycle_def case_prod_beta demo_site_def)
  note health = runOnce_health [OF this]
  have "hScore (obsHealth (fst (run_state (observe machine_os OpaqueErr (rCfg (aRunner (fst demo_stopping)))) (snd demo_stopping)))) < 40"
    by code_simp
  then have low: "hScore (lastHealth (aRunner (fst demo_late))) < 40" using health by simp
  have k: "carp_kernel (machine_of demo_site) (vip_iface (aRunner (demo_agent\<lparr>aStage := Looping\<rparr>))) machine_view"
    unfolding demo_machine by (rule machine_kernel)
  have s: "aStage (demo_agent\<lparr>aStage := Looping\<rparr>) = Looping" "\<not> aStopped (demo_agent\<lparr>aStage := Looping\<rparr>)"
    by (simp_all add: demo_agent_def new_agent_def)
  from stopped_node_can_stay_down [OF k s, of "demo_io\<lparr>io_world := demo_world\<lparr>mServing := False\<rparr>\<rparr>"
      "fst demo_stopping" "snd demo_stopping" "fst demo_late" "snd demo_late"] low
  show ?thesis by (simp add: demo_stopping_def demo_late_def machine_view_def)
qed

end
