(* ===== verification/Spec2Isabelle.thy ===== *)
theory Spec2Isabelle
  imports Examples
begin

text \<open>
  \<^bold>\<open>dns-ha-agent\<close>, a failover agent for DNS nodes that share an address through FreeBSD's CARP.

  \<^bold>\<open>The program.\<close> Every node runs one agent. Each interval it scores its own DNS service
  (\<open>internal/health\<close>), reads its CARP role (\<open>internal/carp\<close>), polls the heartbeat pages of its peers
  (\<open>internal/peer\<close>), decides (\<open>internal/agent/policy.go\<close>) whether the VIP interface is up and which
  demotion it advertises, writes both to the kernel, and notifies people (\<open>internal/notify\<close>) of what
  changed. The configuration (\<open>internal/config\<close>) is read at the start and on SIGHUP.

  \<^bold>\<open>Effects.\<close> A function of the source that touches the machine is a value of \<open>('w io, 'a) state\<close>:
  explicit passing of a world \<open>'w\<close> of any type and of the trace of what was done. Everything that is not
  under \<open>src/\<close> (the commands \<open>ifconfig\<close>, \<open>sysctl\<close>, \<open>ping\<close>, \<open>pgrep\<close>, sockets, the DNS library, HTTP and SMTP
  clients, the clock, files, the random order of Go's maps) is a field of the record \<open>os\<close>, the parameter
  of the definitions; nothing is assumed of it except where a theorem says so. The YAML library is the
  record \<open>yaml_library\<close> in the same way, and the wording of JSON errors is an argument. A Go \<open>int\<close> is an
  \<open>int\<close> with \<open>i64\<close> at the additions that can wrap; strings are lists of bytes; an \<open>error\<close> is a \<open>goerr\<close>.

  \<^bold>\<open>Theories.\<close>
  \<^item> \<open>Prelude\<close>: \<open>i64\<close>, durations, weakest preconditions \<open>wp\<close> for the state monad, \<open>keeps\<close> with the
    collection \<open>effect_intros\<close> and the locale \<open>effect\<close> of transitive relations that computations keep.
  \<^item> \<open>GoStrings\<close>, \<open>Regexp\<close>, \<open>NetIP\<close>: the parts of Go's library the source uses (\<open>strings\<close>, \<open>strconv\<close>,
    \<open>%q\<close>, \<open>time.Duration\<close>, \<open>regexp\<close> by backtracking over the patterns in the source, \<open>net.ParseIP\<close>).
  \<^item> \<open>OS\<close>: the machine, its events, \<open>internal/util/exec.go\<close>.
  \<^item> \<open>Carp\<close> (carp.go, demotion.go, iface.go), \<open>Health\<close> (\<open>internal/health\<close>), \<open>Config\<close> (config.go's data and
    validate.go), \<open>Load\<close> (the loading of config.go), \<open>Json\<close> (\<open>encoding/json\<close> on the heartbeat), \<open>Probe\<close>
    (probe.go and \<open>PingHost\<close>), \<open>Peer\<close> (peer.go), \<open>Heartbeat\<close> (heartbeat.go), \<open>Cooldown\<close> (cooldown.go), \<open>Notify\<close>
    (the rest of \<open>internal/notify\<close>), \<open>Policy\<close> (policy.go, state.go), \<open>Tracker\<close> (peer_tracker.go),
    \<open>StateFile\<close> (state_file.go), \<open>Runner\<close> (runner.go), \<open>Loop\<close> (\<open>Run\<close>'s loop and \<open>main\<close>'s signals),
    \<open>Console\<close> (the commands, flags and reports of main.go), \<open>Logger\<close> (\<open>internal/logger\<close>).
  \<^item> \<open>Cycle\<close>, \<open>Safety\<close>, \<open>History\<close>, \<open>Kernel\<close>, \<open>Settings\<close>, \<open>Exchange\<close>: properties of one cycle, of a run of cycles, of the
    agent together with a kernel, of what a valid configuration gives, of a server and a client together.
    \<open>Switches\<close>: of the interface commands of a whole process. \<open>Listing\<close>: of the role read out of a listing of
    \<open>ifconfig\<close>. \<open>Alerts\<close>: of the polls, the messages about them and a restart. \<open>Shutdown\<close>: of the end of the
    process. \<open>Report\<close>: of the commands. \<open>JsonFuel\<close>: the fuel of the JSON reader is enough.
  \<^item> \<open>Simulation\<close>: a small machine, \<open>machine_os\<close>, that satisfies every hypothesis stated of \<open>os\<close>;
    \<open>Examples\<close>: on it, a concrete instance of each property that has hypotheses.

  \<^bold>\<open>A cycle.\<close> \<open>runOnce\<close> is \<open>observe\<close> (the score, the role, the peers), then \<open>react\<close>: \<open>decide\<close> (policy, recovery
  hold, debounce), \<open>act\<close> (step 1 \<open>apply_posture\<close>, the demotion read back, step 2 \<open>preempt_step\<close>) and \<open>tell\<close>
  (steps 3 and 4, the alerts, the announcement, the VIP loss alert). \<open>Cycle.cycle_effect\<close> states the
  effect of \<open>react\<close> on the runner and the commands in one formula, with \<open>posture_writes\<close> for what exactly is
  written to the demotion counter; \<open>Safety\<close> and \<open>Kernel\<close> read their properties off it,
  and \<open>History\<close> carries invariants over \<open>cycles\<close>, the run of \<open>n\<close> cycles with a log of what each saw and did.

  \<^bold>\<open>Abstract specifications.\<close> The tracker refines a phase machine per peer and that a predicate on the
  history of polls (locale \<open>peer_monitor\<close>); the cooldown and the runner's step-downs are
  instances of \<open>spaced\<close>, which counts what was granted or run, by the clock around it, and not what was noted; the score bands of
  node and peer are both \<open>score_bands\<close>; the kernel's CARP bookkeeping is \<open>carp_kernel\<close>, over an observation
  \<open>view\<close> of the world (its counter and whether the interface is up), and \<open>in_step\<close> relates it to the agent.

  \<^bold>\<open>Bounds and fuel.\<close> The regular expressions of the source have no nested repetition, so \<open>matches\<close> recurs
  over the pattern. The JSON reader has fuel, one more than the length of the text: \<open>JsonFuel\<close> shows that no
  larger fuel reads anything else; its nesting is bounded as in Go. \<open>find_all\<close>, \<open>trim_by\<close> and \<open>json_chars\<close> take the
  length of their text, and each round consumes a byte; \<open>expandEnv\<close> recurs on what is left of the text. The loop
  of the process is not bounded: \<open>reaches\<close> is any finite number of passes.

  \<^bold>\<open>Not modelled.\<close> The log calls of the packages (the logger itself is modelled): nothing reads them back. The
  goroutines and sockets of the HTTP server and TLS, all of it inside \<open>net/http\<close>. The usage text that \<open>flag\<close>
  prints and the platform in the version line, which are parameters of \<open>Console\<close>. Mutexes, and the races
  between a signal and a cycle in progress: a pass of \<open>Loop.step\<close> is atomic, although the order in which
  ready passes are taken is arbitrary, a cycle after \<open>Stop\<close> included. Tests, dashboards and packaging.
\<close>

end
